(* ===== verification/Prelude.thy ===== *)
theory Prelude
  imports Main
begin

text \<open>
  Shared material of the development: the state-and-exception monad in which the
  \<open>async\<close> functions of the server are written, the contract locale for two-state
  relations that every effect of a program respects, JavaScript string and array helpers
  (\<open>split\<close>, \<open>trim\<close>, \<open>startsWith\<close>, \<open>Map\<close> with insertion
  order, the stable \<open>sort\<close>), and the rule collections the component proofs use.
\<close>

section \<open>Rule collections\<close>

named_theorems monad_simps \<open>evaluation of the monad combinators\<close>
named_theorems resp_intros \<open>primitive operations respect a two-state relation\<close>
named_theorems state_defs \<open>definitions of the atomic store updates\<close>

section \<open>Computations with state and exceptions\<close>

text \<open>
  A computation takes the store and returns either a thrown error (\<open>Inl\<close>) or a value
  (\<open>Inr\<close>), with the store as the effects so far have left it: an exception does not
  undo the writes made before it.
\<close>

type_synonym ('s, 'e, 'a) comp = "'s \<Rightarrow> ('e + 'a) \<times> 's"

definition ret :: "'a \<Rightarrow> ('s, 'e, 'a) comp" where
  "ret a = (\<lambda>s. (Inr a, s))"

definition throw :: "'e \<Rightarrow> ('s, 'e, 'a) comp" where
  "throw e = (\<lambda>s. (Inl e, s))"

definition seq :: "('s, 'e, 'a) comp \<Rightarrow> ('a \<Rightarrow> ('s, 'e, 'b) comp) \<Rightarrow> ('s, 'e, 'b) comp" where
  "seq m k = (\<lambda>s. case m s of (Inl e, s') \<Rightarrow> (Inl e, s') | (Inr a, s') \<Rightarrow> k a s')"

definition catch :: "('s, 'e, 'a) comp \<Rightarrow> ('e \<Rightarrow> ('s, 'e, 'a) comp) \<Rightarrow> ('s, 'e, 'a) comp" where
  "catch m h = (\<lambda>s. case m s of (Inl e, s') \<Rightarrow> h e s' | (Inr a, s') \<Rightarrow> (Inr a, s'))"

text \<open>\<open>try { m } finally { f }\<close>: an exception of \<open>f\<close> replaces the outcome of \<open>m\<close>.\<close>

definition finally_do :: "('s, 'e, 'a) comp \<Rightarrow> ('s, 'e, unit) comp \<Rightarrow> ('s, 'e, 'a) comp" where
  "finally_do m f = (\<lambda>s. case m s of (r, s') \<Rightarrow>
     (case f s' of (Inl e, s'') \<Rightarrow> (Inl e, s'') | (Inr _, s'') \<Rightarrow> (r, s'')))"

definition reads :: "('s \<Rightarrow> 'a) \<Rightarrow> ('s, 'e, 'a) comp" where
  "reads f = (\<lambda>s. (Inr (f s), s))"

definition modify :: "('s \<Rightarrow> 's) \<Rightarrow> ('s, 'e, unit) comp" where
  "modify f = (\<lambda>s. (Inr (), f s))"

definition lift_result :: "('e + 'a) \<Rightarrow> ('s, 'e, 'a) comp" where
  "lift_result r = (\<lambda>s. (r, s))"

text \<open>A \<open>for\<close> loop over an array, its body run in order; the first exception ends it.\<close>

fun for_each :: "'a list \<Rightarrow> ('a \<Rightarrow> ('s, 'e, unit) comp) \<Rightarrow> ('s, 'e, unit) comp" where
  "for_each [] f = ret ()"
| "for_each (x # xs) f = seq (f x) (\<lambda>_. for_each xs f)"

lemma ret_apply [monad_simps]: "ret a s = (Inr a, s)"
  by (simp add: ret_def)

lemma throw_apply [monad_simps]: "throw e s = (Inl e, s)"
  by (simp add: throw_def)

lemma reads_apply [monad_simps]: "reads f s = (Inr (f s), s)"
  by (simp add: reads_def)

lemma modify_apply [monad_simps]: "modify f s = (Inr (), f s)"
  by (simp add: modify_def)

lemma lift_result_apply [monad_simps]: "lift_result r s = (r, s)"
  by (simp add: lift_result_def)

lemma seq_Inr [monad_simps]: "m s = (Inr a, s') \<Longrightarrow> seq m k s = k a s'"
  by (simp add: seq_def)

lemma seq_Inl [monad_simps]: "m s = (Inl e, s') \<Longrightarrow> seq m k s = (Inl e, s')"
  by (simp add: seq_def)

lemma catch_Inr [monad_simps]: "m s = (Inr a, s') \<Longrightarrow> catch m h s = (Inr a, s')"
  by (simp add: catch_def)

lemma catch_Inl [monad_simps]: "m s = (Inl e, s') \<Longrightarrow> catch m h s = h e s'"
  by (simp add: catch_def)

lemma seq_elim [consumes 1, case_names exn val]:
  assumes "seq m k s = (r, s')"
  obtains (exn) e where "m s = (Inl e, s')" "r = Inl e"
    | (val) a t where "m s = (Inr a, t)" "k a t = (r, s')"
  using assms by (auto simp: seq_def split: prod.splits sum.splits)

lemma catch_elim [consumes 1, case_names val exn]:
  assumes "catch m h s = (r, s')"
  obtains (val) a where "m s = (Inr a, s')" "r = Inr a"
    | (exn) e t where "m s = (Inl e, t)" "h e t = (r, s')"
  using assms by (auto simp: catch_def split: prod.splits sum.splits)

lemma finally_elim:
  assumes "finally_do m f s = (r, s')"
  obtains q t p where "m s = (q, t)" "f t = (p, s')"
  using assms by (auto simp: finally_do_def split: prod.splits sum.splits)

section \<open>Two-state relations respected by every effect\<close>

text \<open>
  \<open>resp R m\<close>: whatever \<open>m\<close> does and however it ends, the store before and the store
  after are related by \<open>R\<close>. With \<open>R s t = (I s \<longrightarrow> I t)\<close> this is the preservation
  of an invariant; with other relations it states monotonicity or what is never overwritten.
\<close>

definition resp :: "('s \<Rightarrow> 's \<Rightarrow> bool) \<Rightarrow> ('s, 'e, 'a) comp \<Rightarrow> bool" where
  "resp R m \<longleftrightarrow> (\<forall>s. R s (snd (m s)))"

lemma respD: "resp R m \<Longrightarrow> m s = (r, t) \<Longrightarrow> R s t"
  by (metis resp_def snd_conv)

lemma respI: "(\<And>s r t. m s = (r, t) \<Longrightarrow> R s t) \<Longrightarrow> resp R m"
  by (metis resp_def prod.collapse)

text \<open>
  The contract under which programs are checked against such a relation: it is reflexive and
  transitive. The rules of the locale follow the structure of a program, so a component proof
  is one application of them down to its atomic operations.
\<close>

locale effect_order =
  fixes R :: "'s \<Rightarrow> 's \<Rightarrow> bool"
  assumes R_refl: "R s s"
    and R_trans: "R s t \<Longrightarrow> R t u \<Longrightarrow> R s u"
begin

lemma resp_ret: "resp R (ret a)"
  by (simp add: resp_def ret_def R_refl)

lemma resp_throw: "resp R (throw e)"
  by (simp add: resp_def throw_def R_refl)

lemma resp_reads: "resp R (reads f)"
  by (simp add: resp_def reads_def R_refl)

lemma resp_lift: "resp R (lift_result r)"
  by (simp add: resp_def lift_result_def R_refl)

lemma resp_seq: "resp R m \<Longrightarrow> (\<And>a. resp R (k a)) \<Longrightarrow> resp R (seq m k)"
  by (rule respI, erule seq_elim) (blast dest: respD intro: R_trans)+

lemma resp_catch: "resp R m \<Longrightarrow> (\<And>e. resp R (h e)) \<Longrightarrow> resp R (catch m h)"
  by (rule respI, erule catch_elim) (blast dest: respD intro: R_trans)+

lemma resp_finally: "resp R m \<Longrightarrow> resp R f \<Longrightarrow> resp R (finally_do m f)"
  by (rule respI, erule finally_elim) (blast dest: respD intro: R_trans)

lemma resp_if: "(b \<Longrightarrow> resp R m) \<Longrightarrow> (\<not> b \<Longrightarrow> resp R n) \<Longrightarrow> resp R (if b then m else n)"
  by simp

lemma resp_option:
  "(x = None \<Longrightarrow> resp R m) \<Longrightarrow> (\<And>y. x = Some y \<Longrightarrow> resp R (k y)) \<Longrightarrow>
   resp R (case x of None \<Rightarrow> m | Some y \<Rightarrow> k y)"
  by (cases x) auto

lemma resp_sum:
  "(\<And>y. x = Inl y \<Longrightarrow> resp R (f y)) \<Longrightarrow> (\<And>y. x = Inr y \<Longrightarrow> resp R (g y)) \<Longrightarrow>
   resp R (case x of Inl y \<Rightarrow> f y | Inr y \<Rightarrow> g y)"
  by (cases x) auto

lemma resp_prod: "(\<And>y z. x = (y, z) \<Longrightarrow> resp R (f y z)) \<Longrightarrow> resp R (case x of (y, z) \<Rightarrow> f y z)"
  by (cases x) auto

lemma resp_let: "resp R (f x) \<Longrightarrow> resp R (let y = x in f y)"
  by simp

lemma resp_for_each: "(\<And>x. x \<in> set xs \<Longrightarrow> resp R (f x)) \<Longrightarrow> resp R (for_each xs f)"
  by (induction xs) (auto intro: resp_ret resp_seq)

lemmas resp_rules = resp_ret resp_throw resp_reads resp_lift resp_if resp_option resp_sum
  resp_prod resp_let

end

section \<open>What a computation can return\<close>

text \<open>\<open>returns P m\<close>: a value \<open>m\<close> returns without an exception satisfies \<open>P\<close>.\<close>

definition returns :: "('a \<Rightarrow> bool) \<Rightarrow> ('s, 'e, 'a) comp \<Rightarrow> bool" where
  "returns P m \<longleftrightarrow> (\<forall>s a t. m s = (Inr a, t) \<longrightarrow> P a)"

named_theorems returns_intros \<open>rules that follow the structure of a program\<close>

lemma returnsD: "returns P m \<Longrightarrow> m s = (Inr a, t) \<Longrightarrow> P a"
  by (auto simp: returns_def)

lemma returns_ret [returns_intros]: "P a \<Longrightarrow> returns P (ret a)"
  by (simp add: returns_def ret_def)

lemma returns_throw [returns_intros]: "returns P (throw e)"
  by (simp add: returns_def throw_def)

lemma returns_lift: "(\<And>a. r = Inr a \<Longrightarrow> P a) \<Longrightarrow> returns P (lift_result r)"
  by (simp add: returns_def lift_result_def)

lemma returns_seq_with:
  "returns Q m \<Longrightarrow> (\<And>a. Q a \<Longrightarrow> returns P (k a)) \<Longrightarrow> returns P (seq m k)"
  unfolding returns_def by (metis seq_elim Inl_Inr_False)

lemma returns_seq [returns_intros]: "(\<And>a. returns P (k a)) \<Longrightarrow> returns P (seq m k)"
  by (rule returns_seq_with [where Q = "\<lambda>_. True"]) (auto simp: returns_def)

lemma returns_if [returns_intros]:
  "(b \<Longrightarrow> returns P m) \<Longrightarrow> (\<not> b \<Longrightarrow> returns P n) \<Longrightarrow> returns P (if b then m else n)"
  by simp

lemma returns_let [returns_intros]: "(\<And>y. y = x \<Longrightarrow> returns P (f y)) \<Longrightarrow> returns P (let y = x in f y)"
  by simp

lemma returns_option [returns_intros]:
  "(x = None \<Longrightarrow> returns P m) \<Longrightarrow> (\<And>y. x = Some y \<Longrightarrow> returns P (k y)) \<Longrightarrow>
   returns P (case x of None \<Rightarrow> m | Some y \<Rightarrow> k y)"
  by (cases x) auto

lemma returns_prod [returns_intros]:
  "(\<And>y z. x = (y, z) \<Longrightarrow> returns P (f y z)) \<Longrightarrow> returns P (case x of (y, z) \<Rightarrow> f y z)"
  by (cases x) auto

lemma returns_catch [returns_intros]:
  "returns P m \<Longrightarrow> (\<And>e. returns P (h e)) \<Longrightarrow> returns P (catch m h)"
  unfolding returns_def by (metis catch_elim Inr_inject Inl_Inr_False)

text \<open>A rule for relations that uses what the first part returned.\<close>

context effect_order
begin

lemma resp_seq_with:
  "resp R m \<Longrightarrow> returns Q m \<Longrightarrow> (\<And>a. Q a \<Longrightarrow> resp R (k a)) \<Longrightarrow> resp R (seq m k)"
  by (rule respI, erule seq_elim) (blast dest: respD returnsD intro: R_trans)+

lemma resp_modify: "(\<And>s. R s (f s)) \<Longrightarrow> resp R (modify f)"
  by (simp add: resp_def modify_def)

end

section \<open>A second part of the state\<close>

text \<open>
  An object that several functions share and change (counters, a list of checks) is a second part of
  the state, so it keeps its value when a function throws. \<open>call\<close> runs a computation on the first part,
  \<open>change\<close> updates the second, and \<open>pair_order\<close> relates the first parts.
\<close>

definition call :: "('s, 'e, 'a) comp \<Rightarrow> ('s \<times> 'c, 'e, 'a) comp" where
  "call m = (\<lambda>(w, n). case m w of (r, w') \<Rightarrow> (r, (w', n)))"

definition change :: "('c \<Rightarrow> 'c) \<Rightarrow> ('s \<times> 'c, 'e, unit) comp" where
  "change f = modify (\<lambda>(w, n). (w, f n))"

definition pair_order :: "('s \<Rightarrow> 's \<Rightarrow> bool) \<Rightarrow> 's \<times> 'c \<Rightarrow> 's \<times> 'c \<Rightarrow> bool" where
  "pair_order R p q \<longleftrightarrow> R (fst p) (fst q)"

lemma resp_call: "resp R m \<Longrightarrow> resp (pair_order R) (call m)"
  by (auto simp: resp_def call_def pair_order_def split: prod.split) (metis snd_conv)

lemma returns_call [returns_intros]: "returns P m \<Longrightarrow> returns P (call m)"
  by (auto simp: returns_def call_def split: prod.splits)

context effect_order
begin

lemma pairs: "effect_order (pair_order R)"
  unfolding pair_order_def by unfold_locales (auto intro: R_refl R_trans)

lemma resp_change: "resp (pair_order R) (change f)"
  by (auto simp: resp_def change_def modify_def pair_order_def R_refl)

end

section \<open>JavaScript arrays, maps and strings\<close>

text \<open>
  \<open>Array.prototype.sort\<close> is stable, so it is insertion sort on the comparison "not
  after": an element goes in front of the ones it is not after.
\<close>

fun insert_by :: "('a \<Rightarrow> 'a \<Rightarrow> bool) \<Rightarrow> 'a \<Rightarrow> 'a list \<Rightarrow> 'a list" where
  "insert_by le x [] = [x]"
| "insert_by le x (y # ys) = (if le x y then x # y # ys else y # insert_by le x ys)"

fun sort_by :: "('a \<Rightarrow> 'a \<Rightarrow> bool) \<Rightarrow> 'a list \<Rightarrow> 'a list" where
  "sort_by le [] = []"
| "sort_by le (x # xs) = insert_by le x (sort_by le xs)"

lemma set_insert_by [simp]: "set (insert_by le x ys) = insert x (set ys)"
  by (induction ys) auto

lemma set_sort_by [simp]: "set (sort_by le xs) = set xs"
  by (induction xs) auto

lemma length_insert_by [simp]: "length (insert_by le x ys) = Suc (length ys)"
  by (induction ys) auto

lemma length_sort_by [simp]: "length (sort_by le xs) = length xs"
  by (induction xs) auto

lemma distinct_insert_by [simp]: "distinct (insert_by le x ys) \<longleftrightarrow> x \<notin> set ys \<and> distinct ys"
  by (induction ys) auto

lemma distinct_sort_by [simp]: "distinct (sort_by le xs) \<longleftrightarrow> distinct xs"
  by (induction xs) auto

lemma distinct_map_insert_by [simp]:
  "distinct (map f (insert_by le x ys)) \<longleftrightarrow> f x \<notin> f ` set ys \<and> distinct (map f ys)"
  by (induction ys) auto

lemma distinct_map_sort_by [simp]: "distinct (map f (sort_by le xs)) \<longleftrightarrow> distinct (map f xs)"
  by (induction xs) auto

lemma sorted_insert_by:
  assumes "\<And>a b. le a b \<or> le b a" "\<And>a b c. le a b \<Longrightarrow> le b c \<Longrightarrow> le a c"
    and "sorted_wrt le ys"
  shows "sorted_wrt le (insert_by le x ys)"
  using assms(3)
proof (induction ys)
  case Nil
  then show ?case by simp
next
  case (Cons y ys)
  then show ?case using assms(1,2) by (auto dest: assms(2))
qed

lemma sorted_sort_by:
  assumes "\<And>a b. le a b \<or> le b a" "\<And>a b c. le a b \<Longrightarrow> le b c \<Longrightarrow> le a c"
  shows "sorted_wrt le (sort_by le xs)"
proof (induction xs)
  case Nil
  then show ?case by simp
next
  case (Cons x xs)
  then show ?case using sorted_insert_by [of le] assms by simp
qed

text \<open>
  A JavaScript \<open>Map\<close> (and a plain object used as one) keeps insertion order: \<open>set\<close> on a
  present key keeps its place.
\<close>

type_synonym ('k, 'v) jsmap = "('k \<times> 'v) list"

fun map_set :: "'k \<Rightarrow> 'v \<Rightarrow> ('k, 'v) jsmap \<Rightarrow> ('k, 'v) jsmap" where
  "map_set k v [] = [(k, v)]"
| "map_set k v ((k', v') # m) = (if k = k' then (k, v) # m else (k', v') # map_set k v m)"

definition map_del :: "'k \<Rightarrow> ('k, 'v) jsmap \<Rightarrow> ('k, 'v) jsmap" where
  "map_del k m = filter (\<lambda>p. fst p \<noteq> k) m"

lemma map_of_map_set [simp]: "map_of (map_set k v m) = (map_of m)(k \<mapsto> v)"
  by (induction k v m rule: map_set.induct) auto

lemma map_of_map_del [simp]: "map_of (map_del k m) = (map_of m)(k := None)"
  by (induction m) (auto simp: map_del_def)

lemma keys_map_set: "fst ` set (map_set k v m) = insert k (fst ` set m)"
  by (induction k v m rule: map_set.induct) auto

lemma distinct_map_set [simp]: "distinct (map fst m) \<Longrightarrow> distinct (map fst (map_set k v m))"
  by (induction k v m rule: map_set.induct) (auto simp: keys_map_set)

lemma distinct_map_del [simp]: "distinct (map fst m) \<Longrightarrow> distinct (map fst (map_del k m))"
  by (induction m) (auto simp: map_del_def)

lemma set_map_set: "p \<in> set (map_set k v m) \<Longrightarrow> p = (k, v) \<or> p \<in> set m"
  by (induction k v m rule: map_set.induct) (auto split: if_splits)

lemma set_map_del: "p \<in> set (map_del k m) \<Longrightarrow> p \<in> set m \<and> fst p \<noteq> k"
  by (auto simp: map_del_def)

text \<open>
  Strings are lists of characters; a character stands for one UTF-16 code unit below 256.
\<close>

fun split_on :: "char \<Rightarrow> string \<Rightarrow> string list" where
  "split_on c [] = [[]]"
| "split_on c (x # xs) =
     (if x = c then [] # split_on c xs
      else (case split_on c xs of [] \<Rightarrow> [[x]] | w # ws \<Rightarrow> (x # w) # ws))"

fun join_with :: "string \<Rightarrow> string list \<Rightarrow> string" where
  "join_with sep [] = []"
| "join_with sep [w] = w"
| "join_with sep (w # v # ws) = w @ sep @ join_with sep (v # ws)"

definition starts_with :: "string \<Rightarrow> string \<Rightarrow> bool" where
  "starts_with p s \<longleftrightarrow> take (length p) s = p"

definition ends_with :: "string \<Rightarrow> string \<Rightarrow> bool" where
  "ends_with p s \<longleftrightarrow> length p \<le> length s \<and> drop (length s - length p) s = p"

fun has_substring :: "string \<Rightarrow> string \<Rightarrow> bool" where
  "has_substring p [] = (p = [])"
| "has_substring p (x # xs) = (starts_with p (x # xs) \<or> has_substring p xs)"

definition replace_char :: "char \<Rightarrow> char \<Rightarrow> string \<Rightarrow> string" where
  "replace_char a b = map (\<lambda>c. if c = a then b else c)"

text \<open>Code points of \<open>\s\<close> and of \<open>trim\<close> below 256: tab to carriage return, space, no-break space.\<close>

definition is_space :: "char \<Rightarrow> bool" where
  "is_space c \<longleftrightarrow> (let n = of_char c :: nat in (9 \<le> n \<and> n \<le> 13) \<or> n = 32 \<or> n = 160)"

definition trim :: "string \<Rightarrow> string" where
  "trim s = rev (dropWhile is_space (rev (dropWhile is_space s)))"

definition is_digit :: "char \<Rightarrow> bool" where
  "is_digit c \<longleftrightarrow> (let n = of_char c :: nat in 48 \<le> n \<and> n \<le> 57)"

definition is_alpha :: "char \<Rightarrow> bool" where
  "is_alpha c \<longleftrightarrow> (let n = of_char c :: nat in (65 \<le> n \<and> n \<le> 90) \<or> (97 \<le> n \<and> n \<le> 122))"

text \<open>A number in a template literal, for the non-negative integers the code prints.\<close>

fun show_nat :: "nat \<Rightarrow> string" where
  "show_nat n = (if n < 10 then [char_of (48 + n)]
     else show_nat (n div 10) @ [char_of (48 + n mod 10)])"

declare show_nat.simps [simp del]

abbreviation nul :: char where
  "nul \<equiv> char_of (0 :: nat)"

abbreviation backslash :: char where
  "backslash \<equiv> char_of (92 :: nat)"

abbreviation newline :: char where
  "newline \<equiv> char_of (10 :: nat)"

lemma split_on_not_Nil [simp]: "split_on c s \<noteq> []"
  by (induction s) (auto split: list.splits)

lemma split_on_sep: "w \<in> set (split_on c s) \<Longrightarrow> c \<notin> set w"
  by (induction s arbitrary: w) (auto split: list.splits if_splits)

lemma join_with_Cons: "ws \<noteq> [] \<Longrightarrow> join_with sep (w # ws) = w @ sep @ join_with sep ws"
  by (cases ws) auto

lemma join_split [simp]: "join_with [c] (split_on c s) = s"
proof (induction s)
  case Nil
  then show ?case by simp
next
  case (Cons x s)
  then show ?case
    by (cases "split_on c s"; cases "tl (split_on c s)") (auto simp: join_with_Cons)
qed

lemma split_join:
  "ws \<noteq> [] \<Longrightarrow> (\<And>w. w \<in> set ws \<Longrightarrow> c \<notin> set w) \<Longrightarrow> split_on c (join_with [c] ws) = ws"
proof (induction "[c]" ws rule: join_with.induct)
  case 1
  then show ?case by simp
next
  case (2 w)
  then have "c \<notin> set w" by simp
  then show ?case by (induction w) auto
next
  case (3 w v ws)
  then have IH: "split_on c (join_with [c] (v # ws)) = v # ws" and "c \<notin> set w" by auto
  from \<open>c \<notin> set w\<close> have "split_on c (w @ c # join_with [c] (v # ws)) = w # v # ws"
    by (induction w) (auto simp: IH)
  then show ?case by simp
qed

lemma set_replace_char: "c \<in> set (replace_char a b s) \<Longrightarrow> c = b \<or> (c \<in> set s \<and> c \<noteq> a)"
  by (auto simp: replace_char_def split: if_splits)

lemma replace_char_id [simp]: "a \<notin> set s \<Longrightarrow> replace_char a b s = s"
  by (induction s) (auto simp: replace_char_def)

lemma starts_with_Nil [simp]: "starts_with [] s"
  by (simp add: starts_with_def)

lemma starts_with_append [simp]: "starts_with p (p @ s)"
  by (simp add: starts_with_def)

lemma starts_with_Cons [simp]:
  "starts_with (c # p) s \<longleftrightarrow> (\<exists>t. s = c # t \<and> starts_with p t)"
  by (cases s) (auto simp: starts_with_def)

text \<open>\<open>Number.isSafeInteger\<close> of an integral number.\<close>

definition MAX_SAFE_INTEGER :: int where
  "MAX_SAFE_INTEGER = 2 ^ 53 - 1"

definition isSafeInteger :: "int \<Rightarrow> bool" where
  "isSafeInteger i \<longleftrightarrow> \<bar>i\<bar> \<le> MAX_SAFE_INTEGER"

end
