(* ===== verification/AgentTypes.thy ===== *)
theory AgentTypes
  imports Prelude
begin

text \<open>
  The shared data model of the agent runtime (\<open>agent/types.ts\<close>), the run state machine
  (\<open>agent/stateMachine.ts\<close>) and the shape of a thrown error. Object ids are their hex
  strings, dates are milliseconds.
\<close>

section \<open>Data of agent/types.ts\<close>

type_synonym object_id = string
type_synonym time = int

datatype agent_run_status = WaitingForCapacity | Queued | Running | Planning | Generating
  | Validating | Repairing | Persisting | Completed | CompletedWithConflict | Failed | Cancelled

datatype agent_run_mode = CreateMode | EditMode

datatype agent_event_type = RunCreated | RunStarted | AgentStep | AgentPlanEvent | FileChanged
  | ValidationStarted | ValidationStep | ValidationFailed | ValidationPassed | RepairStarted
  | RunCompleted | RunFailed | RunCancelled

datatype job_kind = Generate | RetryValidation

record agent_run_job =
  job_runId :: object_id
  job_kind_of :: "job_kind option"
  job_candidateId :: "object_id option"

datatype project_file_language = LTs | LTsx | LJs | LCss | LJson | LHtml | LMd

record project_file =
  path :: string
  content :: string
  language :: project_file_language
  generatedByRunId :: "object_id option"

type_synonym dep_map = "(string, string) jsmap"

record package_json =
  dependencies :: dep_map
  devDependencies :: dep_map
  scripts :: dep_map

datatype validation_phase = PhStructure | PhDependencies | PhTypeCheck | PhBuild

datatype error_category = CODE_ERROR | DEPENDENCY_ERROR | INFRA_ERROR | STYLING_CONFIGURATION_ERROR

datatype check_name = NStructure | NInstall | NTypeCheck | NBuild

datatype check_status = CsPassed | CsFailed | CsRetrying | CsSkipped

datatype cache_state = CacheHit | CacheMiss | CacheNotApplicable

datatype styling_capability = PlainCss | Tailwind | CssModules | StyledComponents

datatype styling_code = MISSING_DEPENDENCY | MISSING_CONFIGURATION | MISSING_ENTRY_IMPORT
  | UNEXPANDED_DIRECTIVE | MISSING_BUILD_OUTPUT | METADATA_CONFLICT

datatype styling_phase = SourceContract | BuildEvidence

record styling_issue =
  si_capability :: styling_capability
  si_code :: styling_code
  si_phase :: styling_phase
  si_message :: string
  si_file :: "string option"
  si_previewRecoverable :: bool

record check_result =
  ck_name :: check_name
  ck_phase :: "validation_phase option"
  ck_status :: "check_status option"
  ck_category :: "error_category option"
  ck_command :: "string option"
  ck_exitCode :: "int option"
  ck_stdout :: string
  ck_stderr :: string
  ck_durationMs :: int
  ck_cache :: "cache_state option"
  ck_attempt :: "nat option"
  ck_stylingIssues :: "styling_issue list option"

datatype validation_status = VPassed | VFailed | VSkipped

datatype verification = Verified | Simulated

record validation_result =
  v_status :: validation_status
  v_verification :: "verification option"
  v_previewArtifactId :: "string option"
  v_checks :: "check_result list"
  v_category :: "error_category option"
  v_retryable :: "bool option"

datatype file_operation = CreateFile string string | UpdateFile string string | DeleteFile string

fun op_path :: "file_operation \<Rightarrow> string" where
  "op_path (CreateFile p c) = p"
| "op_path (UpdateFile p c) = p"
| "op_path (DeleteFile p) = p"

record generation_result =
  g_message :: string
  g_operations :: "file_operation list"
  g_dependencies :: dep_map
  g_devDependencies :: dep_map

record plan_step =
  ps_title :: string
  ps_intent :: string
  ps_filesLikelyTouched :: "string list"

record agent_plan =
  plan_summary :: string
  plan_steps :: "plan_step list"
  plan_assumptions :: "string list"

datatype message_role = RoleUser | RoleAssistant | RoleSystem

record context_message =
  cm_role :: message_role
  cm_content :: string

record context_file =
  cf_path :: string
  cf_content :: "string option"

record agent_attachment =
  at_id :: string
  at_name :: string
  at_mediaType :: string
  at_size :: nat
  at_content :: string

record context_project =
  cp_name :: string
  cp_description :: "string option"
  cp_uiLibrary :: string

record agent_context =
  cx_prompt :: string
  cx_mode :: agent_run_mode
  cx_project :: context_project
  cx_messages :: "context_message list"
  cx_attachments :: "agent_attachment list option"
  cx_files :: "context_file list"

record model_usage =
  inputTokens :: "nat option"
  outputTokens :: "nat option"
  totalTokens :: "nat option"

record 'v model_result =
  mr_value :: 'v
  mr_usage :: "model_usage option"

record repair_input =
  ri_context :: agent_context
  ri_plan :: agent_plan
  ri_attempt :: nat
  ri_files :: "project_file list"
  ri_validation :: validation_result

text \<open>
  A thrown value: an \<open>Error\<close> with the properties the code attaches by
  \<open>Object.assign\<close>; \<open>err_number\<close> is a numeric \<open>code\<close> as the database driver
  sets it. \<open>artifact_error\<close> holds for instances of \<open>ArtifactError\<close>,
  whose \<open>retryable\<close> flag is the next field; \<open>candidate\<close> is what an infrastructure
  failure carries for a later retry; \<open>err_cause\<close> is the \<open>code\<close> of the \<open>cause\<close>;
  \<open>err_sandbox\<close> holds for instances of \<open>SandboxError\<close>, \<open>err_notCreated\<close> for a
  \<open>SandboxCreateError\<close> whose outcome is \<open>not-created\<close>.
\<close>

record js_error =
  err_code :: "string option"
  err_message :: string
  err_details :: "validation_result option"
  err_candidate :: "(project_file list \<times> package_json \<times> string) option"
  err_artifact :: bool
  err_retryable :: bool
  err_number :: "nat option"
  err_cause :: "string option"
  err_sandbox :: bool
  err_notCreated :: bool

definition plain_error :: "string \<Rightarrow> js_error" where
  "plain_error msg = \<lparr>err_code = None, err_message = msg, err_details = None,
     err_candidate = None, err_artifact = False, err_retryable = False, err_number = None,
     err_cause = None, err_sandbox = False, err_notCreated = False\<rparr>"

definition coded_error :: "string \<Rightarrow> string \<Rightarrow> js_error" where
  "coded_error code msg = (plain_error msg)\<lparr>err_code := Some code\<rparr>"

definition artifact_error :: "string \<Rightarrow> string \<Rightarrow> js_error" where
  "artifact_error code msg = (coded_error code msg)\<lparr>err_artifact := True\<rparr>"

text \<open>
  The client interface of the language model. It is a service outside the repository, so it is
  an argument of everything that calls it: each method answers or rejects.
  \<open>repairDependencies\<close> is optional in the interface.
\<close>

record model_client =
  generatePlan :: "agent_context \<Rightarrow> js_error + agent_plan model_result"
  generateFiles :: "agent_context \<Rightarrow> agent_plan \<Rightarrow> js_error + generation_result model_result"
  repairFiles :: "repair_input \<Rightarrow> js_error + generation_result model_result"
  repairDependencies :: "(repair_input \<Rightarrow> js_error + generation_result model_result) option"

section \<open>The run state machine (agent/stateMachine.ts)\<close>

fun allowedTransitions :: "agent_run_status \<Rightarrow> agent_run_status list" where
  "allowedTransitions WaitingForCapacity = [Queued, Cancelled]"
| "allowedTransitions Queued = [WaitingForCapacity, Running, Cancelled]"
| "allowedTransitions Running = [Planning, Validating, Cancelled, Failed]"
| "allowedTransitions Planning = [Generating, Cancelled, Failed]"
| "allowedTransitions Generating = [Validating, Cancelled, Failed]"
| "allowedTransitions Validating = [Repairing, Persisting, Failed, Cancelled]"
| "allowedTransitions Repairing = [Generating, Failed, Cancelled]"
| "allowedTransitions Persisting = [Completed, CompletedWithConflict, Failed]"
| "allowedTransitions Completed = []"
| "allowedTransitions CompletedWithConflict = []"
| "allowedTransitions Failed = []"
| "allowedTransitions Cancelled = []"

definition terminalAgentRunStatuses :: "agent_run_status list" where
  "terminalAgentRunStatuses = [Completed, CompletedWithConflict, Failed, Cancelled]"

definition isTerminalAgentRunStatus :: "agent_run_status \<Rightarrow> bool" where
  "isTerminalAgentRunStatus s = (s \<in> set terminalAgentRunStatuses)"

definition canTransitionAgentRun :: "agent_run_status \<Rightarrow> agent_run_status \<Rightarrow> bool" where
  "canTransitionAgentRun f t = (t \<in> set (allowedTransitions f))"

fun status_text :: "agent_run_status \<Rightarrow> string" where
  "status_text WaitingForCapacity = ''waiting_for_capacity''"
| "status_text Queued = ''queued''"
| "status_text Running = ''running''"
| "status_text Planning = ''planning''"
| "status_text Generating = ''generating''"
| "status_text Validating = ''validating''"
| "status_text Repairing = ''repairing''"
| "status_text Persisting = ''persisting''"
| "status_text Completed = ''completed''"
| "status_text CompletedWithConflict = ''completed_with_conflict''"
| "status_text Failed = ''failed''"
| "status_text Cancelled = ''cancelled''"

definition assertAgentRunTransition ::
    "agent_run_status \<Rightarrow> agent_run_status \<Rightarrow> js_error + unit" where
  "assertAgentRunTransition f t =
     (if \<not> canTransitionAgentRun f t
      then Inl (plain_error (''Invalid AgentRun status transition: '' @ status_text f @ '' -> '' @ status_text t))
      else Inr ())"

lemma terminal_iff: "isTerminalAgentRunStatus s \<longleftrightarrow>
    s = Completed \<or> s = CompletedWithConflict \<or> s = Failed \<or> s = Cancelled"
  by (auto simp: isTerminalAgentRunStatus_def terminalAgentRunStatuses_def)

lemma terminal_no_exit: "isTerminalAgentRunStatus s \<longleftrightarrow> allowedTransitions s = []"
  by (cases s) (simp_all add: terminal_iff)

text \<open>One edge of the machine, and the states a run can be in after any number of edges.\<close>

inductive status_step :: "agent_run_status \<Rightarrow> agent_run_status \<Rightarrow> bool" where
  edge: "canTransitionAgentRun f t \<Longrightarrow> status_step f t"

inductive_simps status_step_iff: "status_step f t"

inductive_cases status_step_from_persisting: "status_step Persisting t"

code_pred status_step .

inductive status_reach :: "agent_run_status \<Rightarrow> agent_run_status \<Rightarrow> bool" where
  here: "status_reach s s"
| further: "status_step s t \<Longrightarrow> status_reach t u \<Longrightarrow> status_reach s u"

lemma terminal_stuck: "isTerminalAgentRunStatus s \<Longrightarrow> \<not> status_step s t"
  by (simp add: terminal_no_exit status_step_iff canTransitionAgentRun_def)

lemma terminal_reach: "status_reach s t \<Longrightarrow> isTerminalAgentRunStatus s \<Longrightarrow> t = s"
  by (induction rule: status_reach.induct) (auto simp: terminal_stuck)

text \<open>
  A run that got past \<open>Persisting\<close> can only have come through \<open>Validating\<close>: the
  states from which completion is reachable without a validation phase are \<open>Validating\<close>
  itself, \<open>Persisting\<close> and the completed ones.
\<close>

fun before_validation :: "agent_run_status \<Rightarrow> bool" where
  "before_validation WaitingForCapacity = True"
| "before_validation Queued = True"
| "before_validation Running = True"
| "before_validation Planning = True"
| "before_validation Generating = True"
| "before_validation Repairing = True"
| "before_validation _ = False"

lemma before_validation_step:
  "before_validation s \<Longrightarrow> status_step s t \<Longrightarrow>
     before_validation t \<or> t = Validating \<or> t = Failed \<or> t = Cancelled"
  by (cases s) (auto simp: status_step_iff canTransitionAgentRun_def)

text \<open>The statuses a path goes through, its start included.\<close>

fun status_path :: "agent_run_status \<Rightarrow> agent_run_status list \<Rightarrow> bool" where
  "status_path s [] = True"
| "status_path s (t # ts) = (status_step s t \<and> status_path t ts)"

lemma path_through_validating:
  assumes "status_path s ts" "before_validation s" "t \<in> set ts"
    and "t = Completed \<or> t = CompletedWithConflict \<or> t = Persisting"
  shows "Validating \<in> set ts"
  using assms
proof (induction ts arbitrary: s)
  case Nil
  then show ?case by simp
next
  case (Cons u us)
  then have "before_validation u \<or> u = Validating \<or> u = Failed \<or> u = Cancelled"
    by (auto dest: before_validation_step)
  moreover have "us = []" if "u = Failed \<or> u = Cancelled"
    using Cons.prems(1) that by (cases us) (auto simp: terminal_stuck terminal_iff)
  ultimately show ?case using Cons by auto
qed

end
