(* ===== verification/FileOps.thy ===== *)
theory FileOps
  imports AgentTypes
begin

text \<open>
  Project files: \<open>agent/fileOperations.ts\<close>. The functions of node's
  \<open>path.posix\<close> and \<open>path.win32\<close> that the code calls are written out; the collation
  order of \<open>localeCompare\<close> is a parameter \<open>collate\<close> (left not after right).
\<close>

section \<open>node's path functions\<close>

fun norm_segs :: "bool \<Rightarrow> string list \<Rightarrow> string list \<Rightarrow> string list" where
  "norm_segs allowUp acc [] = rev acc"
| "norm_segs allowUp acc (w # ws) =
     (if w = [] \<or> w = ''.'' then norm_segs allowUp acc ws
      else if w = ''..'' then
        (case acc of
           [] \<Rightarrow> norm_segs allowUp (if allowUp then [''..''] else []) ws
         | v # vs \<Rightarrow>
             if v = ''..'' then norm_segs allowUp (if allowUp then ''..'' # acc else acc) ws
             else norm_segs allowUp vs ws)
      else norm_segs allowUp (w # acc) ws)"

definition posix_isAbsolute :: "string \<Rightarrow> bool" where
  "posix_isAbsolute p = starts_with ''/'' p"

definition posix_normalize :: "string \<Rightarrow> string" where
  "posix_normalize p =
     (if p = [] then ''.''
      else let absolute = posix_isAbsolute p;
               trailing = ends_with ''/'' p;
               body = join_with ''/'' (norm_segs (\<not> absolute) [] (split_on CHR ''/'' p))
           in if body = [] then (if absolute then ''/'' else if trailing then ''./'' else ''.'')
              else let body' = (if trailing then body @ ''/'' else body)
                   in if absolute then CHR ''/'' # body' else body')"

definition win32_isAbsolute :: "string \<Rightarrow> bool" where
  "win32_isAbsolute p =
     (case p of
        [] \<Rightarrow> False
      | c # cs \<Rightarrow> c = CHR ''/'' \<or> c = backslash \<or>
          (is_alpha c \<and> (case cs of
              d # e # _ \<Rightarrow> d = CHR '':'' \<and> (e = CHR ''/'' \<or> e = backslash)
            | _ \<Rightarrow> False)))"

definition posix_basename :: "string \<Rightarrow> string" where
  "posix_basename p = last (split_on CHR ''/'' (rev (dropWhile (\<lambda>c. c = CHR ''/'') (rev p))))"

definition posix_extname :: "string \<Rightarrow> string" where
  "posix_extname p =
     (let base = posix_basename p; tail = takeWhile (\<lambda>c. c \<noteq> CHR ''.'') (rev base)
      in if length tail = length base \<or> Suc (length tail) = length base \<or> base = ''..''
         then [] else CHR ''.'' # rev tail)"

section \<open>agent/fileOperations.ts\<close>

definition supportedExtensions :: "(string, project_file_language) jsmap" where
  "supportedExtensions = [(''.ts'', LTs), (''.tsx'', LTsx), (''.js'', LJs), (''.cjs'', LJs),
     (''.mjs'', LJs), (''.css'', LCss), (''.json'', LJson), (''.html'', LHtml), (''.md'', LMd)]"

definition requiredTemplateFiles :: "string list" where
  "requiredTemplateFiles = [''package.json'', ''index.html'', ''postcss.config.cjs'',
     ''tailwind.config.js'', ''src/main.tsx'']"

definition inferProjectFileLanguage :: "string \<Rightarrow> js_error + project_file_language" where
  "inferProjectFileLanguage p =
     (case map_of supportedExtensions (posix_extname p) of
        None \<Rightarrow> Inl (plain_error (''Unsupported file extension: '' @ p))
      | Some l \<Rightarrow> Inr l)"

definition normalizeProjectPath :: "string \<Rightarrow> js_error + string" where
  "normalizeProjectPath raw =
     (if posix_isAbsolute raw \<or> win32_isAbsolute raw
      then Inl (plain_error (''Project file path must be a relative path: '' @ raw))
      else let normalized = posix_normalize (replace_char backslash CHR ''/'' raw)
           in if normalized = ''.'' \<or> starts_with ''../'' normalized \<or> normalized = ''..''
              then Inl (plain_error (''Project file path cannot escape the project root: '' @ raw))
              else Inr normalized)"

definition assertTextContent :: "string \<Rightarrow> string \<Rightarrow> js_error + unit" where
  "assertTextContent p c =
     (if nul \<in> set c then Inl (plain_error (''Project file content cannot be binary: '' @ p))
      else Inr ())"

type_synonym file_table = "(string, project_file) jsmap"

fun load_base :: "project_file list \<Rightarrow> file_table \<Rightarrow> js_error + file_table" where
  "load_base [] m = Inr m"
| "load_base (f # fs) m =
     (case normalizeProjectPath (path f) of
        Inl e \<Rightarrow> Inl e
      | Inr p \<Rightarrow>
          (case inferProjectFileLanguage p of
             Inl e \<Rightarrow> Inl e
           | Inr l \<Rightarrow> load_base fs (map_set p (f\<lparr>path := p, language := l\<rparr>) m)))"

definition write_op :: "object_id option \<Rightarrow> string \<Rightarrow> project_file_language \<Rightarrow> string \<Rightarrow>
    file_table \<Rightarrow> js_error + file_table" where
  "write_op runId p l c m =
     (case assertTextContent p c of
        Inl e \<Rightarrow> Inl e
      | Inr _ \<Rightarrow> Inr (map_set p \<lparr>path = p, content = c, language = l, generatedByRunId = runId\<rparr> m))"

definition apply_op :: "object_id option \<Rightarrow> file_operation \<Rightarrow> file_table \<Rightarrow> js_error + file_table" where
  "apply_op runId op m =
     (case normalizeProjectPath (op_path op) of
        Inl e \<Rightarrow> Inl e
      | Inr p \<Rightarrow>
          (case inferProjectFileLanguage p of
             Inl e \<Rightarrow> Inl e
           | Inr l \<Rightarrow>
               (case op of
                  DeleteFile _ \<Rightarrow>
                    if p \<in> set requiredTemplateFiles
                    then Inl (plain_error (''Cannot delete required file: '' @ p))
                    else Inr (map_del p m)
                | CreateFile _ c \<Rightarrow> write_op runId p l c m
                | UpdateFile _ c \<Rightarrow> write_op runId p l c m)))"

fun apply_ops :: "object_id option \<Rightarrow> file_operation list \<Rightarrow> file_table \<Rightarrow> js_error + file_table" where
  "apply_ops runId [] m = Inr m"
| "apply_ops runId (op # ops) m =
     (case apply_op runId op m of Inl e \<Rightarrow> Inl e | Inr m' \<Rightarrow> apply_ops runId ops m')"

definition applyFileOperations :: "(string \<Rightarrow> string \<Rightarrow> bool) \<Rightarrow> project_file list \<Rightarrow>
    file_operation list \<Rightarrow> object_id option \<Rightarrow> js_error + project_file list" where
  "applyFileOperations collate baseFiles operations runId =
     (case load_base baseFiles [] of
        Inl e \<Rightarrow> Inl e
      | Inr m \<Rightarrow>
          (case apply_ops runId operations m of
             Inl e \<Rightarrow> Inl e
           | Inr m' \<Rightarrow> Inr (sort_by (\<lambda>a b. collate (path a) (path b)) (map snd m'))))"

section \<open>Lemmas\<close>

fun dotdot_prefix :: "string list \<Rightarrow> nat" where
  "dotdot_prefix [] = 0"
| "dotdot_prefix (w # ws) = (if w = ''..'' then Suc (dotdot_prefix ws) else 0)"

text \<open>\<open>..\<close> survives normalisation only at the front.\<close>

definition clean :: "string list \<Rightarrow> bool" where
  "clean ws \<longleftrightarrow> (\<exists>k vs. ws = replicate k ''..'' @ vs \<and> ''..'' \<notin> set vs)"

lemma clean_simps [simp]: "clean []" "w \<noteq> ''..'' \<Longrightarrow> clean ws \<Longrightarrow> clean (ws @ [w])"
proof -
  show "clean []" by (auto simp: clean_def intro: exI [of _ 0])
  assume "w \<noteq> ''..''" "clean ws"
  then obtain k vs where "ws = replicate k ''..'' @ vs" "''..'' \<notin> set vs" by (auto simp: clean_def)
  with \<open>w \<noteq> ''..''\<close> have "ws @ [w] = replicate k ''..'' @ (vs @ [w]) \<and> ''..'' \<notin> set (vs @ [w])"
    by simp
  then show "clean (ws @ [w])" unfolding clean_def by blast
qed

lemma clean_butlast: "clean (ws @ [w]) \<Longrightarrow> clean ws"
proof -
  assume "clean (ws @ [w])"
  then obtain k vs where eq: "ws @ [w] = replicate k ''..'' @ vs" and vs: "''..'' \<notin> set vs"
    by (auto simp: clean_def)
  show "clean ws"
  proof (cases vs rule: rev_cases)
    case Nil
    with eq have "ws @ [w] = replicate k ''..''" by simp
    then have "ws = butlast (replicate k ''..'')" by (metis butlast_snoc)
    then have "ws = replicate (k - 1) ''..'' @ []"
      by (cases k) (simp_all flip: replicate_append_same)
    then show ?thesis unfolding clean_def by (metis empty_iff list.set(1))
  next
    case (snoc us u)
    with eq have "ws = replicate k ''..'' @ us" by simp
    with vs snoc show ?thesis unfolding clean_def by auto
  qed
qed

lemma clean_dotdot: "clean ws \<Longrightarrow> ws = [] \<or> last ws = ''..'' \<Longrightarrow> clean (ws @ [''..''])"
proof -
  assume c: "clean ws" and l: "ws = [] \<or> last ws = ''..''"
  then obtain k vs where eq: "ws = replicate k ''..'' @ vs" and vs: "''..'' \<notin> set vs"
    by (auto simp: clean_def)
  have "vs = []"
  proof (rule ccontr)
    assume "vs \<noteq> []"
    then have "last ws = last vs" "last vs \<in> set vs" "ws \<noteq> []" using eq by auto
    with l vs show False by auto
  qed
  with eq have "ws @ [''..''] = replicate (Suc k) ''..'' @ []"
    by (simp add: replicate_append_same)
  then show ?thesis unfolding clean_def by (metis empty_iff list.set(1))
qed

lemma clean_single [simp]: "clean [w]"
  using clean_simps(2) [of w "[]"] clean_dotdot [of "[]"] by (cases "w = ''..''") auto

lemma norm_segs_clean: "clean (rev acc) \<Longrightarrow> clean (norm_segs allowUp acc ws)"
proof (induction allowUp acc ws rule: norm_segs.induct)
  case (1 allowUp acc)
  then show ?case by simp
next
  case (2 allowUp acc w ws)
  consider "w = [] \<or> w = ''.''" | "w = ''..''" | "w \<noteq> []" "w \<noteq> ''.''" "w \<noteq> ''..''" by blast
  then show ?case
  proof cases
    case 1
    with 2 show ?thesis by simp
  next
    case w: 2
    show ?thesis
    proof (cases acc)
      case Nil
      with 2 w show ?thesis by (cases allowUp) simp_all
    next
      case (Cons v vs)
      have "clean (rev vs)" using "2.prems" Cons by (auto intro: clean_butlast)
      moreover have "clean (rev (''..'' # acc))" if "v = ''..''"
        using clean_dotdot [of "rev acc"] "2.prems" Cons that by simp
      ultimately show ?thesis using 2 w Cons by (cases allowUp; cases "v = ''..''") simp_all
    qed
  next
    case 3
    with 2 show ?thesis by simp
  qed
qed

lemma norm_segs_elem:
  "w \<in> set (norm_segs allowUp acc ws) \<Longrightarrow>
     w \<in> set acc \<or> (w \<noteq> [] \<and> w \<noteq> ''.'' \<and> (w \<in> set ws \<or> w = ''..''))"
proof (induction allowUp acc ws rule: norm_segs.induct)
  case (1 allowUp acc)
  then show ?case by simp
next
  case (2 allowUp acc v ws)
  consider "v = [] \<or> v = ''.''" | "v = ''..''" | "v \<noteq> []" "v \<noteq> ''.''" "v \<noteq> ''..''" by blast
  then show ?case
  proof cases
    case 1
    with 2 show ?thesis by auto
  next
    case v: 2
    show ?thesis
    proof (cases acc)
      case Nil
      with 2 v show ?thesis by (cases allowUp) auto
    next
      case (Cons u us)
      with 2 v show ?thesis by (cases allowUp; cases "u = ''..''") auto
    qed
  next
    case 3
    with 2 show ?thesis by auto
  qed
qed

lemma norm_segs_id:
  "(\<And>w. w \<in> set ws \<Longrightarrow> w \<noteq> [] \<and> w \<noteq> ''.'' \<and> w \<noteq> ''..'') \<Longrightarrow>
     norm_segs allowUp acc (ws @ zs) = norm_segs allowUp (rev ws @ acc) zs"
  by (induction ws arbitrary: acc) auto

text \<open>
  The shape of an accepted path: \<open>/\<close>-separated segments, none empty (one trailing
  \<open>/\<close> apart), none \<open>.\<close> or \<open>..\<close>, and no backslash.
\<close>

definition safe_project_path :: "string \<Rightarrow> bool" where
  "safe_project_path q \<longleftrightarrow>
     (let ws = split_on CHR ''/'' q;
          segs = (if last ws = [] then butlast ws else ws)
      in segs \<noteq> [] \<and> backslash \<notin> set q \<and>
         list_all (\<lambda>w. w \<noteq> [] \<and> w \<noteq> ''.'' \<and> w \<noteq> ''..'') segs)"

definition good_seg :: "string \<Rightarrow> bool" where
  "good_seg w \<longleftrightarrow> w \<noteq> [] \<and> w \<noteq> ''.'' \<and> w \<noteq> ''..'' \<and> CHR ''/'' \<notin> set w \<and> backslash \<notin> set w"

lemma join_snoc_Nil: "segs \<noteq> [] \<Longrightarrow> join_with [c] segs @ [c] = join_with [c] (segs @ [[]])"
proof (induction segs)
  case Nil
  then show ?case by simp
next
  case (Cons w ws)
  then show ?case by (cases ws) auto
qed

lemma backslash_not_slash [simp]: "backslash \<noteq> CHR ''/''"
  by code_simp

lemma set_join: "c \<in> set (join_with sep ws) \<Longrightarrow> c \<in> set sep \<or> (\<exists>w\<in>set ws. c \<in> set w)"
  by (induction sep ws rule: join_with.induct) auto

lemma safe_from_segs:
  assumes "segs \<noteq> []" "\<And>w. w \<in> set segs \<Longrightarrow> good_seg w"
    and q: "q = join_with ''/'' segs \<or> q = join_with ''/'' segs @ ''/''"
  shows "safe_project_path q"
proof -
  have ok: "split_on CHR ''/'' (join_with ''/'' segs) = segs"
    "split_on CHR ''/'' (join_with ''/'' (segs @ [[]])) = segs @ [[]]"
    using assms(1,2) by (auto intro!: split_join simp: good_seg_def)
  have l: "last segs \<noteq> []" and all: "list_all (\<lambda>w. w \<noteq> [] \<and> w \<noteq> ''.'' \<and> w \<noteq> ''..'') segs"
    using assms(1,2) by (auto simp: good_seg_def list_all_iff)
  have bs: "backslash \<notin> set (join_with ''/'' segs)"
    using assms(2) by (auto dest!: set_join simp: good_seg_def)
  from q show ?thesis
  proof
    assume "q = join_with ''/'' segs"
    then show ?thesis using ok l all bs assms(1) by (simp add: safe_project_path_def Let_def)
  next
    assume eq: "q = join_with ''/'' segs @ ''/''"
    then have "split_on CHR ''/'' q = segs @ [[]]" using ok join_snoc_Nil [OF assms(1)] by simp
    then show ?thesis using all bs assms(1) eq by (simp add: safe_project_path_def Let_def)
  qed
qed

lemma set_split_on: "w \<in> set (split_on c s) \<Longrightarrow> set w \<subseteq> set s"
proof (induction s arbitrary: w)
  case Nil
  then show ?case by simp
next
  case (Cons x s)
  obtain u us where u: "split_on c s = u # us" by (cases "split_on c s") auto
  then have "set u \<subseteq> set s" "v \<in> set us \<Longrightarrow> set v \<subseteq> set s" for v
    using Cons.IH by auto
  then show ?case using Cons.prems u by (auto split: if_splits)
qed

lemma clean_dotdot_first:
  assumes "clean ws" "''..'' \<in> set ws"
  obtains us where "ws = ''..'' # us"
proof -
  from assms(1) obtain k vs where eq: "ws = replicate k ''..'' @ vs" and vs: "''..'' \<notin> set vs"
    by (auto simp: clean_def)
  with assms(2) have "k \<noteq> 0" by (cases k) auto
  with eq that show thesis by (cases k) auto
qed

lemma normalize_shape:
  assumes "normalizeProjectPath raw = Inr q" "q \<noteq> ''./''"
  shows "safe_project_path q"
proof -
  define p where "p = replace_char backslash CHR ''/'' raw"
  define segs where "segs = norm_segs True [] (split_on CHR ''/'' p)"
  have rel: "\<not> posix_isAbsolute raw" "\<not> win32_isAbsolute raw"
    and q: "q = posix_normalize p"
    and esc: "q \<noteq> ''.''" "\<not> starts_with ''../'' q" "q \<noteq> ''..''"
    using assms by (auto simp: normalizeProjectPath_def p_def Let_def split: if_splits)
  have "\<not> posix_isAbsolute p"
    using rel
    by (cases raw) (auto simp: posix_isAbsolute_def p_def replace_char_def win32_isAbsolute_def)
  then have norm: "q = (if p = [] then ''.''
      else if join_with ''/'' segs = [] then (if ends_with ''/'' p then ''./'' else ''.'')
      else if ends_with ''/'' p then join_with ''/'' segs @ ''/'' else join_with ''/'' segs)"
    using q by (simp add: posix_normalize_def segs_def Let_def)
  then have body: "segs \<noteq> []" "q = join_with ''/'' segs \<or> q = join_with ''/'' segs @ ''/''"
    using assms(2) esc by (auto split: if_splits)
  have bs: "backslash \<notin> set p" by (auto simp: p_def dest: set_replace_char)
  have elem: "w \<noteq> [] \<and> w \<noteq> ''.'' \<and> CHR ''/'' \<notin> set w \<and> backslash \<notin> set w"
    if "w \<in> set segs" for w
  proof -
    have "w \<noteq> [] \<and> w \<noteq> ''.'' \<and> (w \<in> set (split_on CHR ''/'' p) \<or> w = ''..'')"
      using that norm_segs_elem unfolding segs_def by fastforce
    moreover have "set w \<subseteq> set p" if "w \<in> set (split_on CHR ''/'' p)"
      using that by (rule set_split_on)
    moreover have "backslash \<noteq> CHR ''.''" by code_simp
    ultimately show ?thesis using bs split_on_sep [of w "CHR ''/''" p] by auto
  qed
  have "''..'' \<notin> set segs"
  proof
    assume dd: "''..'' \<in> set segs"
    have "clean segs" unfolding segs_def by (rule norm_segs_clean) simp
    then obtain us where us: "segs = ''..'' # us" using dd by (rule clean_dotdot_first)
    then show False using body(2) esc by (cases us) (auto simp: starts_with_def)
  qed
  then have good: "good_seg w" if "w \<in> set segs" for w
    using elem that by (auto simp: good_seg_def)
  show ?thesis using body(1) good body(2) by (rule safe_from_segs)
qed

lemma infer_not_dir: "inferProjectFileLanguage q = Inr l \<Longrightarrow> q \<noteq> ''./''"
proof
  assume "inferProjectFileLanguage q = Inr l" "q = ''./''"
  moreover have "inferProjectFileLanguage ''./'' = Inl (plain_error ''Unsupported file extension: ./'')"
    by code_simp
  ultimately show False by simp
qed

text \<open>
  The invariant of the file table: every entry sits under its own path, which is a safe
  path with a supported extension, its language the one of the extension; no path twice.
\<close>

definition entry_ok :: "string \<times> project_file \<Rightarrow> bool" where
  "entry_ok e \<longleftrightarrow> path (snd e) = fst e \<and> safe_project_path (fst e) \<and>
     inferProjectFileLanguage (fst e) = Inr (language (snd e))"

definition table_ok :: "file_table \<Rightarrow> bool" where
  "table_ok m \<longleftrightarrow> distinct (map fst m) \<and> list_all entry_ok m"

lemma table_ok_Nil [simp]: "table_ok []"
  by (simp add: table_ok_def)

lemma table_ok_set: "table_ok m \<Longrightarrow> entry_ok (k, v) \<Longrightarrow> table_ok (map_set k v m)"
  by (auto simp: table_ok_def list_all_iff dest!: set_map_set)

lemma table_ok_del: "table_ok m \<Longrightarrow> table_ok (map_del k m)"
  by (auto simp: table_ok_def list_all_iff dest: set_map_del)

lemma load_base_ok: "load_base fs m = Inr m' \<Longrightarrow> table_ok m \<Longrightarrow> table_ok m'"
proof (induction fs m rule: load_base.induct)
  case (1 m)
  then show ?case by simp
next
  case (2 f fs m)
  then obtain p l where pl: "normalizeProjectPath (path f) = Inr p"
    "inferProjectFileLanguage p = Inr l"
    and rec: "load_base fs (map_set p (f\<lparr>path := p, language := l\<rparr>) m) = Inr m'"
    by (auto split: sum.splits)
  from pl have "safe_project_path p" using normalize_shape infer_not_dir by blast
  with pl have "table_ok (map_set p (f\<lparr>path := p, language := l\<rparr>) m)"
    using "2.prems" by (auto intro!: table_ok_set simp: entry_ok_def)
  with pl rec show ?case using "2.IH" by blast
qed

lemma apply_op_cases:
  assumes "apply_op rid op m = Inr m'"
  obtains (del) p where "normalizeProjectPath (op_path op) = Inr p" "op = DeleteFile (op_path op)"
      "p \<notin> set requiredTemplateFiles" "m' = map_del p m"
    | (put) p l c where "normalizeProjectPath (op_path op) = Inr p"
      "inferProjectFileLanguage p = Inr l"
      "op = CreateFile (op_path op) c \<or> op = UpdateFile (op_path op) c" "nul \<notin> set c"
      "m' = map_set p \<lparr>path = p, content = c, language = l, generatedByRunId = rid\<rparr> m"
  using assms
  by (cases op) (auto simp: apply_op_def write_op_def assertTextContent_def split: sum.splits if_splits)

lemma apply_op_ok: "apply_op rid op m = Inr m' \<Longrightarrow> table_ok m \<Longrightarrow> table_ok m'"
proof (erule apply_op_cases)
  fix p l c assume "normalizeProjectPath (op_path op) = Inr p" "inferProjectFileLanguage p = Inr l"
    "m' = map_set p \<lparr>path = p, content = c, language = l, generatedByRunId = rid\<rparr> m" "table_ok m"
  moreover have "safe_project_path p" using calculation(1,2) normalize_shape infer_not_dir by blast
  ultimately show "table_ok m'" by (auto intro!: table_ok_set simp: entry_ok_def)
qed (simp add: table_ok_del)

lemma apply_ops_ok: "apply_ops rid ops m = Inr m' \<Longrightarrow> table_ok m \<Longrightarrow> table_ok m'"
  by (induction rid ops m rule: apply_ops.induct)
     (auto split: sum.splits intro: apply_op_ok)

text \<open>What the result of the operations is, path by path: the last operation on a path decides.\<close>

definition file_view :: "project_file list \<Rightarrow> string \<rightharpoonup> string" where
  "file_view fs = map_of (map (\<lambda>f. (path f, content f)) fs)"

definition written_content :: "file_operation \<Rightarrow> string option" where
  "written_content op =
     (case op of DeleteFile _ \<Rightarrow> None | CreateFile _ c \<Rightarrow> Some c | UpdateFile _ c \<Rightarrow> Some c)"

definition expected_content ::
    "project_file list \<Rightarrow> file_operation list \<Rightarrow> string \<Rightarrow> string option" where
  "expected_content base ops p =
     (case find (\<lambda>op. normalizeProjectPath (op_path op) = Inr p) (rev ops) of
        Some op \<Rightarrow> written_content op
      | None \<Rightarrow> map_option content
          (find (\<lambda>f. normalizeProjectPath (path f) = Inr p) (rev base)))"

lemma find_append: "find P (xs @ ys) = (case find P xs of None \<Rightarrow> find P ys | Some x \<Rightarrow> Some x)"
  by (induction xs) auto

lemma find_SomeD: "find P xs = Some x \<Longrightarrow> P x \<and> x \<in> set xs"
  by (induction xs) (auto split: if_splits)

lemma load_base_content:
  "load_base fs m = Inr m' \<Longrightarrow> map_option content (map_of m' p) =
     (case find (\<lambda>f. normalizeProjectPath (path f) = Inr p) (rev fs) of
        Some f \<Rightarrow> Some (content f) | None \<Rightarrow> map_option content (map_of m p))"
proof (induction fs m rule: load_base.induct)
  case (1 m)
  then show ?case by simp
next
  case (2 f fs m)
  then obtain q l where ql: "normalizeProjectPath (path f) = Inr q"
    "inferProjectFileLanguage q = Inr l"
    and rec: "load_base fs (map_set q (f\<lparr>path := q, language := l\<rparr>) m) = Inr m'"
    by (auto split: sum.splits)
  have "map_option content (map_of m' p) =
     (case find (\<lambda>f. normalizeProjectPath (path f) = Inr p) (rev fs) of
        Some f \<Rightarrow> Some (content f)
      | None \<Rightarrow> map_option content (map_of (map_set q (f\<lparr>path := q, language := l\<rparr>) m) p))"
    using "2.IH" ql rec by blast
  then show ?case using ql(1) by (auto simp: find_append split: option.splits)
qed

lemma apply_op_content:
  "apply_op rid op m = Inr m' \<Longrightarrow> map_option content (map_of m' p) =
     (if normalizeProjectPath (op_path op) = Inr p then written_content op
      else map_option content (map_of m p))"
  by (erule apply_op_cases; cases op) (auto simp: written_content_def)

lemma apply_ops_content:
  "apply_ops rid ops m = Inr m' \<Longrightarrow> map_option content (map_of m' p) =
     (case find (\<lambda>op. normalizeProjectPath (op_path op) = Inr p) (rev ops) of
        Some op \<Rightarrow> written_content op | None \<Rightarrow> map_option content (map_of m p))"
proof (induction rid ops m rule: apply_ops.induct)
  case (1 rid m)
  then show ?case by simp
next
  case (2 rid op ops m)
  then obtain m1 where m1: "apply_op rid op m = Inr m1" "apply_ops rid ops m1 = Inr m'"
    by (auto split: sum.splits)
  with 2 apply_op_content [OF m1(1), of p] show ?case
    by (auto simp: find_append split: option.splits)
qed

lemma applyFileOperations_elim:
  assumes "applyFileOperations collate base ops rid = Inr fs"
  obtains m m' where "load_base base [] = Inr m" "apply_ops rid ops m = Inr m'"
    "table_ok m" "table_ok m'" "fs = sort_by (\<lambda>a b. collate (path a) (path b)) (map snd m')"
proof -
  from assms obtain m m' where "load_base base [] = Inr m" "apply_ops rid ops m = Inr m'"
    "fs = sort_by (\<lambda>a b. collate (path a) (path b)) (map snd m')"
    by (auto simp: applyFileOperations_def split: sum.splits)
  with that show thesis using load_base_ok apply_ops_ok table_ok_Nil by blast
qed

lemma table_paths: "table_ok m \<Longrightarrow> map (path \<circ> snd) m = map fst m"
  by (auto simp: table_ok_def entry_ok_def list_all_iff)

lemma map_of_view:
  assumes "distinct (map path fs)"
  shows "file_view fs p = Some c \<longleftrightarrow> (\<exists>f\<in>set fs. path f = p \<and> content f = c)"
proof -
  have "distinct (map fst (map (\<lambda>f. (path f, content f)) fs))" using assms by (simp add: comp_def)
  then show ?thesis by (auto simp: file_view_def)
qed

lemma option_ext: "(\<And>c. x = Some c \<longleftrightarrow> y = Some c) \<Longrightarrow> x = y"
  by (cases x; cases y) auto

lemma table_view:
  assumes "table_ok m" "distinct (map path fs)" "set fs = snd ` set m"
  shows "file_view fs p = map_option content (map_of m p)"
proof -
  have d: "distinct (map fst m)" using assms(1) by (simp add: table_ok_def)
  have "file_view fs p = Some c \<longleftrightarrow> map_option content (map_of m p) = Some c" for c
  proof -
    have "file_view fs p = Some c \<longleftrightarrow> (\<exists>e\<in>set m. path (snd e) = p \<and> content (snd e) = c)"
      using map_of_view [OF assms(2)] assms(3) by auto
    also have "\<dots> \<longleftrightarrow> (\<exists>e\<in>set m. fst e = p \<and> content (snd e) = c)"
      using assms(1) by (auto simp: table_ok_def entry_ok_def list_all_iff)
    also have "\<dots> \<longleftrightarrow> map_option content (map_of m p) = Some c"
      using d by (force simp: map_of_eq_Some_iff)
    finally show ?thesis .
  qed
  then show ?thesis by (rule option_ext)
qed

lemma result_paths:
  assumes "table_ok m"
  shows "distinct (map path (sort_by le (map snd m)))"
proof -
  have "distinct (map (path \<circ> snd) m)"
    unfolding table_paths [OF assms] using assms by (simp add: table_ok_def)
  then show ?thesis by simp
qed

lemma apply_ops_required:
  "apply_ops rid ops m = Inr m' \<Longrightarrow> r \<in> set requiredTemplateFiles \<Longrightarrow>
     map_of m r \<noteq> None \<Longrightarrow> map_of m' r \<noteq> None"
proof (induction rid ops m rule: apply_ops.induct)
  case (1 rid m)
  then show ?case by simp
next
  case (2 rid op ops m)
  then obtain m1 where m1: "apply_op rid op m = Inr m1" "apply_ops rid ops m1 = Inr m'"
    by (auto split: sum.splits)
  from m1(1) have "map_of m1 r \<noteq> None"
    using "2.prems"(2,3) by (rule_tac apply_op_cases [OF m1(1)]) auto
  with 2 m1 show ?case by blast
qed

lemma apply_file_view:
  assumes "applyFileOperations collate base ops rid = Inr fs"
  shows "file_view fs p = expected_content base ops p"
proof -
  from assms obtain m m' where m: "load_base base [] = Inr m" "apply_ops rid ops m = Inr m'"
    "table_ok m'" and fs: "fs = sort_by (\<lambda>a b. collate (path a) (path b)) (map snd m')"
    by (rule applyFileOperations_elim)
  have "file_view fs p = map_option content (map_of m' p)"
    using result_paths [OF m(3)] by (intro table_view m) (simp_all add: fs)
  then show ?thesis
    using apply_ops_content [OF m(2), of p] load_base_content [OF m(1), of p]
    by (auto simp: expected_content_def split: option.splits)
qed

lemma apply_paths_safe:
  assumes "applyFileOperations collate base ops rid = Inr fs"
  shows "distinct (map path fs) \<and>
    list_all (\<lambda>f. safe_project_path (path f) \<and>
                  inferProjectFileLanguage (path f) = Inr (language f)) fs"
proof -
  from assms obtain m' where m': "table_ok m'"
    "fs = sort_by (\<lambda>a b. collate (path a) (path b)) (map snd m')"
    by (rule applyFileOperations_elim)
  from m' show ?thesis
    using result_paths [OF m'(1)] by (auto simp: table_ok_def entry_ok_def list_all_iff)
qed

text \<open>Accepted paths normalise to themselves, but for the ones Windows reads as absolute.\<close>

lemma ends_with_char: "ends_with [c] s \<longleftrightarrow> s \<noteq> [] \<and> last s = c"
  by (cases s rule: rev_cases) (auto simp: ends_with_def)

lemma last_join:
  "ws \<noteq> [] \<Longrightarrow> last ws \<noteq> [] \<Longrightarrow> join_with sep ws \<noteq> [] \<and> last (join_with sep ws) = last (last ws)"
proof (induction ws)
  case Nil
  then show ?case by simp
next
  case step: (Cons w ws)
  show ?case
  proof (cases ws)
    case Nil
    with step show ?thesis by simp
  next
    case (Cons v vs)
    then have "join_with sep ws \<noteq> [] \<and> last (join_with sep ws) = last (last ws)"
      using step by simp
    with Cons show ?thesis by simp
  qed
qed

lemma dot_free: "safe_project_path q \<Longrightarrow> \<not> (q = ''.'' \<or> starts_with ''../'' q \<or> q = ''..'')"
proof
  assume s: "safe_project_path q" and "q = ''.'' \<or> starts_with ''../'' q \<or> q = ''..''"
  then consider "q = ''.''" | "q = ''..''" | t where "q = ''../'' @ t"
    by auto
  then show False
  proof cases
    case (3 t)
    have "split_on CHR ''/'' q = ''..'' # split_on CHR ''/'' t" by (simp add: 3)
    with s show False by (auto simp: safe_project_path_def Let_def split: if_splits)
  qed (use s in \<open>simp_all add: safe_project_path_def\<close>)
qed

lemma safe_normal:
  assumes "safe_project_path q" "\<not> win32_isAbsolute q"
  shows "normalizeProjectPath q = Inr q"
proof -
  define ws where "ws = split_on CHR ''/'' q"
  define segs where "segs = (if last ws = [] then butlast ws else ws)"
  have segs: "segs \<noteq> []" "\<And>w. w \<in> set segs \<Longrightarrow> w \<noteq> [] \<and> w \<noteq> ''.'' \<and> w \<noteq> ''..''"
    and bs: "backslash \<notin> set q"
    using assms(1)
    unfolding safe_project_path_def Let_def ws_def [symmetric] segs_def [symmetric] list_all_iff
    by blast+
  have q: "q = join_with ''/'' ws" by (simp add: ws_def)
  have ws: "ws = segs \<and> last ws \<noteq> [] \<or> ws = segs @ [[]]"
    using append_butlast_last_id [of ws] split_on_not_Nil [of "CHR ''/''" q]
    unfolding segs_def ws_def by metis
  have sep: "CHR ''/'' \<notin> set w" if "w \<in> set ws" for w
    using that split_on_sep unfolding ws_def by blast
  have norm: "norm_segs True [] ws = segs"
    using ws norm_segs_id [of segs True "[]" "[]"] norm_segs_id [of segs True "[]" "[[]]"] segs(2)
    by auto
  have rel: "\<not> posix_isAbsolute q"
    using assms(2) by (cases q) (auto simp: posix_isAbsolute_def win32_isAbsolute_def)
  have body: "join_with ''/'' segs \<noteq> []"
    using last_join [of segs "''/''"] segs last_in_set by blast
  have shape: "q = (if ends_with ''/'' q then join_with ''/'' segs @ ''/'' else join_with ''/'' segs)"
    using ws
  proof
    assume a: "ws = segs \<and> last ws \<noteq> []"
    then have "last q \<in> set (last ws)" using last_join [of ws "''/''"] segs(1) q
      by (metis last_in_set)
    moreover have "last ws \<in> set ws" using a segs(1) by simp
    ultimately have "last q \<noteq> CHR ''/''" using sep by metis
    then show ?thesis using a q by (simp add: ends_with_char)
  next
    assume "ws = segs @ [[]]"
    then have "q = join_with ''/'' segs @ ''/''" using q join_snoc_Nil segs(1) by simp
    then show ?thesis by (simp add: ends_with_char)
  qed
  have ne: "q \<noteq> []" using shape body by (auto split: if_splits)
  have "posix_normalize q = q"
    using shape [symmetric] rel ne body norm unfolding posix_normalize_def ws_def
    by (simp add: Let_def split: if_splits)
  moreover have "\<not> (q = ''.'' \<or> starts_with ''../'' q \<or> q = ''..'')"
    using dot_free [OF assms(1)] by blast
  ultimately show ?thesis
    using rel assms(2) bs by (simp add: normalizeProjectPath_def Let_def)
qed

lemma load_base_total:
  "list_all (\<lambda>f. normalizeProjectPath (path f) = Inr (path f) \<and>
      (\<exists>l. inferProjectFileLanguage (path f) = Inr l)) fs \<Longrightarrow> \<exists>m'. load_base fs m = Inr m'"
  by (induction fs arbitrary: m) auto

section \<open>Properties\<close>

text \<open>C10: Whatever the base files and the operations of the language model are, if
  \<open>applyFileOperations\<close> succeeds then every resulting path is a relative path inside the
  project (no \<open>.\<close>, \<open>..\<close> or empty segment, no backslash, not absolute), has a supported
  extension whose language is the recorded one, and no path occurs twice.\<close>

theorem applyFileOperations_safe:
  assumes "applyFileOperations collate base ops rid = Inr fs"
  shows "distinct (map path fs) \<and>
    list_all (\<lambda>f. safe_project_path (path f) \<and>
                  inferProjectFileLanguage (path f) = Inr (language f)) fs"
  using assms by (rule apply_paths_safe)

definition collate_ascii :: "string \<Rightarrow> string \<Rightarrow> bool" where
  "collate_ascii a b = (length a \<le> length b)"

definition sample_base :: "project_file list" where
  "sample_base = [\<lparr>path = ''src/main.tsx'', content = ''a'', language = LTsx, generatedByRunId = None\<rparr>,
     \<lparr>path = ''src/old.ts'', content = ''b'', language = LTs, generatedByRunId = None\<rparr>]"

definition sample_ops :: "file_operation list" where
  "sample_ops = [CreateFile ''./src/x/../App.tsx'' ''c'', DeleteFile ''src/old.ts'']"

lemma sample_run: "applyFileOperations collate_ascii sample_base sample_ops None = Inr
   [\<lparr>path = ''src/App.tsx'', content = ''c'', language = LTsx, generatedByRunId = None\<rparr>,
    \<lparr>path = ''src/main.tsx'', content = ''a'', language = LTsx, generatedByRunId = None\<rparr>]"
  by code_simp

theorem applyFileOperations_safe_witness:
  "distinct (map path [\<lparr>path = ''src/App.tsx'', content = ''c'', language = LTsx, generatedByRunId = None\<rparr>,
    \<lparr>path = ''src/main.tsx'', content = ''a'', language = LTsx, generatedByRunId = None\<rparr>])"
  using applyFileOperations_safe [OF sample_run] by blast

text \<open>C11: The result of \<open>applyFileOperations\<close> is decided path by path: the last operation
  whose normalised path it is gives the content (or removes the file), and a path no operation
  touches keeps the content of the last base file of that path.\<close>

theorem applyFileOperations_content:
  assumes "applyFileOperations collate base ops rid = Inr fs"
  shows "file_view fs p = expected_content base ops p"
  using assms by (rule apply_file_view)

theorem applyFileOperations_content_witness:
  "file_view [\<lparr>path = ''src/App.tsx'', content = ''c'', language = LTsx, generatedByRunId = None\<rparr>,
    \<lparr>path = ''src/main.tsx'', content = ''a'', language = LTsx, generatedByRunId = None\<rparr>] ''src/old.ts''
     = expected_content sample_base sample_ops ''src/old.ts''"
  using applyFileOperations_content [OF sample_run] by blast

text \<open>C12: A required template file of the base survives every accepted list of operations:
  an operation that would delete it makes the whole call throw.\<close>

theorem required_files_survive:
  assumes "applyFileOperations collate base ops rid = Inr fs"
    and "r \<in> set requiredTemplateFiles"
    and "\<exists>f\<in>set base. normalizeProjectPath (path f) = Inr r"
  shows "\<exists>f\<in>set fs. path f = r"
proof -
  from assms(1) obtain m m' where m: "load_base base [] = Inr m" "apply_ops rid ops m = Inr m'"
    "table_ok m'" and fs: "fs = sort_by (\<lambda>a b. collate (path a) (path b)) (map snd m')"
    by (rule applyFileOperations_elim)
  have "map_option content (map_of m r) \<noteq> None"
    using load_base_content [OF m(1), of r] assms(3)
    by (auto simp: find_None_iff split: option.splits)
  then have "map_of m r \<noteq> None" by auto
  then have "map_of m' r \<noteq> None" using apply_ops_required [OF m(2) assms(2)] by blast
  then obtain f where "(r, f) \<in> set m'" by (auto dest: map_of_SomeD)
  with m(3) have "path f = r" by (auto simp: table_ok_def entry_ok_def list_all_iff)
  moreover have "f \<in> set fs" using \<open>(r, f) \<in> set m'\<close> by (force simp: fs)
  ultimately show ?thesis by blast
qed

theorem required_files_survive_witness:
  "\<exists>f\<in>set [\<lparr>path = ''src/App.tsx'', content = ''c'', language = LTsx, generatedByRunId = None\<rparr>,
    \<lparr>path = ''src/main.tsx'', content = ''a'', language = LTsx, generatedByRunId = None\<rparr>].
     path f = ''src/main.tsx''"
proof (rule required_files_survive [OF sample_run])
  show "''src/main.tsx'' \<in> set requiredTemplateFiles" by code_simp
  show "\<exists>f\<in>set sample_base. normalizeProjectPath (path f) = Inr ''src/main.tsx''" by code_simp
qed

end
