(* ===== verification/Packages.thy ===== *)
theory Packages
  imports FileOps
begin

text \<open>
  The server-controlled side of a generated project: the merge of dependencies
  (\<open>agent/dependencies.ts\<close>), the text of \<open>package.json\<close> as \<open>JSON.stringify\<close> prints it,
  the template project (\<open>agent/projectTemplate.ts\<close>) and the two helpers of
  \<open>agent/orchestrator.ts\<close> that compare and rewrite project files. Objects are association
  lists in insertion order; keys that look like array indices, which JavaScript would move to the
  front, do not occur among package names the code adds itself.
\<close>

section \<open>agent/dependencies.ts\<close>

definition requiredDependencies :: dep_map where
  "requiredDependencies = [(''react'', ''^18.2.0''), (''react-dom'', ''^18.2.0'')]"

definition requiredDevDependencies :: dep_map where
  "requiredDevDependencies = [(''@types/react'', ''^18.2.0''), (''@types/react-dom'', ''^18.2.0''),
     (''@vitejs/plugin-react'', ''^4.3.0''), (''autoprefixer'', ''^10.4.20''),
     (''postcss'', ''^8.4.49''), (''tailwindcss'', ''^3.4.17''), (''typescript'', ''^5.4.0''),
     (''vite'', ''^5.4.0'')]"

definition sortRecord :: "(string \<Rightarrow> string \<Rightarrow> bool) \<Rightarrow> dep_map \<Rightarrow> dep_map" where
  "sortRecord collate m = sort_by (\<lambda>a b. collate (fst a) (fst b)) m"

text \<open>An object spread \<open>{...a, ...b}\<close>.\<close>

fun spread :: "('k, 'v) jsmap \<Rightarrow> ('k, 'v) jsmap \<Rightarrow> ('k, 'v) jsmap" where
  "spread a [] = a"
| "spread a ((k, v) # b) = spread (map_set k v a) b"

definition recordFrom :: "dep_map option \<Rightarrow> dep_map" where
  "recordFrom m = (case m of None \<Rightarrow> [] | Some d \<Rightarrow> d)"

definition mergeProjectPackageJson :: "(string \<Rightarrow> string \<Rightarrow> bool) \<Rightarrow> package_json option \<Rightarrow>
    generation_result \<Rightarrow> package_json" where
  "mergeProjectPackageJson collate base generated =
     \<lparr>dependencies = sortRecord collate
        (spread (spread requiredDependencies (recordFrom (map_option dependencies base)))
                (g_dependencies generated)),
      devDependencies = sortRecord collate
        (spread (spread requiredDevDependencies (recordFrom (map_option devDependencies base)))
                (g_devDependencies generated)),
      scripts = [(''dev'', ''vite''), (''type-check'', ''tsc --noEmit''),
                 (''build'', ''tsc && vite build'')]\<rparr>"

section \<open>JSON text of package.json\<close>

definition hex_digit :: "nat \<Rightarrow> char" where
  "hex_digit n = (if n < 10 then char_of (48 + n) else char_of (87 + n))"

definition json_char :: "char \<Rightarrow> string" where
  "json_char c =
     (let n = of_char c :: nat
      in if n = 34 then [backslash, c]
         else if n = 92 then [backslash, c]
         else if n = 8 then backslash # ''b''
         else if n = 9 then backslash # ''t''
         else if n = 10 then backslash # ''n''
         else if n = 12 then backslash # ''f''
         else if n = 13 then backslash # ''r''
         else if n < 32 then backslash # ''u00'' @ [hex_digit (n div 16), hex_digit (n mod 16)]
         else [c])"

definition quote_mark :: char where
  "quote_mark = char_of (34 :: nat)"

definition json_string :: "string \<Rightarrow> string" where
  "json_string s = quote_mark # concat (map json_char s) @ [quote_mark]"

definition indent :: "nat \<Rightarrow> string" where
  "indent n = replicate (2 * n) CHR '' ''"

definition json_record :: "nat \<Rightarrow> dep_map \<Rightarrow> string" where
  "json_record depth m =
     (if m = [] then ''{}''
      else ''{'' @ [newline] @
        join_with ('','' @ [newline])
          (map (\<lambda>(k, v). indent (Suc depth) @ json_string k @ '': '' @ json_string v) m) @
        [newline] @ indent depth @ ''}'')"

text \<open>\<open>JSON.stringify(packageJson, null, 2)\<close>\<close>

definition stringifyPackage :: "package_json \<Rightarrow> string" where
  "stringifyPackage p =
     ''{'' @ [newline] @
     indent 1 @ json_string ''dependencies'' @ '': '' @ json_record 1 (dependencies p) @
       '','' @ [newline] @
     indent 1 @ json_string ''devDependencies'' @ '': '' @ json_record 1 (devDependencies p) @
       '','' @ [newline] @
     indent 1 @ json_string ''scripts'' @ '': '' @ json_record 1 (scripts p) @ [newline] @ ''}''"

section \<open>agent/projectTemplate.ts\<close>

definition unlines :: "string list \<Rightarrow> string" where
  "unlines ls = concat (map (\<lambda>l. l @ [newline]) ls)"

definition template_file :: "string \<Rightarrow> project_file_language \<Rightarrow> string \<Rightarrow> project_file" where
  "template_file p l c = \<lparr>path = p, content = c, language = l, generatedByRunId = None\<rparr>"

definition createTailwindConfig :: string where
  "createTailwindConfig = unlines [''/** @type {import('tailwindcss').Config} */'',
     ''module.exports = {'',
     ''  content: ['./index.html', './src/**/*.{js,ts,jsx,tsx}'],'',
     ''  theme: { extend: {} },'',
     ''  plugins: []'',
     ''};'']"

definition createPostcssConfig :: string where
  "createPostcssConfig =
     unlines [''module.exports = { plugins: { tailwindcss: {}, autoprefixer: {} } };'']"

definition createProjectTemplateFiles :: "project_file list" where
  \<open>createProjectTemplateFiles = [
     template_file ''index.html'' LHtml (unlines [
        ''<!doctype html>'',
        ''<html lang="en">'',
        ''  <head>'',
        ''    <meta charset="UTF-8" />'',
        ''    <meta name="viewport" content="width=device-width, initial-scale=1.0" />'',
        ''    <title>Generated App</title>'',
        ''  </head>'',
        ''  <body>'',
        ''    <div id="root"></div>'',
        ''    <script type="module" src="/src/main.tsx"></script>'',
        ''  </body>'',
        ''</html>'']),
     template_file ''postcss.config.cjs'' LJs (createPostcssConfig),
     template_file ''src/App.tsx'' LTsx (unlines [
        ''export default function App() {'',
        ''  return <main>Start building your application.</main>;'',
        ''}'']),
     template_file ''src/index.css'' LCss (unlines [
        ''@tailwind base;'',
        ''@tailwind components;'',
        ''@tailwind utilities;'',
        [],
        '':root {'',
        ''  font-family: Inter, ui-sans-serif, system-ui, sans-serif;'',
        ''  color: #171717;'',
        ''  background: #ffffff;'',
        ''}'',
        [],
        ''* {'',
        ''  box-sizing: border-box;'',
        ''}'',
        [],
        ''body {'',
        ''  margin: 0;'',
        ''  min-width: 320px;'',
        ''  min-height: 100vh;'',
        ''}'']),
     template_file ''src/main.tsx'' LTsx (unlines [
        ''import React from 'react';'',
        ''import ReactDOM from 'react-dom/client';'',
        ''import App from './App';'',
        ''import './index.css';'',
        [],
        ''ReactDOM.createRoot(document.getElementById('root')!).render('',
        ''  <React.StrictMode>'',
        ''    <App />'',
        ''  </React.StrictMode>'',
        '');'']),
     template_file ''tailwind.config.js'' LJs (createTailwindConfig),
     template_file ''tsconfig.json'' LJson (unlines [
        ''{'',
        ''  "compilerOptions": {'',
        ''    "target": "ES2020",'',
        ''    "useDefineForClassFields": true,'',
        ''    "lib": ["ES2020", "DOM", "DOM.Iterable"],'',
        ''    "allowJs": false,'',
        ''    "skipLibCheck": true,'',
        ''    "esModuleInterop": true,'',
        ''    "allowSyntheticDefaultImports": true,'',
        ''    "strict": true,'',
        ''    "forceConsistentCasingInFileNames": true,'',
        ''    "module": "ESNext",'',
        ''    "moduleResolution": "Node",'',
        ''    "resolveJsonModule": true,'',
        ''    "isolatedModules": true,'',
        ''    "noEmit": true,'',
        ''    "jsx": "react-jsx"'',
        ''  },'',
        ''  "include": ["src"]'',
        ''}''])]\<close>

definition resolveProjectBaseFiles :: "project_file list option \<Rightarrow> project_file list" where
  "resolveProjectBaseFiles snapshotFiles =
     (case snapshotFiles of Some fs \<Rightarrow> fs | None \<Rightarrow> createProjectTemplateFiles)"

section \<open>Helpers of agent/orchestrator.ts\<close>

fun lookup_last :: "'k \<Rightarrow> ('k \<times> 'v) list \<Rightarrow> 'v option" where
  "lookup_last k xs = map_of (rev xs) k"

definition hasEffectiveFileChanges :: "project_file list \<Rightarrow> file_operation list \<Rightarrow> bool" where
  "hasEffectiveFileChanges baseFiles operations =
     (let slashes = replace_char backslash CHR ''/'';
          baseFilesByPath = map (\<lambda>f. (slashes (path f), content f)) baseFiles
      in list_ex (\<lambda>op.
           let existing = lookup_last (slashes (op_path op)) baseFilesByPath
           in case op of
                DeleteFile _ \<Rightarrow> existing \<noteq> None
              | CreateFile _ c \<Rightarrow> existing \<noteq> Some c
              | UpdateFile _ c \<Rightarrow> existing \<noteq> Some c) operations)"

definition writeServerPackageJson :: "(string \<Rightarrow> string \<Rightarrow> bool) \<Rightarrow> project_file list \<Rightarrow>
    package_json \<Rightarrow> object_id option \<Rightarrow> js_error + project_file list" where
  "writeServerPackageJson collate files packageJson runId =
     (let text = stringifyPackage packageJson @ [newline]
      in applyFileOperations collate files
           [if list_ex (\<lambda>f. path f = ''package.json'') files
            then UpdateFile ''package.json'' text else CreateFile ''package.json'' text] runId)"

section \<open>Lemmas\<close>

lemma map_of_spread: "map_of (spread a b) k =
    (case map_of (rev b) k of Some v \<Rightarrow> Some v | None \<Rightarrow> map_of a k)"
  by (induction a b rule: spread.induct) (auto simp: map_add_def split: option.splits)

lemma distinct_spread: "distinct (map fst a) \<Longrightarrow> distinct (map fst (spread a b))"
  by (induction a b rule: spread.induct) auto

lemma map_of_sortRecord: "distinct (map fst m) \<Longrightarrow> map_of (sortRecord collate m) = map_of m"
  by (rule map_of_eqI) (auto simp: sortRecord_def intro!: map_of_is_SomeI dest: map_of_SomeD
    split: option.splits)

lemma template_language: "list_all (\<lambda>f. normalizeProjectPath (path f) = Inr (path f) \<and>
    inferProjectFileLanguage (path f) = Inr (language f)) createProjectTemplateFiles"
  by code_simp

lemma find_view: "distinct (map path fs) \<Longrightarrow>
    map_option content (find (\<lambda>f. path f = p) (rev fs)) = file_view fs p"
proof (induction fs)
  case Nil
  then show ?case by (simp add: file_view_def)
next
  case (Cons a fs)
  then have IH: "map_option content (find (\<lambda>f. path f = p) (rev fs)) = file_view fs p" by simp
  show ?case
  proof (cases "find (\<lambda>f. path f = p) (rev fs)")
    case None
    with IH show ?thesis by (simp add: find_append file_view_def)
  next
    case (Some x)
    then have "path a \<noteq> p" using Cons.prems find_SomeD [OF Some] by auto
    with IH Some show ?thesis by (simp add: find_append file_view_def)
  qed
qed

lemma nul_json_char: "nul \<notin> set (json_char c)"
proof -
  define n where "n = (of_char c :: nat)"
  have ne: "char_of m \<noteq> nul" if "0 < m" "m < 256" for m :: nat
  proof
    assume "char_of m = nul"
    then have "of_char (char_of m :: char) = (of_char nul :: nat)" by simp
    with that show False by simp
  qed
  have "c \<noteq> nul" if "n \<noteq> 0" using that by (auto simp: n_def)
  moreover have "nul \<noteq> hex_digit k" if "k < 16" for k
    using that ne [of "48 + k"] ne [of "87 + k"] by (auto simp: hex_digit_def dest: sym)
  moreover have "nul \<notin> set (backslash # s)" if "nul \<notin> set s" for s
    using that ne [of 92] by auto
  moreover have "nul \<notin> {CHR ''b'', CHR ''t'', CHR ''n'', CHR ''f'', CHR ''r'', CHR ''u'', CHR ''0''}"
    by code_simp
  moreover have "n < 32 \<Longrightarrow> n div 16 < 16 \<and> n mod 16 < 16" by simp
  ultimately show ?thesis by (auto simp: json_char_def n_def [symmetric] Let_def)
qed

lemma stringify_text: "nul \<notin> set (stringifyPackage p @ [newline])"
proof -
  have q: "nul \<noteq> quote_mark" "nul \<noteq> newline" unfolding quote_mark_def by code_simp+
  have str: "nul \<notin> set (json_string s)" for s
    using nul_json_char q(1) by (auto simp: json_string_def)
  have "nul \<noteq> CHR '' ''" by code_simp
  then have ind: "nul \<notin> set (indent k)" for k by (auto simp: indent_def)
  have lits: "nul \<notin> set '': ''" "nul \<notin> set '',''" "nul \<notin> set ''{''" "nul \<notin> set ''}''"
    "nul \<notin> set ''{}''" by code_simp+
  have rec: "nul \<notin> set (json_record d m)" for d m
    using str ind lits q by (auto simp: json_record_def dest!: set_join)
  show ?thesis using str ind lits q rec unfolding stringifyPackage_def by auto
qed

section \<open>Properties\<close>

text \<open>C13: \<open>mergeProjectPackageJson\<close>: the version of a dependency is the generated one, else
  the one of the base project, else the one the server requires; so no model output can remove
  React, Vite or the styling tool chain, and the scripts are the fixed ones whatever the model
  answers. The same precedence holds for the development dependencies.\<close>

theorem mergeProjectPackageJson_precedence:
  "map_of (dependencies (mergeProjectPackageJson collate base generated)) k =
     (case map_of (rev (g_dependencies generated)) k of
        Some v \<Rightarrow> Some v
      | None \<Rightarrow> (case map_of (rev (recordFrom (map_option dependencies base))) k of
          Some v \<Rightarrow> Some v | None \<Rightarrow> map_of requiredDependencies k)) \<and>
   map_of (devDependencies (mergeProjectPackageJson collate base generated)) k =
     (case map_of (rev (g_devDependencies generated)) k of
        Some v \<Rightarrow> Some v
      | None \<Rightarrow> (case map_of (rev (recordFrom (map_option devDependencies base))) k of
          Some v \<Rightarrow> Some v | None \<Rightarrow> map_of requiredDevDependencies k)) \<and>
   scripts (mergeProjectPackageJson collate base generated) =
     [(''dev'', ''vite''), (''type-check'', ''tsc --noEmit''), (''build'', ''tsc && vite build'')]"
proof -
  have "distinct (map fst requiredDependencies)" "distinct (map fst requiredDevDependencies)"
    by code_simp+
  then show ?thesis
    by (simp add: mergeProjectPackageJson_def map_of_sortRecord distinct_spread map_of_spread
      split: option.split)
qed

text \<open>\<open>writeServerPackageJson\<close> succeeds on any accepted project and its result differs
  from the given files in \<open>package.json\<close> alone, whose text is the server's JSON followed by a
  newline: a \<open>package.json\<close> written by the model is always overwritten.\<close>

theorem writeServerPackageJson_only:
  assumes "applyFileOperations collate base ops rid = Inr files"
    and "list_all (\<lambda>f. \<not> win32_isAbsolute (path f)) files"
  shows "\<exists>fs. writeServerPackageJson collate files pkg rid' = Inr fs \<and>
    file_view fs = (file_view files)(''package.json'' \<mapsto> stringifyPackage pkg @ [newline])"
proof -
  define body where "body = stringifyPackage pkg @ [newline]"
  define op where "op = (if list_ex (\<lambda>f. path f = ''package.json'') files
      then UpdateFile ''package.json'' body else CreateFile ''package.json'' body)"
  have safe: "distinct (map path files)"
    "list_all (\<lambda>f. safe_project_path (path f) \<and> inferProjectFileLanguage (path f) = Inr (language f)) files"
    using apply_paths_safe [OF assms(1)] by auto
  have self: "normalizeProjectPath (path f) = Inr (path f)" if "f \<in> set files" for f
    using safe(2) assms(2) that by (auto simp: list_all_iff intro: safe_normal)
  then obtain m where m: "load_base files [] = Inr m"
    using load_base_total [of files "[]"] safe(2) by (auto simp: list_all_iff)
  have nul: "nul \<notin> set body" using stringify_text by (simp add: body_def)
  have pj: "normalizeProjectPath ''package.json'' = Inr ''package.json''"
    "inferProjectFileLanguage ''package.json'' = Inr LJson" by code_simp+
  have "apply_ops rid' [op] m = Inr (map_set ''package.json''
      \<lparr>path = ''package.json'', content = body, language = LJson, generatedByRunId = rid'\<rparr> m)"
    using nul by (simp add: op_def apply_op_def write_op_def assertTextContent_def pj)
  then obtain fs where fs: "applyFileOperations collate files [op] rid' = Inr fs"
    using m by (simp add: applyFileOperations_def)
  then have ws: "writeServerPackageJson collate files pkg rid' = Inr fs"
    unfolding writeServerPackageJson_def op_def body_def Let_def .
  have "file_view fs p = ((file_view files)(''package.json'' \<mapsto> body)) p" for p
  proof -
    have "find (\<lambda>f. normalizeProjectPath (path f) = Inr p) (rev files) =
        find (\<lambda>f. path f = p) (rev files)"
      using self by (intro find_cong) auto
    moreover have "map_option content (find (\<lambda>f. path f = p) (rev files)) = file_view files p"
      using safe(1) by (rule find_view)
    ultimately show ?thesis
      using apply_file_view [OF fs, of p] pj(1)
      by (auto simp: expected_content_def op_def written_content_def)
  qed
  with ws show ?thesis by (auto simp: body_def)
qed

definition sample_package :: package_json where
  "sample_package = \<lparr>dependencies = [(''react'', ''^18.2.0'')], devDependencies = [], scripts = []\<rparr>"

theorem writeServerPackageJson_only_witness:
  "\<exists>fs. writeServerPackageJson collate_ascii
      [\<lparr>path = ''src/App.tsx'', content = ''c'', language = LTsx, generatedByRunId = None\<rparr>,
       \<lparr>path = ''src/main.tsx'', content = ''a'', language = LTsx, generatedByRunId = None\<rparr>]
      sample_package None = Inr fs \<and> fs \<noteq> []"
proof -
  have "list_all (\<lambda>f. \<not> win32_isAbsolute (path f))
      [\<lparr>path = ''src/App.tsx'', content = ''c'', language = LTsx, generatedByRunId = None\<rparr>,
       \<lparr>path = ''src/main.tsx'', content = ''a'', language = LTsx, generatedByRunId = None\<rparr>]"
    by code_simp
  from writeServerPackageJson_only [OF sample_run this, of sample_package None] obtain fs where
    "writeServerPackageJson collate_ascii
      [\<lparr>path = ''src/App.tsx'', content = ''c'', language = LTsx, generatedByRunId = None\<rparr>,
       \<lparr>path = ''src/main.tsx'', content = ''a'', language = LTsx, generatedByRunId = None\<rparr>]
      sample_package None = Inr fs" "file_view fs ''package.json'' \<noteq> None"
    by auto
  then show ?thesis by (auto simp: file_view_def)
qed

end
