(* ===== verification/Json.thy ===== *)
theory Json
  imports Packages "HOL-Library.Word"
begin

text \<open>
  The parts of the JavaScript library the artifact code relies on: \<open>JSON.stringify\<close> and
  \<open>JSON.parse\<close> over the values it stores, UTF-8 encoding and decoding of the text as bytes,
  and the code-unit order of strings. A character is a code unit below 256, so byte sequences and
  escapes for other characters are rejected by the two decoders here. Property names that are array
  indices keep their place (engines list them first).
\<close>

section \<open>JSON values\<close>

text \<open>A number literal whose value is an integer is \<open>JNum\<close>; any other is kept as its text.\<close>

datatype json = JNull | JBool bool | JNum int | JReal string | JStr string
  | JArr "json list" | JObj "(string \<times> json) list"

definition show_int :: "int \<Rightarrow> string" where
  "show_int i = (if i < 0 then CHR ''-'' # show_nat (nat (- i)) else show_nat (nat i))"

fun stringify :: "json \<Rightarrow> string" where
  "stringify JNull = ''null''"
| "stringify (JBool b) = (if b then ''true'' else ''false'')"
| "stringify (JNum i) = show_int i"
| "stringify (JReal l) = l"
| "stringify (JStr s) = json_string s"
| "stringify (JArr xs) = ''['' @ join_with '','' (map stringify xs) @ '']''"
| "stringify (JObj ms) = ''{'' @ join_with '',''
     (map (\<lambda>(k, v). json_string k @ '':'' @ stringify v) ms) @ ''}''"

definition json_member :: "string \<Rightarrow> json \<Rightarrow> json option" where
  "json_member k j = (case j of JObj ms \<Rightarrow> map_of ms k | _ \<Rightarrow> None)"

section \<open>JSON.parse\<close>

definition json_space :: "char \<Rightarrow> bool" where
  "json_space c \<longleftrightarrow> (let n = of_char c :: nat in n = 32 \<or> n = 9 \<or> n = 10 \<or> n = 13)"

definition skip_ws :: "string \<Rightarrow> string" where
  "skip_ws = dropWhile json_space"

definition hex_value :: "char \<Rightarrow> nat option" where
  "hex_value c = (let n = of_char c :: nat in
     if 48 \<le> n \<and> n \<le> 57 then Some (n - 48)
     else if 97 \<le> n \<and> n \<le> 102 then Some (n - 87)
     else if 65 \<le> n \<and> n \<le> 70 then Some (n - 55) else None)"

definition hex4 :: "char \<Rightarrow> char \<Rightarrow> char \<Rightarrow> char \<Rightarrow> char option" where
  "hex4 a b c d = (case (hex_value a, hex_value b, hex_value c, hex_value d) of
     (Some h, Some i, Some j, Some k) \<Rightarrow>
       if h = 0 \<and> i = 0 then Some (char_of (16 * j + k)) else None
   | _ \<Rightarrow> None)"

definition unescape :: "char \<Rightarrow> char option" where
  "unescape c = (let n = of_char c :: nat in
     if n = 34 \<or> n = 92 \<or> n = 47 then Some c
     else if c = CHR ''b'' then Some (char_of (8 :: nat))
     else if c = CHR ''t'' then Some (char_of (9 :: nat))
     else if c = CHR ''n'' then Some (char_of (10 :: nat))
     else if c = CHR ''f'' then Some (char_of (12 :: nat))
     else if c = CHR ''r'' then Some (char_of (13 :: nat)) else None)"

text \<open>The text after the opening quotation mark, up to the closing one.\<close>

fun parse_chars :: "string \<Rightarrow> (string \<times> string) option" where
  "parse_chars [] = None"
| "parse_chars (c # cs) =
     (if c = quote_mark then Some ([], cs)
      else if c = backslash
      then (case cs of
              [] \<Rightarrow> None
            | e # es \<Rightarrow>
                if e = CHR ''u''
                then (case es of
                        h # i # j # k # rest \<Rightarrow>
                          (case hex4 h i j k of
                             None \<Rightarrow> None
                           | Some x \<Rightarrow> map_option (\<lambda>(s, r). (x # s, r)) (parse_chars rest))
                      | _ \<Rightarrow> None)
                else (case unescape e of
                        None \<Rightarrow> None
                      | Some x \<Rightarrow> map_option (\<lambda>(s, r). (x # s, r)) (parse_chars es)))
      else if (of_char c :: nat) < 32 then None
      else map_option (\<lambda>(s, r). (c # s, r)) (parse_chars cs))"

definition digits_value :: "string \<Rightarrow> int" where
  "digits_value ds = foldl (\<lambda>n c. 10 * n + (of_char c - 48)) 0 ds"

definition take_digits :: "string \<Rightarrow> string \<times> string" where
  "take_digits s = (takeWhile is_digit s, dropWhile is_digit s)"

text \<open>The optional fraction and exponent: their digits, the exponent, and what follows.\<close>

definition parse_fraction :: "string \<Rightarrow> (string \<times> string) option" where
  "parse_fraction s = (case s of
     c # cs \<Rightarrow> if c = CHR ''.''
       then (let (ds, r) = take_digits cs in if ds = [] then None else Some (ds, r))
       else Some ([], s)
   | [] \<Rightarrow> Some ([], []))"

definition parse_exponent :: "string \<Rightarrow> (int \<times> string) option" where
  "parse_exponent s = (case s of
     c # cs \<Rightarrow> if c = CHR ''e'' \<or> c = CHR ''E''
       then (let signed = (case cs of d # _ \<Rightarrow> d = CHR ''-'' \<or> d = CHR ''+'' | [] \<Rightarrow> False);
                 (ds, r) = take_digits (if signed then tl cs else cs)
             in if ds = [] then None
                else Some (if signed \<and> hd cs = CHR ''-'' then - digits_value ds else digits_value ds, r))
       else Some (0, s)
   | [] \<Rightarrow> Some (0, []))"

text \<open>The value of sign, integer digits, fraction digits and exponent.\<close>

definition number_value :: "bool \<Rightarrow> string \<Rightarrow> string \<Rightarrow> int \<Rightarrow> string \<Rightarrow> json" where
  "number_value negative ds fs e text_of =
     (let m = digits_value (ds @ fs); k = e - int (length fs);
          signed = (\<lambda>v. if negative then - v else v)
      in if 0 \<le> k then JNum (signed (m * 10 ^ nat k))
         else if m mod 10 ^ nat (- k) = 0 then JNum (signed (m div 10 ^ nat (- k)))
         else JReal text_of)"

definition parse_number :: "string \<Rightarrow> (json \<times> string) option" where
  "parse_number s =
     (let negative = (case s of c # _ \<Rightarrow> c = CHR ''-'' | [] \<Rightarrow> False);
          (ds, r1) = take_digits (if negative then tl s else s)
      in if ds = [] \<or> (1 < length ds \<and> hd ds = CHR ''0'') then None
         else case parse_fraction r1 of
                None \<Rightarrow> None
              | Some (fs, r2) \<Rightarrow>
                  (case parse_exponent r2 of
                     None \<Rightarrow> None
                   | Some (e, r3) \<Rightarrow>
                       Some (number_value negative ds fs e (take (length s - length r3) s), r3)))"

definition parse_word :: "string \<Rightarrow> json \<Rightarrow> string \<Rightarrow> (json \<times> string) option" where
  "parse_word w j s = (if starts_with w s then Some (j, drop (length w) s) else None)"

definition object_of :: "(string \<times> json) list \<Rightarrow> json" where
  "object_of ms = JObj (foldl (\<lambda>m (k, v). map_set k v m) [] ms)"

text \<open>
  The fuel bounds the nesting and the elements; \<open>JSON_parse\<close> gives what the length of the text
  needs.
\<close>

fun parse_value :: "nat \<Rightarrow> string \<Rightarrow> (json \<times> string) option"
  and parse_items :: "nat \<Rightarrow> string \<Rightarrow> (json list \<times> string) option"
  and parse_members :: "nat \<Rightarrow> string \<Rightarrow> ((string \<times> json) list \<times> string) option" where
  "parse_value 0 s = None"
| "parse_value (Suc n) s =
     (case skip_ws s of
        [] \<Rightarrow> None
      | c # cs \<Rightarrow>
          if c = CHR ''{''
          then (case skip_ws cs of
                  [] \<Rightarrow> None
                | d # ds \<Rightarrow> if d = CHR ''}'' then Some (JObj [], ds)
                    else map_option (\<lambda>(ms, r). (object_of ms, r)) (parse_members n (d # ds)))
          else if c = CHR ''[''
          then (case skip_ws cs of
                  [] \<Rightarrow> None
                | d # ds \<Rightarrow> if d = CHR '']'' then Some (JArr [], ds)
                    else map_option (\<lambda>(xs, r). (JArr xs, r)) (parse_items n (d # ds)))
          else if c = quote_mark then map_option (\<lambda>(t, r). (JStr t, r)) (parse_chars cs)
          else if c = CHR ''t'' then parse_word ''true'' (JBool True) (c # cs)
          else if c = CHR ''f'' then parse_word ''false'' (JBool False) (c # cs)
          else if c = CHR ''n'' then parse_word ''null'' JNull (c # cs)
          else parse_number (c # cs))"
| "parse_items 0 s = None"
| "parse_items (Suc n) s =
     (case parse_value n s of
        None \<Rightarrow> None
      | Some (v, r) \<Rightarrow>
          (case skip_ws r of
             [] \<Rightarrow> None
           | c # cs \<Rightarrow>
               if c = CHR '','' then map_option (\<lambda>(vs, t). (v # vs, t)) (parse_items n cs)
               else if c = CHR '']'' then Some ([v], cs) else None))"
| "parse_members 0 s = None"
| "parse_members (Suc n) s =
     (case skip_ws s of
        [] \<Rightarrow> None
      | q # qs \<Rightarrow>
          if q \<noteq> quote_mark then None
          else case parse_chars qs of
            None \<Rightarrow> None
          | Some (k, r) \<Rightarrow>
              (case skip_ws r of
                 [] \<Rightarrow> None
               | c # cs \<Rightarrow>
                   if c \<noteq> CHR '':'' then None
                   else case parse_value n cs of
                     None \<Rightarrow> None
                   | Some (v, t) \<Rightarrow>
                       (case skip_ws t of
                          [] \<Rightarrow> None
                        | d # ds \<Rightarrow>
                            if d = CHR '',''
                            then map_option (\<lambda>(ms, u). ((k, v) # ms, u)) (parse_members n ds)
                            else if d = CHR ''}'' then Some ([(k, v)], ds) else None)))"

definition JSON_parse :: "string \<Rightarrow> json option" where
  "JSON_parse s = (case parse_value (2 * length s + 2) s of
     Some (j, r) \<Rightarrow> if skip_ws r = [] then Some j else None
   | None \<Rightarrow> None)"

section \<open>UTF-8\<close>

type_synonym bytes = "8 word list"

definition utf8_char :: "char \<Rightarrow> bytes" where
  "utf8_char c = (let n = of_char c :: nat in
     if n < 128 then [of_nat n] else [of_nat (192 + n div 64), of_nat (128 + n mod 64)])"

definition utf8_encode :: "string \<Rightarrow> bytes" where
  "utf8_encode s = concat (map utf8_char s)"

text \<open>\<open>TextDecoder\<close> with \<open>fatal\<close>: an ill-formed sequence is an error.\<close>

fun utf8_decode :: "bytes \<Rightarrow> string option" where
  "utf8_decode [] = Some []"
| "utf8_decode (b # bs) =
     (if unat b < 128 then map_option ((#) (char_of (unat b))) (utf8_decode bs)
      else if unat b = 194 \<or> unat b = 195
      then (case bs of
              [] \<Rightarrow> None
            | d # ds \<Rightarrow>
                if 128 \<le> unat d \<and> unat d < 192
                then map_option ((#) (char_of ((unat b - 192) * 64 + (unat d - 128)))) (utf8_decode ds)
                else None)
      else None)"

section \<open>The code-unit order of strings\<close>

fun text_le :: "string \<Rightarrow> string \<Rightarrow> bool" where
  "text_le [] t = True"
| "text_le (c # s) [] = False"
| "text_le (c # s) (d # t) =
     ((of_char c :: nat) < of_char d \<or> (c = d \<and> text_le s t))"

section \<open>Order and bytes\<close>

lemma code_less: "(of_char c :: nat) < 256"
  by (metis of_char_mod_256 mod_less_divisor zero_less_numeral)

lemma code_eq: "(of_char c = (of_char d :: nat)) = (c = d)"
  by simp

lemma text_le_total: "text_le s t \<or> text_le t s"
proof (induction s t rule: text_le.induct)
  case (3 c s d t)
  have "c = d \<or> (of_char c :: nat) < of_char d \<or> (of_char d :: nat) < of_char c"
    using linorder_neqE_nat code_eq by blast
  with 3 show ?case by auto
qed auto

lemma text_le_trans: "text_le s t \<Longrightarrow> text_le t u \<Longrightarrow> text_le s u"
proof (induction s t arbitrary: u rule: text_le.induct)
  case (3 c s d t)
  then show ?case by (cases u) auto
qed auto

lemma text_le_Nil [simp]: "text_le s [] \<longleftrightarrow> s = []"
  by (cases s) auto

lemma text_le_antisym: "text_le s t \<Longrightarrow> text_le t s \<Longrightarrow> s = t"
  by (induction s t rule: text_le.induct) auto

lemma unat_of_nat_8: "n < 256 \<Longrightarrow> unat (of_nat n :: 8 word) = n"
  by (simp add: unat_of_nat)

lemma utf8_decode_char: "utf8_decode (utf8_char c @ bs) = map_option ((#) c) (utf8_decode bs)"
proof -
  define n where "n = (of_char c :: nat)"
  have c: "c = char_of n" by (simp add: n_def)
  have n: "n < 256" using code_less by (simp add: n_def)
  show ?thesis
  proof (cases "n < 128")
    case True
    have "utf8_char c = [of_nat n]" using True by (simp add: utf8_char_def flip: n_def)
    moreover have "unat (of_nat n :: 8 word) = n" using n by (rule unat_of_nat_8)
    ultimately show ?thesis using True by (simp add: c)
  next
    case False
    define h where "h = 192 + n div 64"
    define l where "l = 128 + n mod 64"
    have "n div 64 < 4" using n by (simp add: less_mult_imp_div_less)
    then have h: "h = 194 \<or> h = 195" using False by (auto simp: h_def)
    have l: "128 \<le> l" "l < 192" by (auto simp: l_def)
    have two: "utf8_char c = [of_nat h, of_nat l]"
      using False by (simp add: utf8_char_def h_def l_def flip: n_def)
    have uh: "unat (of_nat h :: 8 word) = h" by (rule unat_of_nat_8) (use h in auto)
    have ul: "unat (of_nat l :: 8 word) = l" by (rule unat_of_nat_8) (use l in auto)
    have v: "(h - 192) * 64 + (l - 128) = n" by (simp add: h_def l_def)
    have "\<not> h < 128" using h by auto
    with h l show ?thesis
      unfolding two append.simps utf8_decode.simps uh list.case ul v by (simp add: c)
  qed
qed

lemma utf8_roundtrip: "utf8_decode (utf8_encode s) = Some s"
  by (induction s) (auto simp: utf8_encode_def utf8_decode_char)

lemma utf8_length: "length (utf8_encode s) \<le> 2 * length s"
  by (induction s) (auto simp: utf8_encode_def utf8_char_def Let_def)

section \<open>Printing and parsing\<close>

lemma hex_digit_value: "k < 16 \<Longrightarrow> hex_value (hex_digit k) = Some k"
  by (auto simp: hex_value_def hex_digit_def Let_def)

lemma parse_json_char: "parse_chars (json_char c @ t) = map_option (\<lambda>(s, r). (c # s, r)) (parse_chars t)"
proof -
  define n where "n = (of_char c :: nat)"
  have c: "c = char_of n" by (simp add: n_def)
  have n: "n < 256" using code_less by (simp add: n_def)
  have q: "quote_mark \<noteq> backslash" "CHR ''u'' \<noteq> quote_mark" "CHR ''u'' \<noteq> backslash"
    "char_of (34 :: nat) \<noteq> CHR ''u''"
    by code_simp+
  consider "n = 34 \<or> n = 92" | "n = 8" | "n = 9" | "n = 10" | "n = 12" | "n = 13"
    | "n < 32" "n \<noteq> 8" "n \<noteq> 9" "n \<noteq> 10" "n \<noteq> 12" "n \<noteq> 13" | "32 \<le> n" "n \<noteq> 34" "n \<noteq> 92"
    by linarith
  then show ?thesis
  proof cases
    case 7
    then have "hex_value (hex_digit (n div 16)) = Some (n div 16)"
      "hex_value (hex_digit (n mod 16)) = Some (n mod 16)" by (auto intro!: hex_digit_value)
    moreover have "hex_value CHR ''0'' = Some 0" by (simp add: hex_value_def)
    ultimately have "hex4 CHR ''0'' CHR ''0'' (hex_digit (n div 16)) (hex_digit (n mod 16)) = Some c"
      using c by (simp add: hex4_def)
    with 7 q show ?thesis by (simp add: json_char_def Let_def flip: n_def)
  next
    case 8
    then have "c \<noteq> quote_mark" "c \<noteq> backslash" using n by (auto simp: c quote_mark_def)
    with 8 show ?thesis by (simp add: json_char_def Let_def flip: n_def)
  qed (use q in \<open>auto simp: json_char_def Let_def unescape_def c simp flip: n_def\<close>)
qed

lemma parse_json_string: "parse_chars (concat (map json_char s) @ quote_mark # r) = Some (s, r)"
  by (induction s) (auto simp: parse_json_char)

text \<open>The values whose text can be read back: integers only, and no repeated property name.\<close>

fun printable :: "json \<Rightarrow> bool" where
  "printable (JReal l) = False"
| "printable (JArr xs) = (\<forall>x \<in> set xs. printable x)"
| "printable (JObj ms) = (distinct (map fst ms) \<and> (\<forall>(k, v) \<in> set ms. printable v))"
| "printable _ = True"

text \<open>What may follow a value inside an array or object, or at the end.\<close>

definition stops :: "string \<Rightarrow> bool" where
  "stops r \<longleftrightarrow> (case r of [] \<Rightarrow> True | c # _ \<Rightarrow> c \<in> {CHR '','', CHR '']'', CHR ''}''})"

lemma show_nat_digits: "show_nat n \<noteq> [] \<and> list_all is_digit (show_nat n)"
proof (induction n rule: show_nat.induct)
  case (1 n)
  have "is_digit (char_of (48 + n mod 10))" by (simp add: is_digit_def Let_def)
  with 1 show ?case by (auto simp: show_nat.simps [of n] is_digit_def Let_def)
qed

lemma digits_value_snoc: "digits_value (ds @ [c]) = 10 * digits_value ds + (of_char c - 48)"
  by (simp add: digits_value_def)

lemma digits_value_show: "digits_value (show_nat n) = int n"
proof (induction n rule: show_nat.induct)
  case (1 n)
  have c: "of_char (char_of (48 + m) :: char) = (48 + int m :: int)" if "m < 10" for m
  proof -
    have "(of_char (char_of (48 + m) :: char) :: nat) = 48 + m" using that by simp
    then have "int (of_char (char_of (48 + m) :: char)) = 48 + int m" by simp
    then show ?thesis by (simp only: of_nat_of_char)
  qed
  show ?case
  proof (cases "n < 10")
    case True
    then show ?thesis using c [OF True] by (simp add: show_nat.simps [of n] digits_value_def)
  next
    case False
    have "int (10 * (n div 10) + n mod 10) = int n" by simp
    then have "10 * int (n div 10) + int (n mod 10) = int n"
      by (simp only: of_nat_add of_nat_mult of_nat_numeral)
    then show ?thesis using 1 c [of "n mod 10"] False
      by (simp add: show_nat.simps [of n] digits_value_snoc)
  qed
qed

lemma show_nat_no_leading_zero: "1 < length (show_nat n) \<Longrightarrow> hd (show_nat n) \<noteq> CHR ''0''"
proof (induction n rule: show_nat.induct)
  case (1 n)
  then have n: "\<not> n < 10" by (auto simp: show_nat.simps [of n])
  then have "show_nat n = show_nat (n div 10) @ [char_of (48 + n mod 10)]"
    by (simp add: show_nat.simps [of n])
  moreover have "hd (show_nat (n div 10)) \<noteq> CHR ''0''"
  proof (cases "n div 10 < 10")
    case True
    have "n div 10 \<noteq> 0" using n by simp
    then have "of_char (char_of (48 + n div 10) :: char) \<noteq> (48 :: nat)" using True by simp
    moreover have "(of_char CHR ''0'' :: nat) = 48" by simp
    ultimately have "char_of (48 + n div 10) \<noteq> CHR ''0''" by metis
    with True show ?thesis by (simp add: show_nat.simps [of "n div 10"])
  next
    case False
    then have "1 < length (show_nat (n div 10))"
      using show_nat_digits [of "n div 10 div 10"] by (simp add: show_nat.simps [of "n div 10"])
    with 1(1) n show ?thesis by simp
  qed
  ultimately show ?case using show_nat_digits [of "n div 10"] by (simp add: hd_append)
qed

lemma stops_digit: "stops r \<Longrightarrow> take_digits (show_nat n @ r) = (show_nat n, r)"
proof -
  assume "stops r"
  then have r: "takeWhile is_digit r = []" "dropWhile is_digit r = r"
    by (auto simp: stops_def is_digit_def split: list.splits)
  have "\<forall>c \<in> set (show_nat n). is_digit c" using show_nat_digits by (auto simp: list_all_iff)
  then show ?thesis using r by (simp add: take_digits_def takeWhile_append2 dropWhile_append2)
qed

lemma stops_plain: "stops r \<Longrightarrow> parse_fraction r = Some ([], r) \<and> parse_exponent r = Some (0, r)"
  by (auto simp: stops_def parse_fraction_def parse_exponent_def split: list.splits)

lemma parse_show_int:
  assumes "stops r"
  shows "parse_number (show_int i @ r) = Some (JNum i, r)"
proof -
  have d: "show_nat k \<noteq> []" "\<not> (1 < length (show_nat k) \<and> hd (show_nat k) = CHR ''0'')" for k
    using show_nat_digits show_nat_no_leading_zero by blast+
  have minus: "\<not> (case show_nat k @ r of [] \<Rightarrow> False | c # _ \<Rightarrow> c = CHR ''-'')" for k
    using show_nat_digits [of k] by (cases "show_nat k") (auto simp: is_digit_def)
  show ?thesis
    using assms d minus
    by (auto simp: parse_number_def show_int_def Let_def stops_digit stops_plain number_value_def
        digits_value_show)
qed

lemma skip_first [simp]: "\<not> json_space c \<Longrightarrow> skip_ws (c # cs) = c # cs"
  by (simp add: skip_ws_def)

lemma json_string_first: "json_string s = quote_mark # concat (map json_char s) @ [quote_mark]"
  by (simp add: json_string_def)

lemma marks [simp]: "\<not> json_space quote_mark" "\<not> json_space CHR '',''" "\<not> json_space CHR '':''"
  "\<not> json_space CHR '']''" "\<not> json_space CHR ''}''" "\<not> json_space CHR ''{''" "\<not> json_space CHR ''[''"
  "quote_mark \<noteq> CHR ''{''" "quote_mark \<noteq> CHR ''[''" "quote_mark \<noteq> CHR '']''" "quote_mark \<noteq> CHR ''}''"
  "\<not> json_space CHR ''n''" "\<not> json_space CHR ''t''" "\<not> json_space CHR ''f''"
  "CHR ''n'' \<noteq> quote_mark" "CHR ''t'' \<noteq> quote_mark" "CHR ''f'' \<noteq> quote_mark"
  by code_simp+

lemma stops_marks [simp]: "stops []" "stops (CHR '','' # r)" "stops (CHR '']'' # r)" "stops (CHR ''}'' # r)"
  by (simp_all add: stops_def)

lemma show_int_first: "\<exists>c cs. show_int i = c # cs \<and> (c = CHR ''-'' \<or> is_digit c)"
  using show_nat_digits [of "nat (- i)"] show_nat_digits [of "nat i"]
  by (cases "show_nat (nat i)") (auto simp: show_int_def)

lemma number_first:
  assumes "c = CHR ''-'' \<or> is_digit c"
  shows "\<not> json_space c" "c \<noteq> CHR '']''" "c \<noteq> CHR ''{''" "c \<noteq> CHR ''[''" "c \<noteq> quote_mark"
    "c \<noteq> CHR ''t''" "c \<noteq> CHR ''f''" "c \<noteq> CHR ''n''"
proof -
  have "quote_mark \<noteq> CHR ''-''" by code_simp
  then show "c \<noteq> quote_mark" using assms by (auto simp: is_digit_def quote_mark_def Let_def)
qed (use assms in \<open>auto simp: is_digit_def json_space_def Let_def\<close>)

lemma first_char:
  assumes "printable j"
  shows "\<exists>c cs. stringify j = c # cs \<and> \<not> json_space c \<and> c \<noteq> CHR '']''"
proof (cases j)
  case (JNum i)
  then show ?thesis using show_int_first [of i] number_first by fastforce
qed (use assms in \<open>auto simp: json_string_first\<close>)

definition reads_back :: "json \<Rightarrow> bool" where
  "reads_back j \<longleftrightarrow> (\<forall>n r. stops r \<longrightarrow> 2 * length (stringify j) \<le> n \<longrightarrow>
     parse_value n (stringify j @ r) = Some (j, r))"

lemma parse_items_print:
  "xs \<noteq> [] \<Longrightarrow> (\<And>x. x \<in> set xs \<Longrightarrow> reads_back x \<and> stringify x \<noteq> []) \<Longrightarrow>
   2 * length (join_with '','' (map stringify xs)) < n \<Longrightarrow>
   parse_items n (join_with '','' (map stringify xs) @ CHR '']'' # r) = Some (xs, r)"
proof (induction xs arbitrary: n rule: list_nonempty_induct)
  case (single x)
  then obtain m where "n = Suc m" "2 * length (stringify x) \<le> m" by (cases n) auto
  with single show ?case by (simp add: reads_back_def)
next
  case (cons x xs)
  then have j: "join_with '','' (map stringify (x # xs)) =
      stringify x @ CHR '','' # join_with '','' (map stringify xs)" by (simp add: join_with_Cons)
  then obtain m where m: "n = Suc m" "2 * length (stringify x) \<le> m"
    "2 * length (join_with '','' (map stringify xs)) < m"
    using cons.prems(2) by (cases n) auto
  have "parse_value m (stringify x @ CHR '','' # join_with '','' (map stringify xs) @ CHR '']'' # r) =
      Some (x, CHR '','' # join_with '','' (map stringify xs) @ CHR '']'' # r)"
    using cons.prems(1) m(2) by (simp add: reads_back_def)
  then show ?case using j m(1) cons.IH [OF cons.prems(1) m(3)] by simp
qed

abbreviation member_text :: "string \<times> json \<Rightarrow> string" where
  "member_text \<equiv> \<lambda>(k, v). json_string k @ '':'' @ stringify v"

lemma parse_members_print:
  "ms \<noteq> [] \<Longrightarrow> (\<And>k v. (k, v) \<in> set ms \<Longrightarrow> reads_back v) \<Longrightarrow>
   2 * length (join_with '','' (map member_text ms)) < n \<Longrightarrow>
   parse_members n (join_with '','' (map member_text ms) @ CHR ''}'' # r) = Some (ms, r)"
proof (induction ms arbitrary: n rule: list_nonempty_induct)
  case (single p)
  obtain k v where p: "p = (k, v)" by fastforce
  with single obtain m where "n = Suc m" "2 * length (stringify v) \<le> m" by (cases n) auto
  with single p show ?case
    by (simp add: reads_back_def json_string_first parse_json_string)
next
  case (cons p ms)
  obtain k v where p: "p = (k, v)" by fastforce
  let ?rest = "join_with '','' (map member_text ms)"
  have j: "join_with '','' (map member_text (p # ms)) = json_string k @ CHR '':'' # stringify v @ CHR '','' # ?rest"
    using cons.hyps p by (simp add: join_with_Cons)
  then obtain m where m: "n = Suc m" "2 * length (stringify v) \<le> m" "2 * length ?rest < m"
    using cons.prems(2) by (cases n) auto
  have "parse_value m (stringify v @ CHR '','' # ?rest @ CHR ''}'' # r) = Some (v, CHR '','' # ?rest @ CHR ''}'' # r)"
    using cons.prems(1) [of k v] p m(2) by (simp add: reads_back_def)
  moreover have "parse_members m (?rest @ CHR ''}'' # r) = Some (ms, r)"
    using cons.prems(1) m(3) by (intro cons.IH) auto
  ultimately show ?case
    unfolding j m(1) by (simp add: json_string_first parse_json_string p)
qed

lemma map_set_new: "k \<notin> fst ` set m \<Longrightarrow> map_set k v m = m @ [(k, v)]"
  by (induction k v m rule: map_set.induct) auto

lemma object_of_distinct: "distinct (map fst ms) \<Longrightarrow> object_of ms = JObj ms"
proof -
  have "distinct (map fst (acc @ ms)) \<Longrightarrow> foldl (\<lambda>m (k, v). map_set k v m) acc ms = acc @ ms" for acc
  proof (induction ms arbitrary: acc)
    case (Cons p ms)
    then show ?case by (cases p) (auto simp: map_set_new)
  qed simp
  from this [of "[]"] show "distinct (map fst ms) \<Longrightarrow> object_of ms = JObj ms"
    by (simp add: object_of_def)
qed

lemma reads_back_leaf:
  assumes "stringify j \<noteq> []" "\<And>m r. parse_value (Suc m) (stringify j @ r) = Some (j, r)"
  shows "reads_back j"
  unfolding reads_back_def
proof (intro allI impI)
  fix n and r :: string assume "2 * length (stringify j) \<le> n"
  then obtain m where "n = Suc m" using assms(1) by (cases n) auto
  then show "parse_value n (stringify j @ r) = Some (j, r)" using assms(2) by simp
qed

lemma json_roundtrip: "printable j \<Longrightarrow> reads_back j"
proof (induction j rule: stringify.induct)
  case (3 i)
  show ?case
    unfolding reads_back_def
  proof (intro allI impI)
    fix n and r :: string assume r: "stops r" and n: "2 * length (stringify (JNum i)) \<le> n"
    obtain c cs where c: "show_int i = c # cs" "c = CHR ''-'' \<or> is_digit c"
      using show_int_first by blast
    then obtain m where "n = Suc m" using n by (cases n) auto
    with c r parse_show_int [OF r, of i] number_first [OF c(2)]
    show "parse_value n (stringify (JNum i) @ r) = Some (JNum i, r)" by simp
  qed
next
  case (6 xs)
  have each: "reads_back x \<and> stringify x \<noteq> []" if "x \<in> set xs" for x
    using 6 that first_char [of x] by auto
  show ?case
    unfolding reads_back_def
  proof (intro allI impI)
    fix n and r :: string assume n: "2 * length (stringify (JArr xs)) \<le> n"
    then obtain m where m: "n = Suc m" "2 * length (join_with '','' (map stringify xs)) < m"
      by (cases n) auto
    show "parse_value n (stringify (JArr xs) @ r) = Some (JArr xs, r)"
    proof (cases "xs = []")
      case False
      then obtain x ys where xs: "xs = x # ys" by (cases xs) auto
      with 6 first_char [of x] obtain c cs where
        c: "stringify x = c # cs" "\<not> json_space c" "c \<noteq> CHR '']''" by auto
      obtain t where t: "join_with '','' (map stringify xs) = c # t"
        using c(1) xs by (cases ys) auto
      from parse_items_print [OF False each m(2), where r = r] t c(2,3) m(1) show ?thesis by simp
    qed (use m in simp)
  qed
next
  case (7 ms)
  have each: "reads_back v" if "(k, v) \<in> set ms" for k v
    using 7 that by fastforce
  show ?case
    unfolding reads_back_def
  proof (intro allI impI)
    fix n and r :: string assume n: "2 * length (stringify (JObj ms)) \<le> n"
    then obtain m where m: "n = Suc m" "2 * length (join_with '','' (map member_text ms)) < m"
      by (cases n) auto
    show "parse_value n (stringify (JObj ms) @ r) = Some (JObj ms, r)"
    proof (cases "ms = []")
      case False
      then obtain k v ys where ms: "ms = (k, v) # ys" by (cases ms) auto
      obtain t where t: "join_with '','' (map member_text ms) = quote_mark # t"
        using ms by (cases ys) (auto simp: json_string_first)
      have "object_of ms = JObj ms" using 7 by (intro object_of_distinct) simp
      with parse_members_print [OF False each m(2), where r = r] t m(1) show ?thesis by simp
    qed (use m in simp)
  qed
next
  case (4 l)
  then show ?case by simp
qed (rule reads_back_leaf; simp add: json_string_first parse_json_string parse_word_def)+

lemma parse_stringify: "printable j \<Longrightarrow> JSON_parse (stringify j) = Some j"
  using json_roundtrip [of j, unfolded reads_back_def, rule_format, of "[]" "2 * length (stringify j) + 2"]
  by (simp add: JSON_parse_def skip_ws_def del: parse_value.simps)

end
