(* ===== verification/Validation.thy ===== *)
theory Validation
  imports Json
begin

text \<open>
  Checks and classification of a validation run: \<open>agent/validation/classify.ts\<close>,
  \<open>agent/validation/retry.ts\<close> and \<open>agent/validation/structure.ts\<close>. The regular
  expressions of the source are written as matchers. Parameters: the SHA-256 digest, and
  \<open>JSON.parse\<close> on the text of \<open>package.json\<close>.
\<close>

section \<open>agent/validation/classify.ts\<close>

definition lower_char :: "char \<Rightarrow> char" where
  "lower_char c = (let n = of_char c :: nat in if 65 \<le> n \<and> n \<le> 90 then char_of (n + 32) else c)"

definition lower :: "string \<Rightarrow> string" where
  "lower = map lower_char"

definition word_char :: "char \<Rightarrow> bool" where
  "word_char c \<longleftrightarrow> is_alpha c \<or> is_digit c \<or> c = CHR ''_''"

text \<open>\<open>bounded_word p prev s\<close>: \<open>\bp\b\<close> matches in \<open>s\<close>, \<open>prev\<close> the character before it.\<close>

fun bounded_word :: "string \<Rightarrow> bool \<Rightarrow> string \<Rightarrow> bool" where
  "bounded_word p prev [] = False"
| "bounded_word p prev (c # cs) =
     ((\<not> prev \<and> starts_with p (c # cs) \<and>
       (case drop (length p) (c # cs) of [] \<Rightarrow> True | d # _ \<Rightarrow> \<not> word_char d)) \<or>
      bounded_word p (word_char c) cs)"

definition contains_i :: "string \<Rightarrow> string \<Rightarrow> bool" where
  "contains_i p s = has_substring (lower p) (lower s)"

definition infrastructurePatterns :: "(string \<Rightarrow> bool) list" where
  "infrastructurePatterns = [contains_i ''timed out'', contains_i ''EAI_AGAIN'',
     contains_i ''ENOTFOUND'', contains_i ''ECONNRESET'', contains_i ''ECONNREFUSED'',
     contains_i ''ETIMEDOUT'',
     (\<lambda>s. bounded_word ''500'' False s \<or> bounded_word ''502'' False s \<or>
          bounded_word ''503'' False s \<or> bounded_word ''504'' False s)]"

text \<open>\<open>/lock file.*out of sync/i\<close>: both parts on one line.\<close>

fun lock_out_of_sync :: "string \<Rightarrow> bool" where
  "lock_out_of_sync [] = False"
| "lock_out_of_sync (c # cs) =
     ((starts_with ''lock file'' (c # cs) \<and>
       has_substring ''out of sync''
         (takeWhile (\<lambda>d. d \<noteq> newline \<and> d \<noteq> char_of (13 :: nat)) (drop 9 (c # cs)))) \<or>
      lock_out_of_sync cs)"

definition dependencyPatterns :: "(string \<Rightarrow> bool) list" where
  "dependencyPatterns = [(\<lambda>s. bounded_word ''e404'' False (lower s)),
     (\<lambda>s. bounded_word ''eresolve'' False (lower s)),
     contains_i ''No matching version found'', (\<lambda>s. lock_out_of_sync (lower s))]"

record failure_diagnostic =
  fd_phase :: validation_phase
  fd_exitCode :: "int option"
  fd_stdout :: string
  fd_stderr :: string

definition classifyValidationFailure :: "failure_diagnostic \<Rightarrow> error_category" where
  "classifyValidationFailure d =
     (let out = fd_stdout d @ [newline] @ fd_stderr d
      in if fd_exitCode d = Some 124 \<or> list_ex (\<lambda>m. m out) infrastructurePatterns then INFRA_ERROR
         else if fd_phase d = PhDependencies
         then (if list_ex (\<lambda>m. m out) dependencyPatterns then DEPENDENCY_ERROR else DEPENDENCY_ERROR)
         else CODE_ERROR)"

text \<open>
  \<open>String.replace\<close> with a global expression: the matcher sees the preceding character and
  the rest of the string and answers the length of the match.
\<close>

function replace_matches ::
    "(char option \<Rightarrow> string \<Rightarrow> nat option) \<Rightarrow> string \<Rightarrow> char option \<Rightarrow> string \<Rightarrow> string" where
  "replace_matches m r prev [] = []"
| "replace_matches m r prev (c # cs) =
     (case m prev (c # cs) of
        None \<Rightarrow> c # replace_matches m r (Some c) cs
      | Some n \<Rightarrow> r @ replace_matches m r (Some ((c # cs) ! (min n (Suc (length cs)) - 1)))
          (drop (n - 1) cs))"
  by pat_completeness auto
termination by (relation "measure (\<lambda>(m, r, prev, s). length s)") auto

definition match_workspace :: "char option \<Rightarrow> string \<Rightarrow> nat option" where
  "match_workspace prev s =
     (let p = ''/tmp/v0-agent-runs/'';
          n = length (takeWhile (\<lambda>c. \<not> is_space c \<and> c \<noteq> CHR ''/'') (drop (length p) s))
      in if starts_with p s \<and> 0 < n then Some (length p + n) else None)"

definition match_timed_out :: "char option \<Rightarrow> string \<Rightarrow> nat option" where
  "match_timed_out prev s =
     (let p = ''timed out after ''; t = drop (length p) (lower s);
          n = length (takeWhile is_digit t)
      in if starts_with p (lower s) \<and> 0 < n \<and> starts_with ''ms'' (drop n t)
         then Some (length p + n + 2) else None)"

definition match_ms :: "nat \<Rightarrow> string \<Rightarrow> nat option" where
  "match_ms n t =
     (if starts_with ''ms'' (lower (drop n t)) \<and>
         (case drop (n + 2) t of [] \<Rightarrow> True | d # _ \<Rightarrow> \<not> word_char d)
      then Some (n + 2) else None)"

definition match_duration :: "char option \<Rightarrow> string \<Rightarrow> nat option" where
  "match_duration prev s =
     (let n = length (takeWhile is_digit s);
          k = length (takeWhile is_digit (drop (n + 1) s))
      in if n = 0 \<or> (case prev of None \<Rightarrow> False | Some c \<Rightarrow> word_char c) then None
         else if starts_with ''.'' (drop n s) \<and> 0 < k then match_ms (n + 1 + k) s
         else match_ms n s)"

definition match_spaces :: "char option \<Rightarrow> string \<Rightarrow> nat option" where
  "match_spaces prev s =
     (let n = length (takeWhile is_space s) in if 0 < n then Some n else None)"

definition normalizeDiagnostic :: "string \<Rightarrow> string" where
  "normalizeDiagnostic v =
     trim (replace_matches match_spaces '' '' None
      (replace_matches match_duration ''<duration>'' None
       (replace_matches match_timed_out ''timed out'' None
        (replace_matches match_workspace ''<workspace>'' None v))))"

fun phase_text :: "validation_phase \<Rightarrow> string" where
  "phase_text PhStructure = ''structure''"
| "phase_text PhDependencies = ''dependencies''"
| "phase_text PhTypeCheck = ''type-check''"
| "phase_text PhBuild = ''build''"

fun check_name_text :: "check_name \<Rightarrow> string" where
  "check_name_text NStructure = ''structure''"
| "check_name_text NInstall = ''install''"
| "check_name_text NTypeCheck = ''type-check''"
| "check_name_text NBuild = ''build''"

text \<open>One diagnostic as \<open>JSON.stringify\<close> prints it; an undefined exit code is left out.\<close>

definition diagnostic_json :: "check_result \<Rightarrow> string" where
  "diagnostic_json c =
     ''{'' @ json_string ''phase'' @ '':'' @
       json_string (case ck_phase c of Some p \<Rightarrow> phase_text p | None \<Rightarrow> check_name_text (ck_name c)) @
     (case ck_exitCode c of None \<Rightarrow> [] | Some e \<Rightarrow> '','' @ json_string ''exitCode'' @ '':'' @ show_int e) @
     '','' @ json_string ''stdout'' @ '':'' @ json_string (normalizeDiagnostic (ck_stdout c)) @
     '','' @ json_string ''stderr'' @ '':'' @ json_string (normalizeDiagnostic (ck_stderr c)) @ ''}''"

definition diagnosticFingerprint :: "(string \<Rightarrow> string) \<Rightarrow> validation_result \<Rightarrow> string" where
  "diagnosticFingerprint sha256 v =
     sha256 (''['' @ join_with '','' (map diagnostic_json (v_checks v)) @ '']'')"

section \<open>agent/validation/retry.ts\<close>

text \<open>The delays still to come stand for \<open>retryDelaysMs\<close> from the current attempt on.\<close>

fun infra_retry :: "('e \<Rightarrow> error_category option) \<Rightarrow> (nat \<Rightarrow> ('s, 'e, 'a) comp) \<Rightarrow>
    ('e \<Rightarrow> nat \<Rightarrow> int \<Rightarrow> ('s, 'e, unit) comp) \<Rightarrow> (int \<Rightarrow> ('s, 'e, unit) comp) \<Rightarrow>
    nat \<Rightarrow> int list \<Rightarrow> ('s, 'e, 'a) comp" where
  "infra_retry category operation onRetry delay attempt [] =
     catch (operation attempt) (\<lambda>e. throw e)"
| "infra_retry category operation onRetry delay attempt (d # ds) =
     catch (operation attempt) (\<lambda>e.
       if category e \<noteq> Some INFRA_ERROR then throw e
       else seq (onRetry e (attempt + 1) d) (\<lambda>_. seq (delay d) (\<lambda>_.
              infra_retry category operation onRetry delay (attempt + 1) ds)))"

definition runWithInfrastructureRetry where
  "runWithInfrastructureRetry category retryDelaysMs operation onRetry delay =
     infra_retry category operation onRetry delay 0 retryDelaysMs"

section \<open>agent/validation/structure.ts\<close>

text \<open>The parameter \<open>parse\<close> stands for \<open>JSON.parse\<close>; the server calls it with \<open>JSON_parse\<close>.\<close>

text \<open>\<open>v?.[k]\<close> on a possibly missing value, and the test \<open>typeof v === 'string'\<close>.\<close>

definition member_of :: "json option \<Rightarrow> string \<Rightarrow> json option" where
  "member_of v k = (case v of Some (JObj m) \<Rightarrow> map_of m k | _ \<Rightarrow> None)"

definition is_json_string :: "json option \<Rightarrow> bool" where
  "is_json_string v = (case v of Some (JStr _) \<Rightarrow> True | _ \<Rightarrow> False)"

datatype structure_result = StructurePassed | StructureFailed error_category string

definition requiredPaths :: "string list" where
  "requiredPaths = [''package.json'', ''index.html'', ''src/App.tsx'']"

definition acceptedMainPaths :: "string list" where
  "acceptedMainPaths = [''src/main.tsx'', ''src/index.tsx'']"

definition structure_path :: "project_file \<Rightarrow> string" where
  "structure_path f = posix_normalize (replace_char backslash CHR ''/'' (path f))"

fun scan_paths :: "string list \<Rightarrow> project_file list \<Rightarrow> structure_result + string list" where
  "scan_paths seen [] = Inr seen"
| "scan_paths seen (f # fs) =
     (let normalized = structure_path f
      in if posix_isAbsolute normalized \<or> normalized = ''..'' \<or> starts_with ''../'' normalized
         then Inl (StructureFailed CODE_ERROR (''Unsafe project file path: '' @ path f))
         else if normalized \<in> set seen
         then Inl (StructureFailed CODE_ERROR (''Duplicate project file path: '' @ normalized))
         else scan_paths (seen @ [normalized]) fs)"

definition check_scripts :: "json \<Rightarrow> structure_result" where
  "check_scripts pkg =
     (case find (\<lambda>k. \<not> is_json_string (member_of (member_of (Some pkg) ''scripts'') k))
             [''type-check'', ''build''] of
        Some k \<Rightarrow> StructureFailed DEPENDENCY_ERROR (''package.json is missing the required '' @ k @ '' script'')
      | None \<Rightarrow>
          (case find (\<lambda>k. \<not> is_json_string (member_of (member_of (Some pkg) ''dependencies'') k))
                  [''react'', ''react-dom''] of
             Some k \<Rightarrow> StructureFailed DEPENDENCY_ERROR
               (''package.json is missing the required '' @ k @ '' dependency'')
           | None \<Rightarrow> StructurePassed))"

definition check_package :: "(string \<Rightarrow> json option) \<Rightarrow> project_file list \<Rightarrow>
    js_error + structure_result" where
  "check_package parse files =
     (case find (\<lambda>f. path f = ''package.json'') files of
        None \<Rightarrow> Inr (StructureFailed DEPENDENCY_ERROR ''package.json is not valid JSON'')
      | Some f \<Rightarrow>
          (case parse (content f) of
             None \<Rightarrow> Inr (StructureFailed DEPENDENCY_ERROR ''package.json is not valid JSON'')
           | Some JNull \<Rightarrow> Inl (plain_error ''Cannot read properties of null (reading 'scripts')'')
           | Some pkg \<Rightarrow> Inr (check_scripts pkg)))"

definition validateProjectStructure :: "(string \<Rightarrow> json option) \<Rightarrow> project_file list \<Rightarrow>
    js_error + structure_result" where
  "validateProjectStructure parse files =
     (case scan_paths [] files of
        Inl failure \<Rightarrow> Inr failure
      | Inr paths \<Rightarrow>
          (case find (\<lambda>p. p \<notin> set paths) requiredPaths of
             Some missing \<Rightarrow> Inr (StructureFailed CODE_ERROR
               (''Required project file is missing: '' @ missing))
           | None \<Rightarrow>
               if \<not> list_ex (\<lambda>p. p \<in> set paths) acceptedMainPaths
               then Inr (StructureFailed CODE_ERROR
                 ''Required React entry is missing: src/main.tsx or src/index.tsx'')
               else check_package parse files))"

section \<open>Lemmas\<close>

text \<open>The attempt that decides a retry loop: the first that is not an infrastructure failure.\<close>

definition infra_failure :: "('e \<Rightarrow> error_category option) \<Rightarrow> ('e + 'a) \<Rightarrow> bool" where
  "infra_failure category r = (case r of Inl e \<Rightarrow> category e = Some INFRA_ERROR | Inr _ \<Rightarrow> False)"

definition deciding_attempt :: "('e \<Rightarrow> error_category option) \<Rightarrow> (nat \<Rightarrow> 'e + 'a) \<Rightarrow> nat \<Rightarrow> nat" where
  "deciding_attempt category f n = length (takeWhile (\<lambda>i. infra_failure category (f i)) [0..<n])"

text \<open>An operation with the given outcomes that records its attempts, and recorded pauses.\<close>

definition logged :: "(nat \<Rightarrow> 'e + 'a) \<Rightarrow> nat \<Rightarrow> (nat list \<times> int list, 'e, 'a) comp" where
  "logged f i = (\<lambda>(tries, waits). (f i, (tries @ [i], waits)))"

definition logged_wait :: "int \<Rightarrow> (nat list \<times> int list, 'e, unit) comp" where
  "logged_wait d = (\<lambda>(tries, waits). (Inr (), (tries, waits @ [d])))"

lemma infra_retry_logged:
  "infra_retry category (logged f) (\<lambda>e i d. ret ()) logged_wait n ds (tries, waits) =
     (let k = length (takeWhile (\<lambda>i. infra_failure category (f i)) [n..<n + length ds])
      in (f (n + k), (tries @ [n..<Suc (n + k)], waits @ take k ds)))"
proof (induction ds arbitrary: n tries waits)
  case Nil
  then show ?case
    by (cases "f n") (simp_all add: catch_def logged_def throw_def)
next
  case (Cons d ds)
  have r: "[n..<n + length (d # ds)] = n # [Suc n..<Suc n + length ds]"
    by (simp add: upt_rec)
  show ?case
  proof (cases "infra_failure category (f n)")
    case True
    then obtain e where e: "f n = Inl e" "category e = Some INFRA_ERROR"
      by (auto simp: infra_failure_def split: sum.splits)
    have step: "infra_retry category (logged f) (\<lambda>e i d. ret ()) logged_wait n (d # ds) (tries, waits) =
      infra_retry category (logged f) (\<lambda>e i d. ret ()) logged_wait (Suc n) ds (tries @ [n], waits @ [d])"
      by (simp add: e catch_def seq_def ret_def logged_def logged_wait_def)
    show ?thesis
      unfolding step Cons.IH r using True by (simp add: Let_def upt_rec [of n])
  next
    case False
    then show ?thesis unfolding r
      by (cases "f n") (simp_all add: infra_failure_def catch_def logged_def throw_def)
  qed
qed

definition inside_root :: "string \<Rightarrow> bool" where
  "inside_root p \<longleftrightarrow> \<not> (posix_isAbsolute p \<or> p = ''..'' \<or> starts_with ''../'' p)"

lemma scan_paths_Inr: "distinct seen \<Longrightarrow> scan_paths seen fs = Inr ps \<longleftrightarrow>
    ps = seen @ map structure_path fs \<and> distinct (seen @ map structure_path fs) \<and>
    list_all (\<lambda>f. inside_root (structure_path f)) fs"
proof (induction fs arbitrary: seen)
  case Nil
  then show ?case by auto
next
  case (Cons f fs)
  define p where "p = structure_path f"
  have step: "scan_paths seen (f # fs) = Inr ps \<longleftrightarrow>
      inside_root p \<and> p \<notin> set seen \<and> scan_paths (seen @ [p]) fs = Inr ps"
    unfolding scan_paths.simps Let_def inside_root_def p_def [symmetric] by (simp split: if_split)
  show ?case
  proof (cases "p \<in> set seen")
    case True
    then show ?thesis unfolding step by (auto simp: p_def)
  next
    case False
    with Cons.prems have "distinct (seen @ [p])" by simp
    from Cons.IH [OF this] have "scan_paths (seen @ [p]) fs = Inr ps \<longleftrightarrow>
      ps = (seen @ [p]) @ map structure_path fs \<and> distinct ((seen @ [p]) @ map structure_path fs) \<and>
      list_all (\<lambda>f. inside_root (structure_path f)) fs" .
    then show ?thesis using False unfolding step by (simp only: p_def [symmetric] list.map
        list.pred_inject append.assoc append_Cons append_Nil) blast
  qed
qed

lemma scan_paths_fails: "scan_paths seen fs = Inl r \<Longrightarrow> r \<noteq> StructurePassed"
  by (induction seen fs rule: scan_paths.induct) (auto simp: Let_def split: if_splits)

lemma check_scripts_passed: "check_scripts pkg = StructurePassed \<longleftrightarrow>
    list_all (\<lambda>k. is_json_string (member_of (member_of (Some pkg) ''scripts'') k))
      [''type-check'', ''build''] \<and>
    list_all (\<lambda>k. is_json_string (member_of (member_of (Some pkg) ''dependencies'') k))
      [''react'', ''react-dom'']"
  by (simp add: check_scripts_def)

lemma find_missing: "find (\<lambda>p. p \<notin> A) xs = None \<longleftrightarrow> set xs \<subseteq> A"
  by (auto simp: find_None_iff)

section \<open>Properties\<close>

text \<open>C14: \<open>runWithInfrastructureRetry\<close>, for every sequence of outcomes of the operation: the
  attempts made are exactly 0, 1, ..., k in order, where k is the first attempt that does not
  fail with an infrastructure error, or the number of configured delays if all before fail so;
  the outcome of attempt k is the result, and before it exactly the first k delays were waited.\<close>

theorem infrastructure_retry_outcome:
  "runWithInfrastructureRetry category delays (logged f) (\<lambda>e i d. ret ()) logged_wait ([], []) =
     (let k = deciding_attempt category f (length delays)
      in (f k, ([0..<Suc k], take k delays)))"
  unfolding runWithInfrastructureRetry_def infra_retry_logged deciding_attempt_def by simp

text \<open>C15: The structure check passes exactly when no file path leaves the project, no two files
  have the same normalised path, the three required files and one of the accepted entries exist,
  and the text of \<open>package.json\<close> parses to a value whose \<open>type-check\<close> and \<open>build\<close> scripts
  and \<open>react\<close> and \<open>react-dom\<close> dependencies are strings.\<close>

theorem structure_passed_iff:
  "validateProjectStructure parse files = Inr StructurePassed \<longleftrightarrow>
     list_all (\<lambda>f. inside_root (structure_path f)) files \<and>
     distinct (map structure_path files) \<and>
     set requiredPaths \<subseteq> structure_path ` set files \<and>
     (\<exists>p\<in>set acceptedMainPaths. p \<in> structure_path ` set files) \<and>
     (\<exists>f pkg. find (\<lambda>f. path f = ''package.json'') files = Some f \<and>
        parse (content f) = Some pkg \<and> pkg \<noteq> JNull \<and>
        list_all (\<lambda>k. is_json_string (member_of (member_of (Some pkg) ''scripts'') k))
          [''type-check'', ''build''] \<and>
        list_all (\<lambda>k. is_json_string (member_of (member_of (Some pkg) ''dependencies'') k))
          [''react'', ''react-dom''])"
proof (cases "scan_paths [] files")
  case (Inl r)
  then have "r \<noteq> StructurePassed"
    using scan_paths_fails by blast
  moreover have "\<not> (distinct (map structure_path files) \<and>
      list_all (\<lambda>f. inside_root (structure_path f)) files)"
    using scan_paths_Inr [of "[]" files] Inl by simp
  ultimately show ?thesis using Inl by (auto simp: validateProjectStructure_def)
next
  case (Inr ps)
  then have ps: "ps = map structure_path files" "distinct (map structure_path files)"
    "list_all (\<lambda>f. inside_root (structure_path f)) files"
    using scan_paths_Inr [of "[]" files] by auto
  have pkg: "check_package parse files = Inr StructurePassed \<longleftrightarrow>
     (\<exists>f pkg. find (\<lambda>f. path f = ''package.json'') files = Some f \<and>
        parse (content f) = Some pkg \<and> pkg \<noteq> JNull \<and> check_scripts pkg = StructurePassed)"
    by (auto simp: check_package_def split: option.split json.split)
  show ?thesis
  proof (cases "find (\<lambda>p. p \<notin> set ps) requiredPaths")
    case None
    then have "set requiredPaths \<subseteq> set ps" by (simp only: find_missing)
    with None Inr ps show ?thesis
      by (auto simp: validateProjectStructure_def list_ex_iff pkg check_scripts_passed)
  next
    case (Some m)
    then have "\<not> set requiredPaths \<subseteq> set ps" using find_missing by (metis option.distinct(1))
    with Some Inr ps show ?thesis by (simp add: validateProjectStructure_def)
  qed
qed

text \<open>
  The pattern for HTTP status codes also matches source positions: a type error reported at line
  502 is classified as an infrastructure failure, which the caller retries instead of repairing.
\<close>

lemma position_classified_as_infra:
  "classifyValidationFailure \<lparr>fd_phase = PhTypeCheck, fd_exitCode = Some 2,
     fd_stdout = ''src/App.tsx(502,10): error TS2304'', fd_stderr = []\<rparr> = INFRA_ERROR"
  by code_simp

end
