(* ===== verification/Generation.thy ===== *)
theory Generation
  imports Validation
begin

text \<open>
  The generation pipeline of \<open>agent/orchestrator.ts\<close> between the language model and the
  validator: \<open>runAgentGeneration\<close>, the validate-and-repair loop
  \<open>runAgentGenerationWithValidation\<close>, \<open>combineUsage\<close> and \<open>publicAgentError\<close>. The
  functions are polymorphic in the store \<open>'s\<close> their callbacks work on; the orchestrator
  instantiates it with the database. Model client and validator are arguments.
\<close>

section \<open>Events and inputs\<close>

record validation_progress =
  vp_phase :: validation_phase
  vp_status :: "check_status option"
  vp_category :: "error_category option"
  vp_attempt :: nat
  vp_retryDelayMs :: "int option"
  vp_cache :: "cache_state option"
  vp_stylingIssues :: "styling_issue list option"
  vp_message :: string

datatype payload = PhasePayload string "nat option" | PlanPayload agent_plan
  | FilePayload string string "nat option" | ValidationPayload validation_result
  | ProgressPayload validation_progress
  | CompletedPayload object_id nat "object_id option" bool bool | CodePayload string

record worker_event =
  we_type :: agent_event_type
  we_message :: string
  we_payload :: "payload option"

record sandbox_scope =
  sc_workspaceId :: object_id
  sc_projectId :: object_id
  sc_branchId :: object_id
  sc_requestedByUserId :: object_id
  sc_runId :: object_id
  sc_attempt :: nat

record validate_input =
  vi_runId :: string
  vi_files :: "project_file list"
  vi_sandboxScope :: "sandbox_scope option"

type_synonym 's validator = "validate_input \<Rightarrow> (validation_progress \<Rightarrow> ('s, js_error, unit) comp) \<Rightarrow>
  ('s, js_error, validation_result) comp"

text \<open>Functions of the host the code calls: the collation order and SHA-256.\<close>

record host =
  h_collate :: "string \<Rightarrow> string \<Rightarrow> bool"
  h_sha256 :: "string \<Rightarrow> string"

record 's generation_input =
  gi_context :: agent_context
  gi_baseFiles :: "project_file list"
  gi_basePackageJson :: "package_json option"
  gi_generatedByRunId :: "object_id option"
  gi_modelClient :: model_client
  gi_onEvent :: "worker_event \<Rightarrow> ('s, js_error, unit) comp"

record 's validated_input = "'s generation_input" +
  gi_validator :: "'s validator"
  gi_runId :: string
  gi_sandboxScope :: "sandbox_scope option"
  gi_maxRepairAttempts :: nat

record generation_output =
  go_files :: "project_file list"
  go_packageJson :: package_json
  go_summary :: string
  go_usage :: "model_usage option"
  go_plan :: agent_plan

record validated_output = generation_output +
  go_validation :: validation_result
  go_repairAttempts :: nat

definition event :: "agent_event_type \<Rightarrow> string \<Rightarrow> payload option \<Rightarrow> worker_event" where
  "event t m p = \<lparr>we_type = t, we_message = m, we_payload = p\<rparr>"

fun op_type_text :: "file_operation \<Rightarrow> string" where
  "op_type_text (CreateFile _ _) = ''create''"
| "op_type_text (UpdateFile _ _) = ''update''"
| "op_type_text (DeleteFile _) = ''delete''"

definition file_event :: "nat option \<Rightarrow> file_operation \<Rightarrow> worker_event" where
  "file_event repairAttempt op = event FileChanged (op_type_text op @ '' '' @ op_path op)
     (Some (FilePayload (op_type_text op) (op_path op) repairAttempt))"

section \<open>combineUsage\<close>

definition sum_tokens :: "nat option \<Rightarrow> nat option \<Rightarrow> nat option" where
  "sum_tokens l r = (if l = None \<and> r = None then None
     else Some ((case l of None \<Rightarrow> 0 | Some n \<Rightarrow> n) + (case r of None \<Rightarrow> 0 | Some n \<Rightarrow> n)))"

definition combineUsage :: "model_usage option \<Rightarrow> model_usage option \<Rightarrow> model_usage option" where
  "combineUsage first second =
     (if first = None \<and> second = None then None
      else let part = \<lambda>f u. Option.bind u f
           in Some \<lparr>inputTokens = sum_tokens (part inputTokens first) (part inputTokens second),
                    outputTokens = sum_tokens (part outputTokens first) (part outputTokens second),
                    totalTokens = sum_tokens (part totalTokens first) (part totalTokens second)\<rparr>)"

section \<open>runAgentGeneration\<close>

definition no_effective_changes :: "string \<Rightarrow> js_error" where
  "no_effective_changes what =
     coded_error ''NO_EFFECTIVE_CHANGES'' (''The model did not produce any effective '' @ what @ '' changes'')"

definition runAgentGeneration :: "host \<Rightarrow> ('s, 'z) generation_input_scheme \<Rightarrow>
    ('s, js_error, generation_output) comp" where
  "runAgentGeneration h input =
     seq (gi_onEvent input (event AgentStep ''Planning project changes''
            (Some (PhasePayload ''planning'' None)))) (\<lambda>_.
     seq (lift_result (generatePlan (gi_modelClient input) (gi_context input))) (\<lambda>planned.
     seq (gi_onEvent input (event AgentPlanEvent (plan_summary (mr_value planned))
            (Some (PlanPayload (mr_value planned))))) (\<lambda>_.
     seq (gi_onEvent input (event AgentStep ''Generating React TypeScript files''
            (Some (PhasePayload ''generating'' None)))) (\<lambda>_.
     seq (lift_result (generateFiles (gi_modelClient input) (gi_context input) (mr_value planned)))
       (\<lambda>generated.
     let operations = g_operations (mr_value generated)
     in if cx_mode (gi_context input) = EditMode \<and>
           \<not> hasEffectiveFileChanges (gi_baseFiles input) operations
        then throw (no_effective_changes ''file'')
        else let packageJson = mergeProjectPackageJson (h_collate h) (gi_basePackageJson input)
                   (mr_value generated)
             in seq (lift_result (applyFileOperations (h_collate h) (gi_baseFiles input) operations
                      (gi_generatedByRunId input))) (\<lambda>applied.
                seq (lift_result (writeServerPackageJson (h_collate h) applied packageJson
                      (gi_generatedByRunId input))) (\<lambda>files.
                seq (for_each operations (\<lambda>op. gi_onEvent input (file_event None op))) (\<lambda>_.
                ret \<lparr>go_files = files, go_packageJson = packageJson,
                     go_summary = g_message (mr_value generated),
                     go_usage = combineUsage (mr_usage planned) (mr_usage generated),
                     go_plan = mr_value planned\<rparr>))))))))"

section \<open>runAgentGenerationWithValidation\<close>

record loop_state =
  ls_files :: "project_file list"
  ls_packageJson :: package_json
  ls_summary :: string
  ls_usage :: "model_usage option"
  ls_plan :: agent_plan
  ls_repairAttempts :: nat
  ls_seen :: "string list"

definition validation_error :: "string \<Rightarrow> string \<Rightarrow> validation_result \<Rightarrow> js_error" where
  "validation_error code msg v = (coded_error code msg)\<lparr>err_details := Some v\<rparr>"

definition not_verified_error :: "validation_result \<Rightarrow> js_error" where
  "not_verified_error v = validation_error ''VALIDATION_NOT_VERIFIED''
     ''Simulated Sandbox validation cannot verify a project build'' v"

definition infra_error :: "validation_result \<Rightarrow> js_error" where
  "infra_error v = validation_error ''VALIDATION_INFRA_ERROR''
     ''Validation environment is temporarily unavailable'' v"

text \<open>The call of the validator that opens a round; its progress events are forwarded.\<close>

definition validate_round :: "('s, 'z) validated_input_scheme \<Rightarrow> loop_state \<Rightarrow>
    ('s, js_error, validation_result) comp" where
  "validate_round input st =
     seq (gi_onEvent input (event ValidationStarted ''Validating generated project''
            (Some (PhasePayload ''validating'' (Some (ls_repairAttempts st)))))) (\<lambda>_.
     gi_validator input
       \<lparr>vi_runId = gi_runId input @ ''-'' @ show_nat (ls_repairAttempts st),
        vi_files = ls_files st,
        vi_sandboxScope = map_option (\<lambda>sc. sc\<lparr>sc_attempt := ls_repairAttempts st\<rparr>)
                            (gi_sandboxScope input)\<rparr>
       (\<lambda>progress. gi_onEvent input (event ValidationStep (vp_message progress)
                     (Some (ProgressPayload progress)))))"

definition request_repair :: "model_client \<Rightarrow> error_category option \<Rightarrow> repair_input \<Rightarrow>
    js_error + generation_result model_result" where
  "request_repair client category ri =
     (if category = Some DEPENDENCY_ERROR
      then (case repairDependencies client of Some f \<Rightarrow> f ri | None \<Rightarrow> repairFiles client ri)
      else repairFiles client ri)"

text \<open>\<open>JSON.stringify\<close> without indentation.\<close>

definition compact_record :: "dep_map \<Rightarrow> string" where
  "compact_record m = ''{'' @ join_with '',''
     (map (\<lambda>(k, v). json_string k @ '':'' @ json_string v) m) @ ''}''"

definition compactPackage :: "package_json \<Rightarrow> string" where
  "compactPackage p =
     ''{'' @ json_string ''dependencies'' @ '':'' @ compact_record (dependencies p) @ '','' @
     json_string ''devDependencies'' @ '':'' @ compact_record (devDependencies p) @ '','' @
     json_string ''scripts'' @ '':'' @ compact_record (scripts p) @ ''}''"

definition repair_changed :: "package_json \<Rightarrow> package_json \<Rightarrow> project_file list \<Rightarrow>
    project_file list \<Rightarrow> bool" where
  "repair_changed before after files_before files_after \<longleftrightarrow>
     compactPackage after \<noteq> compactPackage before \<or>
     list_ex (\<lambda>f. lookup_last (path f) (map (\<lambda>f. (path f, content f)) files_before) \<noteq> Some (content f))
       files_after \<or>
     list_ex (\<lambda>f. \<not> list_ex (\<lambda>g. path g = path f) files_after) files_before"

text \<open>One repair: the model's answer applied to the current project.\<close>

definition repair_round :: "host \<Rightarrow> ('s, 'z) validated_input_scheme \<Rightarrow> loop_state \<Rightarrow>
    validation_result \<Rightarrow> ('s, js_error, loop_state) comp" where
  "repair_round h input st v =
     (let attempt = ls_repairAttempts st + 1
      in seq (gi_onEvent input (event RepairStarted
                (''Repair attempt '' @ show_nat attempt @ '' started'')
                (Some (PhasePayload ''repairing'' (Some attempt))))) (\<lambda>_.
         seq (lift_result (request_repair (gi_modelClient input) (v_category v)
                \<lparr>ri_context = gi_context input, ri_plan = ls_plan st, ri_attempt = attempt,
                 ri_files = ls_files st, ri_validation = v\<rparr>)) (\<lambda>repaired.
         let operations = g_operations (mr_value repaired);
             packageJson = mergeProjectPackageJson (h_collate h) (Some (ls_packageJson st))
                             (mr_value repaired)
         in seq (lift_result (applyFileOperations (h_collate h) (ls_files st) operations
                   (gi_generatedByRunId input))) (\<lambda>applied.
            if \<not> repair_changed (ls_packageJson st) packageJson (ls_files st) applied
            then throw (no_effective_changes ''repair'')
            else seq (lift_result (writeServerPackageJson (h_collate h) applied packageJson
                        (gi_generatedByRunId input))) (\<lambda>files.
                 seq (gi_onEvent input (event AgentStep
                        (''Applied repair attempt '' @ show_nat attempt)
                        (Some (PhasePayload ''generating'' (Some attempt))))) (\<lambda>_.
                 seq (for_each operations
                        (\<lambda>op. gi_onEvent input (file_event (Some attempt) op))) (\<lambda>_.
                 ret (st\<lparr>ls_files := files, ls_packageJson := packageJson,
                         ls_summary := g_message (mr_value repaired),
                         ls_usage := combineUsage (ls_usage st) (mr_usage repaired),
                         ls_repairAttempts := attempt\<rparr>))))))))"

definition output_of :: "loop_state \<Rightarrow> validation_result \<Rightarrow> validated_output" where
  "output_of st v = \<lparr>go_files = ls_files st, go_packageJson = ls_packageJson st,
     go_summary = ls_summary st, go_usage = ls_usage st, go_plan = ls_plan st,
     go_validation = v, go_repairAttempts = ls_repairAttempts st\<rparr>"

text \<open>
  One pass of the \<open>for (;;)\<close> loop; \<open>again\<close> is the next pass. The loop is given fuel; the
  guard on \<open>repairAttempts\<close> makes \<open>maxRepairAttempts + 1\<close> passes enough, so that the error
  \<open>out_of_fuel\<close> is never thrown (\<open>enough_fuel\<close> below).
\<close>

definition loop_pass :: "host \<Rightarrow> ('s, 'z) validated_input_scheme \<Rightarrow>
    (loop_state \<Rightarrow> ('s, js_error, validated_output) comp) \<Rightarrow> loop_state \<Rightarrow>
    ('s, js_error, validated_output) comp" where
  "loop_pass h input again st =
     seq (validate_round input st) (\<lambda>v.
     if v_status v = VPassed \<and> v_verification v = Some Simulated
     then seq (gi_onEvent input (event ValidationFailed
                 ''Project validation was simulated and is not verified''
                 (Some (ValidationPayload v)))) (\<lambda>_. throw (not_verified_error v))
     else if v_status v = VPassed
     then seq (gi_onEvent input (event ValidationPassed ''Project validation passed''
                 (Some (ValidationPayload v)))) (\<lambda>_. ret (output_of st v))
     else seq (gi_onEvent input (event ValidationFailed ''Project validation failed''
                 (Some (ValidationPayload v)))) (\<lambda>_.
          if v_category v = Some INFRA_ERROR
          then throw ((infra_error v)\<lparr>err_candidate :=
                        Some (ls_files st, ls_packageJson st, ls_summary st)\<rparr>)
          else let fingerprint = diagnosticFingerprint (h_sha256 h) v
               in if fingerprint \<in> set (ls_seen st)
                  then throw (validation_error ''REPEATED_VALIDATION_FAILURE''
                                ''Validation repair repeated the same failure'' v)
                  else if gi_maxRepairAttempts input \<le> ls_repairAttempts st
                  then throw (validation_error ''VALIDATION_FAILED''
                                ''Generated project failed validation'' v)
                  else seq (repair_round h input (st\<lparr>ls_seen := fingerprint # ls_seen st\<rparr>) v) again))"

definition out_of_fuel :: js_error where
  "out_of_fuel = plain_error ''out of fuel''"

primrec validation_loop :: "host \<Rightarrow> ('s, 'z) validated_input_scheme \<Rightarrow> nat \<Rightarrow> loop_state \<Rightarrow>
    ('s, js_error, validated_output) comp" where
  "validation_loop h input 0 = (\<lambda>st. throw out_of_fuel)"
| "validation_loop h input (Suc fuel) = loop_pass h input (validation_loop h input fuel)"

definition initial_loop_state :: "generation_output \<Rightarrow> loop_state" where
  "initial_loop_state g = \<lparr>ls_files = go_files g, ls_packageJson = go_packageJson g,
     ls_summary = go_summary g, ls_usage = go_usage g, ls_plan = go_plan g,
     ls_repairAttempts = 0, ls_seen = []\<rparr>"

definition runAgentGenerationWithValidation :: "host \<Rightarrow> ('s, 'z) validated_input_scheme \<Rightarrow>
    ('s, js_error, validated_output) comp" where
  "runAgentGenerationWithValidation h input =
     seq (runAgentGeneration h input) (\<lambda>generated.
       validation_loop h input (Suc (gi_maxRepairAttempts input)) (initial_loop_state generated))"

section \<open>publicAgentError\<close>

definition knownCodes :: "string list" where
  "knownCodes = [''PROJECT_NOT_FOUND'', ''INVALID_CHAT_BRANCH'', ''BRANCH_EXECUTION_LOST'',
     ''INVALID_BASE_SNAPSHOT'', ''INVALID_MODEL_OUTPUT'', ''MODEL_REQUEST_FAILED'',
     ''MODEL_CONFIGURATION_ERROR'', ''MODEL_CONFIGURATION_MISMATCH'', ''MODEL_NOT_AVAILABLE'',
     ''NO_EFFECTIVE_CHANGES'', ''REPEATED_VALIDATION_FAILURE'', ''VALIDATION_INFRA_ERROR'',
     ''VALIDATION_NOT_VERIFIED'', ''VALIDATION_FAILED'', ''VALIDATION_CANDIDATE_NOT_FOUND'',
     ''VALIDATION_CANDIDATE_EXPIRED'', ''ARTIFACT_STORE_UNAVAILABLE'', ''ARTIFACT_WRITE_FAILED'',
     ''ARTIFACT_NOT_FOUND'', ''ARTIFACT_CORRUPT'', ''ARTIFACT_FORMAT_UNSUPPORTED'',
     ''ARTIFACT_LIMIT_EXCEEDED'', ''ARTIFACT_INVALID_PATH'', ''ARTIFACT_INVALID_BUNDLE'',
     ''ARTIFACT_IDEMPOTENCY_CONFLICT'']"

record public_error =
  pe_code :: string
  pe_message :: string
  pe_details :: "validation_result option"

definition publicAgentError :: "js_error \<Rightarrow> public_error" where
  "publicAgentError e =
     (let code = (case err_code e of
                    Some c \<Rightarrow> if c \<in> set knownCodes then c else ''AGENT_RUN_FAILED''
                  | None \<Rightarrow> ''AGENT_RUN_FAILED'')
      in \<lparr>pe_code = code,
          pe_message = (if code = ''AGENT_RUN_FAILED'' then ''Agent run failed'' else err_message e),
          pe_details = err_details e\<rparr>)"

section \<open>What a successful generation guarantees\<close>

text \<open>A project the pipeline may hand to the validator.\<close>

definition project_ok :: "project_file list \<Rightarrow> package_json \<Rightarrow> bool" where
  "project_ok files pkg \<longleftrightarrow> distinct (map path files) \<and>
     list_all (\<lambda>f. safe_project_path (path f) \<and>
                   inferProjectFileLanguage (path f) = Inr (language f)) files \<and>
     file_view files ''package.json'' = Some (stringifyPackage pkg @ [newline])"

lemma writeServerPackageJson_ok:
  assumes "writeServerPackageJson collate files pkg rid = Inr fs"
  shows "project_ok fs pkg"
proof -
  define op where "op = (if list_ex (\<lambda>f. path f = ''package.json'') files
      then UpdateFile ''package.json'' (stringifyPackage pkg @ [newline])
      else CreateFile ''package.json'' (stringifyPackage pkg @ [newline]))"
  have fs: "applyFileOperations collate files [op] rid = Inr fs"
    using assms unfolding writeServerPackageJson_def op_def Let_def .
  have "normalizeProjectPath ''package.json'' = Inr ''package.json''" by code_simp
  then have "file_view fs ''package.json'' = Some (stringifyPackage pkg @ [newline])"
    using apply_file_view [OF fs, of "''package.json''"]
    by (simp add: expected_content_def op_def written_content_def)
  with apply_paths_safe [OF fs] show ?thesis by (simp add: project_ok_def)
qed

definition state_ok :: "nat \<Rightarrow> loop_state \<Rightarrow> bool" where
  "state_ok bound st \<longleftrightarrow> project_ok (ls_files st) (ls_packageJson st) \<and> ls_repairAttempts st \<le> bound"

definition answer_of :: "'s validator \<Rightarrow> project_file list \<Rightarrow> validation_result \<Rightarrow> bool" where
  "answer_of validator files v \<longleftrightarrow>
     (\<exists>vi progress s t. vi_files vi = files \<and> validator vi progress s = (Inr v, t))"

definition verified_output :: "('s, 'z) validated_input_scheme \<Rightarrow> nat \<Rightarrow> validated_output \<Rightarrow> bool" where
  "verified_output input bound out \<longleftrightarrow>
     v_status (go_validation out) = VPassed \<and>
     v_verification (go_validation out) \<noteq> Some Simulated \<and>
     answer_of (gi_validator input) (go_files out) (go_validation out) \<and>
     project_ok (go_files out) (go_packageJson out) \<and>
     go_repairAttempts out \<le> bound"

lemma validate_round_answers:
  "returns (answer_of (gi_validator input) (ls_files st)) (validate_round input st)"
  unfolding validate_round_def
  by (rule returns_seq) (auto simp: returns_def answer_of_def intro!: exI)

lemma repair_round_ok: "state_ok n st \<Longrightarrow> returns (state_ok (Suc n)) (repair_round h input st v)"
  unfolding repair_round_def
  by (intro returns_intros returns_seq_with [where Q = "\<lambda>fs. project_ok fs _"] returns_lift)
     (auto simp: state_ok_def intro: writeServerPackageJson_ok)

lemma repair_round_attempts:
  "returns (\<lambda>st'. ls_repairAttempts st' = Suc (ls_repairAttempts st)) (repair_round h input (st\<lparr>ls_seen := x\<rparr>) v)"
  unfolding repair_round_def by (intro returns_intros) simp

lemma loop_pass_ok:
  assumes st: "state_ok (gi_maxRepairAttempts input) st"
    and again: "\<And>st'. state_ok (gi_maxRepairAttempts input) st' \<Longrightarrow>
      returns (verified_output input (gi_maxRepairAttempts input)) (again st')"
  shows "returns (verified_output input (gi_maxRepairAttempts input)) (loop_pass h input again st)"
proof -
  let ?P = "verified_output input (gi_maxRepairAttempts input)"
  have out: "?P (output_of st v)"
    if "answer_of (gi_validator input) (ls_files st) v" "v_status v = VPassed"
      "\<not> (v_status v = VPassed \<and> v_verification v = Some Simulated)" for v
    using that st by (auto simp: verified_output_def output_of_def state_ok_def)
  have rep: "returns ?P (seq (repair_round h input (st\<lparr>ls_seen := x\<rparr>) v) again)"
    if "\<not> gi_maxRepairAttempts input \<le> ls_repairAttempts st" for x v
  proof (rule returns_seq_with)
    show "returns (state_ok (Suc (ls_repairAttempts st))) (repair_round h input (st\<lparr>ls_seen := x\<rparr>) v)"
      by (rule repair_round_ok) (use st in \<open>simp add: state_ok_def\<close>)
    show "returns ?P (again st')" if "state_ok (Suc (ls_repairAttempts st)) st'" for st'
      by (rule again) (use that \<open>\<not> _ \<le> _\<close> in \<open>simp add: state_ok_def\<close>)
  qed
  show ?thesis
    unfolding loop_pass_def
    by (rule returns_seq_with [OF validate_round_answers]) (intro returns_intros out rep; assumption)
qed

lemma validation_loop_ok:
  "state_ok (gi_maxRepairAttempts input) st \<Longrightarrow>
     returns (verified_output input (gi_maxRepairAttempts input)) (validation_loop h input fuel st)"
  by (induction fuel arbitrary: st) (auto intro!: loop_pass_ok returns_throw)

lemma runAgentGeneration_ok:
  "returns (\<lambda>g. project_ok (go_files g) (go_packageJson g)) (runAgentGeneration h input)"
  unfolding runAgentGeneration_def
  by (intro returns_intros returns_seq_with [where Q = "\<lambda>fs. project_ok fs _"] returns_lift)
     (auto intro: writeServerPackageJson_ok)

lemma generation_verified:
  "returns (verified_output input (gi_maxRepairAttempts input))
     (runAgentGenerationWithValidation h input)"
  unfolding runAgentGenerationWithValidation_def
  by (rule returns_seq_with [OF runAgentGeneration_ok])
     (auto simp del: validation_loop.simps intro!: validation_loop_ok simp: state_ok_def initial_loop_state_def)

section \<open>The pipeline respects what its callbacks respect\<close>

text \<open>The pipeline has no effect of its own: it respects every effect order its callbacks respect.\<close>

definition callbacks_respect :: "('s \<Rightarrow> 's \<Rightarrow> bool) \<Rightarrow> ('s, 'z) validated_input_scheme \<Rightarrow> bool" where
  "callbacks_respect R input \<longleftrightarrow> (\<forall>e. resp R (gi_onEvent input e)) \<and>
     (\<forall>vi progress. (\<forall>x. resp R (progress x)) \<longrightarrow> resp R (gi_validator input vi progress))"

context effect_order
begin

lemma pipeline_event: "callbacks_respect R input \<Longrightarrow> resp R (gi_onEvent input e)"
  by (simp add: callbacks_respect_def)

lemma pipeline_validate: "callbacks_respect R input \<Longrightarrow> resp R (validate_round input st)"
  unfolding validate_round_def callbacks_respect_def by (intro resp_seq) auto

lemma pipeline_repair: "callbacks_respect R input \<Longrightarrow> resp R (repair_round h input st v)"
  unfolding repair_round_def
  by (intro resp_seq resp_rules resp_for_each pipeline_event)

lemma pipeline_pass:
  assumes "callbacks_respect R input" "\<And>st. resp R (again st)"
  shows "resp R (loop_pass h input again st)"
  unfolding loop_pass_def
  by (intro resp_seq resp_rules pipeline_validate pipeline_event pipeline_repair assms; assumption)

lemma pipeline_loop: "callbacks_respect R input \<Longrightarrow> resp R (validation_loop h input n st)"
  by (induction n arbitrary: st) (auto intro: pipeline_pass resp_throw)

lemma pipeline: "callbacks_respect R input \<Longrightarrow> resp R (runAgentGenerationWithValidation h input)"
  unfolding runAgentGenerationWithValidation_def runAgentGeneration_def
  by (intro resp_seq resp_rules resp_for_each pipeline_event pipeline_loop)

end

section \<open>How often the loop runs\<close>

text \<open>
  \<open>grows a b m\<close>: with a store that is the list of emitted events, \<open>m\<close> only appends, at
  most \<open>a\<close> repair starts and at most \<open>b\<close> validation starts.
\<close>

definition count_type :: "agent_event_type \<Rightarrow> worker_event list \<Rightarrow> nat" where
  "count_type t es = length (filter (\<lambda>e. we_type e = t) es)"

definition grows :: "nat \<Rightarrow> nat \<Rightarrow> (worker_event list, 'e, 'a) comp \<Rightarrow> bool" where
  "grows a b m \<longleftrightarrow> (\<forall>s. \<exists>new. snd (m s) = s @ new \<and>
     count_type RepairStarted new \<le> a \<and> count_type ValidationStarted new \<le> b)"

lemma grows_seq_with:
  assumes "grows a b m" "returns Q m" "\<And>x. Q x \<Longrightarrow> grows c d (k x)"
  shows "grows (a + c) (b + d) (seq m k)"
  unfolding grows_def
proof
  fix s
  from assms(1) obtain new where new: "snd (m s) = s @ new" "count_type RepairStarted new \<le> a"
    "count_type ValidationStarted new \<le> b" unfolding grows_def by blast
  show "\<exists>new. snd (seq m k s) = s @ new \<and> count_type RepairStarted new \<le> a + c \<and>
      count_type ValidationStarted new \<le> b + d"
  proof (cases "fst (m s)")
    case (Inl e)
    then have "seq m k s = (Inl e, snd (m s))" by (cases "m s") (simp add: seq_def)
    with new show ?thesis by (auto intro!: exI [of _ new])
  next
    case (Inr x)
    then have eq: "seq m k s = k x (snd (m s))" by (cases "m s") (simp add: seq_def)
    have "Q x" using Inr assms(2) by (cases "m s") (auto dest: returnsD)
    from assms(3) [OF this] obtain more where "snd (k x (s @ new)) = (s @ new) @ more"
      "count_type RepairStarted more \<le> c" "count_type ValidationStarted more \<le> d"
      unfolding grows_def by blast
    with new eq show ?thesis by (auto intro!: exI [of _ "new @ more"] simp: count_type_def)
  qed
qed

lemma grows_seq: "grows a b m \<Longrightarrow> (\<And>x. grows c d (k x)) \<Longrightarrow> grows (a + c) (b + d) (seq m k)"
  by (rule grows_seq_with [where Q = "\<lambda>_. True"]) (auto simp: returns_def)

lemma grows_still [intro]: "grows 0 0 (ret x)" "grows 0 0 (throw e)" "grows 0 0 (lift_result r)"
  by (auto simp: grows_def ret_def throw_def lift_result_def count_type_def)

lemma grows_mono: "grows a b m \<Longrightarrow> a \<le> c \<Longrightarrow> b \<le> d \<Longrightarrow> grows c d m"
  unfolding grows_def by (meson le_trans)

definition record_event :: "worker_event \<Rightarrow> (worker_event list, js_error, unit) comp" where
  "record_event e = (\<lambda>log. (Inr (), log @ [e]))"

lemma grows_record: "grows (if we_type e = RepairStarted then 1 else 0)
    (if we_type e = ValidationStarted then 1 else 0) (record_event e)"
  by (auto simp: grows_def record_event_def count_type_def)

lemma grows_files: "grows 0 0 (for_each ops (\<lambda>op. record_event (file_event k op)))"
proof (induction ops)
  case Nil
  then show ?case by (simp add: grows_still)
next
  case (Cons op ops)
  have "grows 0 0 (record_event (file_event k op))"
    using grows_record [of "file_event k op"] by (simp add: file_event_def event_def)
  with Cons show ?case using grows_seq [of 0 0 _ 0 0] by simp
qed

lemma grows_event:
  "t \<noteq> RepairStarted \<Longrightarrow> t \<noteq> ValidationStarted \<Longrightarrow> grows 0 0 (record_event (event t m p))"
  "grows (Suc 0) 0 (record_event (event RepairStarted m p))"
  "grows 0 (Suc 0) (record_event (event ValidationStarted m p))"
  using grows_record [of "event t m p"] grows_record [of "event RepairStarted m p"]
    grows_record [of "event ValidationStarted m p"] by (simp_all add: event_def)

lemma grows_quiet_first: "grows 0 0 m \<Longrightarrow> (\<And>x. grows c d (k x)) \<Longrightarrow> grows c d (seq m k)"
  using grows_seq [of 0 0 m c d k] by simp

lemma grows_quiet_rest: "grows a b m \<Longrightarrow> (\<And>x. grows 0 0 (k x)) \<Longrightarrow> grows a b (seq m k)"
  using grows_seq [of a b m 0 0 k] by simp

lemma grows_branch: "(b \<Longrightarrow> grows a c m) \<Longrightarrow> (\<not> b \<Longrightarrow> grows a c n) \<Longrightarrow> grows a c (if b then m else n)"
  by simp

definition quiet_validator :: "worker_event list validator \<Rightarrow> bool" where
  "quiet_validator validator \<longleftrightarrow> (\<forall>vi progress. (\<forall>x. grows 0 0 (progress x)) \<longrightarrow>
     grows 0 0 (validator vi progress))"

definition logs_events :: "(worker_event list, 'z) validated_input_scheme \<Rightarrow> bool" where
  "logs_events input \<longleftrightarrow> gi_onEvent input = record_event \<and> quiet_validator (gi_validator input)"

lemma validate_round_grows: "logs_events input \<Longrightarrow> grows 0 (Suc 0) (validate_round input st)"
proof -
  assume "logs_events input"
  then have on: "gi_onEvent input = record_event" and quiet: "quiet_validator (gi_validator input)"
    by (simp_all add: logs_events_def)
  show ?thesis
    unfolding validate_round_def on
  proof (rule grows_quiet_rest [OF grows_event(3)])
    show "grows 0 0 (gi_validator input vi
        (\<lambda>progress. record_event (event ValidationStep (vp_message progress)
           (Some (ProgressPayload progress)))))" for vi
      by (rule quiet [unfolded quiet_validator_def, rule_format]) (rule grows_event(1); simp)
  qed
qed

lemma repair_round_grows: "logs_events input \<Longrightarrow> grows (Suc 0) 0 (repair_round h input st v)"
proof -
  assume "logs_events input"
  then have on: "gi_onEvent input = record_event" by (simp add: logs_events_def)
  show ?thesis
    unfolding repair_round_def on Let_def
    by (rule grows_quiet_rest [OF grows_event(2)])
       (intro grows_quiet_first grows_still grows_event grows_files grows_branch; simp)
qed

lemma loop_pass_grows:
  assumes "logs_events input"
    and f: "\<And>st'. ls_repairAttempts st' = Suc (ls_repairAttempts st) \<Longrightarrow>
      ls_repairAttempts st < gi_maxRepairAttempts input \<Longrightarrow> grows a b (f st')"
    and a: "ls_repairAttempts st < gi_maxRepairAttempts input \<Longrightarrow> c = Suc a \<and> d = b"
  shows "grows c (Suc d) (loop_pass h input f st)"
proof -
  have on: "gi_onEvent input = record_event" using assms(1) by (simp add: logs_events_def)
  have rep: "grows c d (seq (repair_round h input (st\<lparr>ls_seen := x\<rparr>) v) f)"
    if "\<not> gi_maxRepairAttempts input \<le> ls_repairAttempts st" for x v
  proof -
    have "grows (Suc 0 + a) (0 + b) (seq (repair_round h input (st\<lparr>ls_seen := x\<rparr>) v) f)"
      by (rule grows_seq_with [OF repair_round_grows [OF assms(1)] repair_round_attempts])
         (rule f; use that in simp)
    with a that show ?thesis by simp
  qed
  have zero: "grows c d (throw e)" "grows c d (ret x)" for e x
    by (rule grows_mono [OF grows_still(2)] grows_mono [OF grows_still(1)]; simp)+
  have "grows (0 + c) (Suc 0 + d) (loop_pass h input f st)"
    unfolding loop_pass_def on Let_def
    by (rule grows_seq [OF validate_round_grows [OF assms(1)]])
       (intro grows_branch grows_quiet_first zero grows_event rep; simp)
  then show ?thesis by simp
qed

lemma validation_loop_grows:
  assumes "logs_events input"
  shows "grows (gi_maxRepairAttempts input - ls_repairAttempts st)
    (Suc (gi_maxRepairAttempts input - ls_repairAttempts st)) (validation_loop h input fuel st)"
proof (induction fuel arbitrary: st)
  case 0
  then show ?case by (simp add: grows_mono [OF grows_still(2)])
next
  case (Suc fuel)
  show ?case
    unfolding validation_loop.simps
  proof (rule loop_pass_grows [OF assms])
    let ?left = "gi_maxRepairAttempts input - Suc (ls_repairAttempts st)"
    show "grows ?left (Suc ?left) (validation_loop h input fuel st')"
      if "ls_repairAttempts st' = Suc (ls_repairAttempts st)" for st'
      using Suc [of st'] that by simp
  qed auto
qed

lemma runAgentGeneration_grows: "gi_onEvent input = record_event \<Longrightarrow> grows 0 0 (runAgentGeneration h input)"
  unfolding runAgentGeneration_def Let_def
  by (simp only:) (intro grows_branch grows_quiet_first grows_still grows_event grows_files; simp)

lemma generation_grows:
  assumes "logs_events input"
  shows "grows (gi_maxRepairAttempts input) (Suc (gi_maxRepairAttempts input))
    (runAgentGenerationWithValidation h input)"
  unfolding runAgentGenerationWithValidation_def
proof (rule grows_quiet_first)
  show "grows 0 0 (runAgentGeneration h input)"
    using assms by (intro runAgentGeneration_grows) (simp add: logs_events_def)
  show "grows (gi_maxRepairAttempts input) (Suc (gi_maxRepairAttempts input))
      (validation_loop h input (Suc (gi_maxRepairAttempts input)) (initial_loop_state g))" for g
    using validation_loop_grows [OF assms, of "initial_loop_state g"]
    by (simp add: initial_loop_state_def del: validation_loop.simps)
qed

section \<open>The fuel is enough\<close>

lemma seq_cong: "returns Q m \<Longrightarrow> (\<And>a t. Q a \<Longrightarrow> k a t = k' a t) \<Longrightarrow> seq m k s = seq m k' s"
  by (auto simp: seq_def returns_def split: prod.split sum.split)

lemma loop_pass_cong:
  assumes "\<And>st' t. ls_repairAttempts st < gi_maxRepairAttempts input \<Longrightarrow>
    ls_repairAttempts st' = Suc (ls_repairAttempts st) \<Longrightarrow> f st' t = g st' t"
  shows "loop_pass h input f st = loop_pass h input g st"
proof -
  have rep: "seq (repair_round h input (st\<lparr>ls_seen := x\<rparr>) v) f = seq (repair_round h input (st\<lparr>ls_seen := x\<rparr>) v) g"
    if "\<not> gi_maxRepairAttempts input \<le> ls_repairAttempts st" for x v
    by (rule ext, rule seq_cong [OF repair_round_attempts]) (use that assms in auto)
  show ?thesis by (auto simp: loop_pass_def rep Let_def cong: if_cong)
qed

lemma enough_fuel:
  "ls_repairAttempts st \<le> gi_maxRepairAttempts input \<Longrightarrow>
   gi_maxRepairAttempts input < ls_repairAttempts st + fuel \<Longrightarrow>
   validation_loop h input (fuel + extra) st = validation_loop h input fuel st"
proof (induction fuel arbitrary: st)
  case 0
  then show ?case by simp
next
  case (Suc fuel)
  show ?case
    unfolding add_Suc validation_loop.simps
    by (rule loop_pass_cong, rule fun_cong [OF Suc.IH]) (use Suc.prems in auto)
qed

section \<open>Properties\<close>

text \<open>C5: If \<open>runAgentGenerationWithValidation\<close> returns, whatever the model answered, then
  the validation it reports passed and was not simulated, it is the validator's answer on exactly
  the files that are returned, all their paths are safe and distinct, their \<open>package.json\<close>
  is the text of the returned package record, and at most the allowed number of repairs was
  made.\<close>

theorem generation_returns_validated_project:
  assumes "runAgentGenerationWithValidation h input s = (Inr out, t)"
  shows "verified_output input (gi_maxRepairAttempts input) out"
  using generation_verified assms by (rule returnsD)

definition demo_host :: host where
  "demo_host = \<lparr>h_collate = collate_ascii, h_sha256 = id\<rparr>"

definition demo_context :: "agent_run_mode \<Rightarrow> agent_context" where
  "demo_context m = \<lparr>cx_prompt = ''x'', cx_mode = m,
     cx_project = \<lparr>cp_name = ''p'', cp_description = None, cp_uiLibrary = ''none''\<rparr>,
     cx_messages = [], cx_attachments = None, cx_files = []\<rparr>"

definition demo_generation :: "string \<Rightarrow> generation_result model_result" where
  "demo_generation c = \<lparr>mr_value = \<lparr>g_message = ''done'', g_operations = [CreateFile ''src/A.ts'' c],
     g_dependencies = [], g_devDependencies = []\<rparr>, mr_usage = None\<rparr>"

definition demo_client :: model_client where
  "demo_client = \<lparr>
     generatePlan = (\<lambda>cx. Inr \<lparr>mr_value = \<lparr>plan_summary = ''plan'', plan_steps = [],
        plan_assumptions = []\<rparr>, mr_usage = None\<rparr>),
     generateFiles = (\<lambda>cx plan. Inr (demo_generation ''bad'')),
     repairFiles = (\<lambda>ri. Inr (demo_generation ''good'')), repairDependencies = None\<rparr>"

definition demo_result :: "validation_status \<Rightarrow> validation_result" where
  "demo_result st = \<lparr>v_status = st, v_verification = Some Verified, v_previewArtifactId = None,
     v_checks = [], v_category = None, v_retryable = None\<rparr>"

definition demo_validator :: "'s validator" where
  "demo_validator vi progress = ret (demo_result
     (if list_ex (\<lambda>f. content f = ''bad'') (vi_files vi) then VFailed else VPassed))"

definition demo_input :: "(worker_event list) validated_input" where
  "demo_input = \<lparr>gi_context = demo_context CreateMode, gi_baseFiles = [], gi_basePackageJson = None,
     gi_generatedByRunId = None, gi_modelClient = demo_client, gi_onEvent = record_event,
     gi_validator = demo_validator, gi_runId = ''r'', gi_sandboxScope = None,
     gi_maxRepairAttempts = 2\<rparr>"

lemma demo_repairs_once: "(case runAgentGenerationWithValidation demo_host demo_input [] of
    (Inr out, log) \<Rightarrow> go_repairAttempts out = 1 \<and> count_type RepairStarted log = 1
  | (Inl e, log) \<Rightarrow> False)"
  by code_simp

theorem generation_returns_validated_project_witness:
  "\<exists>out log. runAgentGenerationWithValidation demo_host demo_input [] = (Inr out, log) \<and>
     go_repairAttempts out = 1 \<and> verified_output demo_input 2 out"
proof -
  obtain r log where r: "runAgentGenerationWithValidation demo_host demo_input [] = (r, log)"
    by fastforce
  with demo_repairs_once obtain out where "r = Inr out" "go_repairAttempts out = 1"
    by (auto split: sum.splits)
  with generation_returns_validated_project [of demo_host demo_input "[]" out log] r
  show ?thesis by (auto simp: demo_input_def)
qed

text \<open>The validate-and-repair loop is bounded: with an event sink that records and a
  validator that emits only progress, at most \<open>maxRepairAttempts\<close> repairs are started and at
  most one validation more, however the model and the validator answer. The function is total, so
  it always ends.\<close>

theorem repair_loop_bounded:
  assumes "logs_events input"
  shows "\<exists>new. snd (runAgentGenerationWithValidation h input log) = log @ new \<and>
    count_type RepairStarted new \<le> gi_maxRepairAttempts input \<and>
    count_type ValidationStarted new \<le> Suc (gi_maxRepairAttempts input)"
  using generation_grows [OF assms] unfolding grows_def by blast

theorem repair_loop_bounded_witness:
  "\<exists>new. snd (runAgentGenerationWithValidation demo_host demo_input []) = [] @ new \<and>
    count_type RepairStarted new \<le> 2"
proof -
  have "quiet_validator demo_validator"
    by (auto simp: quiet_validator_def demo_validator_def intro: grows_still)
  then have "logs_events demo_input" by (simp add: logs_events_def demo_input_def)
  from repair_loop_bounded [OF this, of demo_host "[]"] show ?thesis
    by (auto simp: demo_input_def)
qed

text \<open>C6: The \<open>for (;;)\<close> loop of validate and repair ends: \<open>maxRepairAttempts + 1\<close> passes of
  fuel are enough, more fuel never changes the outcome or the store.\<close>

theorem repair_loop_terminates:
  "seq (runAgentGeneration h input) (\<lambda>generated.
     validation_loop h input (Suc (gi_maxRepairAttempts input) + extra) (initial_loop_state generated)) =
   runAgentGenerationWithValidation h input"
  unfolding runAgentGenerationWithValidation_def
  by (subst enough_fuel) (simp_all add: initial_loop_state_def)

text \<open>The error paths of a validation round, when the event sink accepts events: a simulated
  pass is an error carrying the result, a pass returns the current project, an infrastructure
  failure throws the current project as the candidate of a later retry, the second occurrence of a
  diagnostic fingerprint is a repeated failure, and a failure with no repair left is final.\<close>

theorem validation_round_outcomes:
  assumes sink: "\<And>e s. \<exists>t. gi_onEvent input e s = (Inr (), t)"
    and answer: "validate_round input st s = (Inr v, s1)"
  shows "let outcome = fst (validation_loop h input (Suc fuel) st s)
    in (v_status v = VPassed \<and> v_verification v = Some Simulated \<longrightarrow>
          outcome = Inl (not_verified_error v)) \<and>
       (v_status v = VPassed \<and> v_verification v \<noteq> Some Simulated \<longrightarrow>
          outcome = Inr (output_of st v)) \<and>
       (v_status v \<noteq> VPassed \<and> v_category v = Some INFRA_ERROR \<longrightarrow>
          outcome = Inl ((infra_error v)\<lparr>err_candidate :=
            Some (ls_files st, ls_packageJson st, ls_summary st)\<rparr>)) \<and>
       (v_status v \<noteq> VPassed \<and> v_category v \<noteq> Some INFRA_ERROR \<and>
        diagnosticFingerprint (h_sha256 h) v \<in> set (ls_seen st) \<longrightarrow>
          outcome = Inl (validation_error ''REPEATED_VALIDATION_FAILURE''
            ''Validation repair repeated the same failure'' v)) \<and>
       (v_status v \<noteq> VPassed \<and> v_category v \<noteq> Some INFRA_ERROR \<and>
        gi_maxRepairAttempts input \<le> ls_repairAttempts st \<and>
        diagnosticFingerprint (h_sha256 h) v \<notin> set (ls_seen st) \<longrightarrow>
          outcome = Inl (validation_error ''VALIDATION_FAILED''
            ''Generated project failed validation'' v))"
proof -
  have emit: "\<exists>t. seq (gi_onEvent input e) k s1 = k () t" for e and k :: "unit \<Rightarrow> ('a, js_error, validated_output) comp"
    using sink [of e s1] by (auto simp: seq_def)
  show ?thesis
    unfolding Let_def validation_loop.simps loop_pass_def seq_Inr [where m = "validate_round input st", OF answer]
    using emit [of "event ValidationFailed ''Project validation was simulated and is not verified''
        (Some (ValidationPayload v))" "\<lambda>_. throw (not_verified_error v)"]
      emit [of "event ValidationPassed ''Project validation passed'' (Some (ValidationPayload v))"
        "\<lambda>_. ret (output_of st v)"]
      sink [of "event ValidationFailed ''Project validation failed'' (Some (ValidationPayload v))" s1]
    by (auto simp: throw_apply ret_apply seq_def)
qed

definition silent_input :: "unit validated_input" where
  "silent_input = \<lparr>gi_context = demo_context CreateMode, gi_baseFiles = [], gi_basePackageJson = None,
     gi_generatedByRunId = None, gi_modelClient = demo_client, gi_onEvent = (\<lambda>e. ret ()),
     gi_validator = (\<lambda>vi progress. ret ((demo_result VFailed)\<lparr>v_category := Some INFRA_ERROR\<rparr>)),
     gi_runId = ''r'', gi_sandboxScope = None, gi_maxRepairAttempts = 2\<rparr>"

theorem validation_round_outcomes_witness:
  "fst (validation_loop demo_host silent_input 2
      \<lparr>ls_files = [], ls_packageJson = sample_package, ls_summary = ''s'', ls_usage = None,
       ls_plan = \<lparr>plan_summary = [], plan_steps = [], plan_assumptions = []\<rparr>,
       ls_repairAttempts = 0, ls_seen = []\<rparr> ()) =
   Inl ((infra_error ((demo_result VFailed)\<lparr>v_category := Some INFRA_ERROR\<rparr>))
     \<lparr>err_candidate := Some ([], sample_package, ''s'')\<rparr>)"
proof -
  define st where "st = \<lparr>ls_files = [], ls_packageJson = sample_package, ls_summary = ''s'',
     ls_usage = None, ls_plan = \<lparr>plan_summary = [], plan_steps = [], plan_assumptions = []\<rparr>,
     ls_repairAttempts = 0, ls_seen = []\<rparr>"
  have a: "validate_round silent_input st () =
      (Inr ((demo_result VFailed)\<lparr>v_category := Some INFRA_ERROR\<rparr>), ())"
    by (simp add: validate_round_def silent_input_def seq_def ret_def)
  have b: "\<exists>t. gi_onEvent silent_input e s = (Inr (), t)" for e s
    by (simp add: silent_input_def ret_def)
  show ?thesis
    using validation_round_outcomes [of silent_input st "()" _ "()" demo_host 1, OF b a]
    by (simp add: st_def demo_result_def Let_def numeral_2_eq_2)
qed

end
