(* ===== verification/Bundle.thy ===== *)
theory Bundle
  imports Json
begin

text \<open>
  \<open>artifacts/bundle.ts\<close>: the canonical form of a project bundle, its encoding as compressed
  bytes with a manifest, and the decoding with all integrity checks. Gzip and SHA-256 are node's and
  an argument (\<open>codec\<close>); an untrusted value of type \<open>unknown\<close> is a \<open>json\<close> value. The
  branch of \<open>canonicalRunId\<close> for BSON objects is left out: every caller passes strings.
\<close>

section \<open>Results\<close>

definition and_then :: "'e + 'a \<Rightarrow> ('a \<Rightarrow> 'e + 'b) \<Rightarrow> 'e + 'b" where
  "and_then r k = (case r of Inl e \<Rightarrow> Inl e | Inr a \<Rightarrow> k a)"

fun map_each :: "('a \<Rightarrow> 'e + 'b) \<Rightarrow> 'a list \<Rightarrow> 'e + 'b list" where
  "map_each f [] = Inr []"
| "map_each f (x # xs) = and_then (f x) (\<lambda>y. and_then (map_each f xs) (\<lambda>ys. Inr (y # ys)))"

definition check :: "bool \<Rightarrow> js_error \<Rightarrow> js_error + unit" where
  "check b e = (if b then Inr () else Inl e)"

lemma and_then_simps [simp]: "and_then (Inl e) k = Inl e" "and_then (Inr a) k = k a"
  by (simp_all add: and_then_def)

lemma and_then_Inr: "and_then r k = Inr b \<longleftrightarrow> (\<exists>a. r = Inr a \<and> k a = Inr b)"
  by (cases r) auto

lemma check_Inr [simp]: "check b e = Inr u \<longleftrightarrow> b"
  by (simp add: check_def)

lemma check_simps [simp]: "check True e = Inr ()" "check False e = Inl e"
  by (simp_all add: check_def)

lemma map_each_Inr:
  "map_each f xs = Inr ys \<longleftrightarrow> length ys = length xs \<and> (\<forall>i < length xs. f (xs ! i) = Inr (ys ! i))"
proof (induction xs arbitrary: ys)
  case (Cons x xs)
  show ?case
  proof (cases ys)
    case (Cons z zs)
    then show ?thesis
      by (auto simp: and_then_Inr Cons.IH nth_Cons less_Suc_eq_0_disj split: nat.splits)
  qed (auto simp: and_then_Inr)
qed auto

lemma map_each_image: "map_each f xs = Inr ys \<Longrightarrow> y \<in> set ys \<Longrightarrow> \<exists>x \<in> set xs. f x = Inr y"
  by (auto simp: map_each_Inr in_set_conv_nth) (metis nth_mem)

lemma map_each_map: "(\<And>y. y \<in> set ys \<Longrightarrow> f (g y) = Inr y) \<Longrightarrow> map_each f (map g ys) = Inr ys"
  by (induction ys) auto

section \<open>Types\<close>

record artifact_limits =
  maxCompressedBytes :: int
  maxUncompressedBytes :: int
  maxFiles :: int

record artifact_integrity =
  ig_format :: string
  ig_formatVersion :: int
  ig_sha256 :: string
  ig_uncompressedBytes :: int
  ig_compressedBytes :: int
  ig_fileCount :: int

record project_bundle =
  b_files :: "project_file list"
  b_packageJson :: package_json

record encoded_artifact =
  en_compressedBytes :: bytes
  en_uncompressedBytes :: bytes
  en_sha256 :: string
  en_manifest :: artifact_integrity

datatype gunzip_result = GunzipTooLarge | GunzipBadData | Gunzipped bytes

record codec =
  cd_gzip :: "bytes \<Rightarrow> bytes"
  cd_gunzip :: "int \<Rightarrow> bytes \<Rightarrow> gunzip_result"
  cd_sha256 :: "bytes \<Rightarrow> string"

definition artifactFormat :: string where
  "artifactFormat = ''open-v0.bundle+json+gzip''"

definition invalid_bundle :: "string \<Rightarrow> js_error" where
  "invalid_bundle msg = artifact_error ''ARTIFACT_INVALID_BUNDLE'' msg"

definition invalid_path :: "string \<Rightarrow> js_error" where
  "invalid_path msg = artifact_error ''ARTIFACT_INVALID_PATH'' msg"

definition corrupt :: "string \<Rightarrow> js_error" where
  "corrupt msg = artifact_error ''ARTIFACT_CORRUPT'' msg"

definition limit_exceeded :: "string \<Rightarrow> js_error" where
  "limit_exceeded msg = artifact_error ''ARTIFACT_LIMIT_EXCEEDED'' msg"

section \<open>Limits\<close>

definition validateLimit :: "int \<Rightarrow> string \<Rightarrow> js_error + unit" where
  "validateLimit v name =
     check (isSafeInteger v \<and> 0 < v) (invalid_bundle (name @ '' must be a positive safe integer''))"

definition validateLimits :: "artifact_limits \<Rightarrow> js_error + unit" where
  "validateLimits l =
     and_then (validateLimit (maxCompressedBytes l) ''maxCompressedBytes'') (\<lambda>_.
     and_then (validateLimit (maxUncompressedBytes l) ''maxUncompressedBytes'') (\<lambda>_.
     validateLimit (maxFiles l) ''maxFiles''))"

definition enforceFileCount :: "json \<Rightarrow> artifact_limits \<Rightarrow> string \<Rightarrow> js_error + unit" where
  "enforceFileCount input l what = (case json_member ''files'' input of
     Some (JArr fs) \<Rightarrow> check (int (length fs) \<le> maxFiles l)
       (limit_exceeded (what @ '' exceeds the file-count limit''))
   | _ \<Rightarrow> Inr ())"

section \<open>Canonical form\<close>

definition supported_artifact_path :: "string \<Rightarrow> bool" where
  "supported_artifact_path s \<longleftrightarrow> list_ex (\<lambda>e. ends_with e s)
     [''.ts'', ''.tsx'', ''.js'', ''.cjs'', ''.mjs'', ''.css'', ''.json'', ''.html'', ''.md'']"

definition windows_drive :: "string \<Rightarrow> bool" where
  "windows_drive s \<longleftrightarrow> (case s of
     c # d # e # _ \<Rightarrow> is_alpha c \<and> d = CHR '':'' \<and> e = CHR ''/'' | _ \<Rightarrow> False)"

definition safe_relative :: "string \<Rightarrow> bool" where
  "safe_relative s \<longleftrightarrow> \<not> starts_with ''/'' s \<and> \<not> windows_drive s \<and> nul \<notin> set s \<and>
     list_all (\<lambda>w. w \<noteq> [] \<and> w \<noteq> ''.'' \<and> w \<noteq> ''..'') (split_on CHR ''/'' s)"

definition canonicalPath :: "json option \<Rightarrow> js_error + string" where
  "canonicalPath input =
     (case input of
        Some (JStr raw) \<Rightarrow>
          if raw = [] \<or> raw \<noteq> trim raw
          then Inl (invalid_path ''Artifact file path must be a non-empty string'')
          else let normalized = replace_char backslash CHR ''/'' raw
               in if \<not> safe_relative normalized \<or> \<not> supported_artifact_path normalized
                  then Inl (invalid_path (''Unsafe or unsupported artifact path: '' @ raw))
                  else Inr normalized
      | _ \<Rightarrow> Inl (invalid_path ''Artifact file path must be a non-empty string''))"

definition entry_of :: "string \<Rightarrow> string \<times> json \<Rightarrow> js_error + (string \<times> string)" where
  "entry_of name kv = (case kv of (k, v) \<Rightarrow>
     (case v of
        JStr s \<Rightarrow> if trim k = [] \<or> trim s = []
          then Inl (invalid_bundle (name @ '' must contain non-empty string keys and values''))
          else Inr (k, s)
      | _ \<Rightarrow> Inl (invalid_bundle (name @ '' must contain non-empty string keys and values''))))"

definition key_le :: "string \<times> 'a \<Rightarrow> string \<times> 'a \<Rightarrow> bool" where
  "key_le a b = text_le (fst a) (fst b)"

definition canonicalMap :: "json option \<Rightarrow> string \<Rightarrow> js_error + dep_map" where
  "canonicalMap input name =
     (case input of
        Some (JObj ms) \<Rightarrow>
          and_then (map_each (entry_of name) ms) (\<lambda>entries.
          Inr (foldl (\<lambda>m (k, v). map_set k v m) [] (sort_by key_le entries)))
      | _ \<Rightarrow> Inl (invalid_bundle (name @ '' must be an object'')))"

definition canonicalPackageJson :: "json option \<Rightarrow> js_error + package_json" where
  "canonicalPackageJson input =
     (case input of
        Some (JObj ms) \<Rightarrow>
          and_then (canonicalMap (map_of ms ''dependencies'') ''dependencies'') (\<lambda>d.
          and_then (canonicalMap (map_of ms ''devDependencies'') ''devDependencies'') (\<lambda>e.
          and_then (canonicalMap (map_of ms ''scripts'') ''scripts'') (\<lambda>s.
          Inr \<lparr>dependencies = d, devDependencies = e, scripts = s\<rparr>)))
      | _ \<Rightarrow> Inl (invalid_bundle ''packageJson must be an object''))"

text \<open>\<open>toLowerCase\<close> on characters below 256.\<close>

definition lower_char :: "char \<Rightarrow> char" where
  "lower_char c = (let n = of_char c :: nat in
     if (65 \<le> n \<and> n \<le> 90) \<or> (192 \<le> n \<and> n \<le> 222 \<and> n \<noteq> 215) then char_of (n + 32) else c)"

definition to_lower :: "string \<Rightarrow> string" where
  "to_lower = map lower_char"

definition canonicalRunId :: "json \<Rightarrow> js_error + string" where
  "canonicalRunId input =
     (case input of
        JStr s \<Rightarrow> if length s = 24 \<and> list_all (\<lambda>c. hex_value c \<noteq> None) s then Inr (to_lower s)
          else Inl (invalid_bundle ''generatedByRunId must be an ObjectId string'')
      | _ \<Rightarrow> Inl (invalid_bundle ''generatedByRunId must be an ObjectId string''))"

fun language_text :: "project_file_language \<Rightarrow> string" where
  "language_text LTs = ''ts''" | "language_text LTsx = ''tsx''" | "language_text LJs = ''js''"
| "language_text LCss = ''css''" | "language_text LJson = ''json''" | "language_text LHtml = ''html''"
| "language_text LMd = ''md''"

definition languageSet :: "(string \<times> project_file_language) list" where
  "languageSet = map (\<lambda>l. (language_text l, l)) [LTs, LTsx, LJs, LCss, LJson, LHtml, LMd]"

definition canonicalFile :: "json \<Rightarrow> js_error + project_file" where
  "canonicalFile input =
     (case input of
        JObj ms \<Rightarrow>
          (case map_of ms ''content'' of
             Some (JStr text_of) \<Rightarrow>
               if nul \<in> set text_of then Inl (invalid_bundle ''Artifact file content must be text'')
               else (case map_of ms ''language'' of
                   Some (JStr l) \<Rightarrow>
                     (case map_of languageSet l of
                        None \<Rightarrow> Inl (invalid_bundle ''Artifact file language is unsupported'')
                      | Some lang \<Rightarrow>
                          and_then (canonicalPath (map_of ms ''path'')) (\<lambda>p.
                          and_then (case map_of ms ''generatedByRunId'' of
                                      None \<Rightarrow> Inr None
                                    | Some r \<Rightarrow> and_then (canonicalRunId r) (\<lambda>x. Inr (Some x))) (\<lambda>r.
                          Inr \<lparr>path = p, content = text_of, language = lang, generatedByRunId = r\<rparr>)))
                 | _ \<Rightarrow> Inl (invalid_bundle ''Artifact file language is unsupported''))
           | _ \<Rightarrow> Inl (invalid_bundle ''Artifact file content must be text''))
      | _ \<Rightarrow> Inl (invalid_bundle ''Artifact files must be objects''))"

text \<open>The first path that occurs a second time.\<close>

fun find_duplicate :: "string list \<Rightarrow> string list \<Rightarrow> string option" where
  "find_duplicate seen [] = None"
| "find_duplicate seen (p # ps) = (if p \<in> set seen then Some p else find_duplicate (p # seen) ps)"

definition check_distinct :: "string \<Rightarrow> string list \<Rightarrow> js_error + unit" where
  "check_distinct what ps = (case find_duplicate [] ps of
     None \<Rightarrow> Inr () | Some p \<Rightarrow> Inl (invalid_path (what @ p)))"

definition path_le :: "project_file \<Rightarrow> project_file \<Rightarrow> bool" where
  "path_le f g = text_le (path f) (path g)"

definition canonicalizeBundle :: "json \<Rightarrow> js_error + project_bundle" where
  "canonicalizeBundle input =
     (case input of
        JObj ms \<Rightarrow>
          (case (map_of ms ''version'', map_of ms ''files'') of
             (Some (JNum v), Some (JArr fs)) \<Rightarrow>
               if v \<noteq> 1 then Inl (invalid_bundle ''Artifact bundle version or files are invalid'')
               else and_then (map_each canonicalFile fs) (\<lambda>files.
                    and_then (check_distinct ''Duplicate normalized artifact path: '' (map path files)) (\<lambda>_.
                    and_then (canonicalPackageJson (map_of ms ''packageJson'')) (\<lambda>pkg.
                    Inr \<lparr>b_files = sort_by path_le files, b_packageJson = pkg\<rparr>)))
           | _ \<Rightarrow> Inl (invalid_bundle ''Artifact bundle version or files are invalid''))
      | _ \<Rightarrow> Inl (invalid_bundle ''Artifact bundle must be an object''))"

section \<open>Encoding and decoding\<close>

definition map_json :: "dep_map \<Rightarrow> json" where
  "map_json m = JObj (map (\<lambda>(k, v). (k, JStr v)) m)"

definition file_json :: "project_file \<Rightarrow> json" where
  "file_json f = JObj ([(''path'', JStr (path f)), (''content'', JStr (content f)),
     (''language'', JStr (language_text (language f)))] @
     (case generatedByRunId f of None \<Rightarrow> [] | Some r \<Rightarrow> [(''generatedByRunId'', JStr r)]))"

definition bundle_json :: "project_bundle \<Rightarrow> json" where
  "bundle_json b = JObj [(''version'', JNum 1), (''files'', JArr (map file_json (b_files b))),
     (''packageJson'', JObj [(''dependencies'', map_json (dependencies (b_packageJson b))),
        (''devDependencies'', map_json (devDependencies (b_packageJson b))),
        (''scripts'', map_json (scripts (b_packageJson b)))])]"

definition encode_canonical :: "codec \<Rightarrow> artifact_limits \<Rightarrow> string \<Rightarrow> json \<Rightarrow> nat \<Rightarrow>
    js_error + encoded_artifact" where
  "encode_canonical cd l what canonical fileCount =
     (let raw = utf8_encode (stringify canonical); sha = cd_sha256 cd raw;
          compressed = cd_gzip cd raw
      in and_then (check (int (length raw) \<le> maxUncompressedBytes l)
           (limit_exceeded (what @ '' exceeds the uncompressed-size limit''))) (\<lambda>_.
         and_then (check (int (length compressed) \<le> maxCompressedBytes l)
           (limit_exceeded (what @ '' exceeds the compressed-size limit''))) (\<lambda>_.
         Inr \<lparr>en_compressedBytes = compressed, en_uncompressedBytes = raw, en_sha256 = sha,
              en_manifest = \<lparr>ig_format = artifactFormat, ig_formatVersion = 1, ig_sha256 = sha,
                ig_uncompressedBytes = int (length raw), ig_compressedBytes = int (length compressed),
                ig_fileCount = int fileCount\<rparr>\<rparr>)))"

text \<open>The encoder checks the value it is given; \<open>encodeProjectArtifact\<close> is the call with a typed bundle.\<close>

definition encode_project_json :: "codec \<Rightarrow> json \<Rightarrow> artifact_limits \<Rightarrow> js_error + encoded_artifact" where
  "encode_project_json cd bundle l =
     and_then (validateLimits l) (\<lambda>_.
     and_then (enforceFileCount bundle l ''Artifact'') (\<lambda>_.
     and_then (canonicalizeBundle bundle) (\<lambda>canonical.
     encode_canonical cd l ''Artifact'' (bundle_json canonical) (length (b_files canonical)))))"

definition encodeProjectArtifact :: "codec \<Rightarrow> project_bundle \<Rightarrow> artifact_limits \<Rightarrow> js_error + encoded_artifact" where
  "encodeProjectArtifact cd bundle l = encode_project_json cd (bundle_json bundle) l"

definition validateManifest :: "bytes \<Rightarrow> artifact_integrity \<Rightarrow> artifact_limits \<Rightarrow> js_error + unit" where
  "validateManifest compressed mf l =
     and_then (check (ig_format mf = artifactFormat \<and> ig_formatVersion mf = 1)
       (artifact_error ''ARTIFACT_FORMAT_UNSUPPORTED'' ''Artifact format or version is unsupported'')) (\<lambda>_.
     and_then (check (isSafeInteger (ig_compressedBytes mf) \<and> ig_compressedBytes mf = int (length compressed))
       (corrupt ''Artifact compressed length does not match its manifest'')) (\<lambda>_.
     check (int (length compressed) \<le> maxCompressedBytes l)
       (limit_exceeded ''Artifact exceeds the compressed-size limit'')))"

definition gunzip_limited :: "codec \<Rightarrow> artifact_limits \<Rightarrow> bytes \<Rightarrow> js_error + bytes" where
  "gunzip_limited cd l compressed = (case cd_gunzip cd (maxUncompressedBytes l) compressed of
     GunzipTooLarge \<Rightarrow> Inl (limit_exceeded ''Artifact exceeds the uncompressed-size limit'')
   | GunzipBadData \<Rightarrow> Inl (corrupt ''Artifact gzip data is corrupt'')
   | Gunzipped raw \<Rightarrow> Inr raw)"

definition parse_bytes :: "bytes \<Rightarrow> js_error + json" where
  "parse_bytes raw = (case utf8_decode raw of
     None \<Rightarrow> Inl (corrupt ''Artifact bytes are not valid UTF-8'')
   | Some s \<Rightarrow> (case JSON_parse s of
       None \<Rightarrow> Inl (corrupt ''Artifact JSON is corrupt'') | Some j \<Rightarrow> Inr j))"

text \<open>An \<open>ArtifactError\<close> of the canonical form is a corrupt artifact.\<close>

definition as_corrupt :: "string \<Rightarrow> js_error + 'a \<Rightarrow> js_error + 'a" where
  "as_corrupt msg r = (case r of
     Inl e \<Rightarrow> Inl (if err_artifact e then corrupt msg else e) | Inr a \<Rightarrow> Inr a)"

lemma as_corrupt_Inr [simp]: "as_corrupt msg r = Inr a \<longleftrightarrow> r = Inr a"
  by (cases r) (auto simp: as_corrupt_def)

lemma as_corrupt_ok [simp]: "as_corrupt msg (Inr a) = Inr a"
  by (simp add: as_corrupt_def)

definition decodeProjectArtifact :: "codec \<Rightarrow> bytes \<Rightarrow> artifact_integrity \<Rightarrow> artifact_limits \<Rightarrow>
    js_error + project_bundle" where
  "decodeProjectArtifact cd compressed mf l =
     and_then (validateLimits l) (\<lambda>_.
     and_then (validateManifest compressed mf l) (\<lambda>_.
     and_then (gunzip_limited cd l compressed) (\<lambda>raw.
     and_then (check (isSafeInteger (ig_uncompressedBytes mf) \<and> ig_uncompressedBytes mf = int (length raw))
       (corrupt ''Artifact uncompressed length does not match its manifest'')) (\<lambda>_.
     and_then (check (cd_sha256 cd raw = ig_sha256 mf)
       (corrupt ''Artifact sha256 does not match its manifest'')) (\<lambda>_.
     and_then (parse_bytes raw) (\<lambda>parsed.
     and_then (enforceFileCount parsed l ''Artifact'') (\<lambda>_.
     and_then (as_corrupt ''Artifact bundle structure is invalid'' (canonicalizeBundle parsed)) (\<lambda>canonical.
     and_then (check (isSafeInteger (ig_fileCount mf) \<and> ig_fileCount mf = int (length (b_files canonical)))
       (corrupt ''Artifact file count does not match its manifest'')) (\<lambda>_.
     Inr canonical)))))))))"

section \<open>Canonical values\<close>

definition canonical_map :: "dep_map \<Rightarrow> bool" where
  "canonical_map m \<longleftrightarrow> distinct (map fst m) \<and> sorted_wrt text_le (map fst m) \<and>
     (\<forall>(k, v) \<in> set m. trim k \<noteq> [] \<and> trim v \<noteq> [])"

definition canonical_path :: "string \<Rightarrow> bool" where
  "canonical_path p \<longleftrightarrow> p \<noteq> [] \<and> p = trim p \<and> backslash \<notin> set p \<and> safe_relative p \<and>
     supported_artifact_path p"

definition canonical_file :: "project_file \<Rightarrow> bool" where
  "canonical_file f \<longleftrightarrow> canonical_path (path f) \<and> nul \<notin> set (content f) \<and>
     (case generatedByRunId f of None \<Rightarrow> True
      | Some r \<Rightarrow> length r = 24 \<and> list_all (\<lambda>c. hex_value c \<noteq> None) r \<and> to_lower r = r)"

definition canonical_bundle :: "project_bundle \<Rightarrow> bool" where
  "canonical_bundle b \<longleftrightarrow> list_all canonical_file (b_files b) \<and> distinct (map path (b_files b)) \<and>
     sorted_wrt path_le (b_files b) \<and> canonical_map (dependencies (b_packageJson b)) \<and>
     canonical_map (devDependencies (b_packageJson b)) \<and> canonical_map (scripts (b_packageJson b))"

lemma map_fst_map_set: "map fst (map_set k v m) = (if k \<in> fst ` set m then map fst m else map fst m @ [k])"
  by (induction k v m rule: map_set.induct) auto

lemma from_entries_sorted:
  assumes "sorted_wrt text_le (map fst acc @ map fst es)" "distinct (map fst acc)"
  shows "distinct (map fst (foldl (\<lambda>m (k, v). map_set k v m) acc es)) \<and>
    sorted_wrt text_le (map fst (foldl (\<lambda>m (k, v). map_set k v m) acc es)) \<and>
    set (foldl (\<lambda>m (k, v). map_set k v m) acc es) \<subseteq> set acc \<union> set es"
  using assms
proof (induction es arbitrary: acc)
  case Nil
  then show ?case by simp
next
  case (Cons e es)
  obtain k v where e: "e = (k, v)" by fastforce
  have "sorted_wrt text_le (map fst (map_set k v acc) @ map fst es)"
    using Cons.prems(1) e by (auto simp: map_fst_map_set sorted_wrt_append)
  moreover have "distinct (map fst (map_set k v acc))" using Cons.prems(2) by simp
  ultimately show ?case using Cons.IH [of "map_set k v acc"] e by (auto dest: set_map_set)
qed

lemma sort_by_sorted: "sorted_wrt le xs \<Longrightarrow> sort_by le xs = xs"
proof (induction xs)
  case (Cons x xs)
  then have "sort_by le xs = xs" by simp
  with Cons.prems show ?case by (cases xs) auto
qed simp

lemma sorted_map_key: "sorted_wrt text_le (map fst m) \<longleftrightarrow> sorted_wrt key_le m"
  by (simp add: sorted_wrt_map key_le_def [abs_def])

lemma canonicalMap_ok: "canonicalMap x name = Inr m \<Longrightarrow> canonical_map m"
proof -
  assume a: "canonicalMap x name = Inr m"
  then obtain ms es where x: "x = Some (JObj ms)" and es: "map_each (entry_of name) ms = Inr es"
    and m: "m = foldl (\<lambda>m (k, v). map_set k v m) [] (sort_by key_le es)"
    by (auto simp: canonicalMap_def and_then_Inr split: option.splits json.splits)
  have "trim k \<noteq> [] \<and> trim v \<noteq> []" if "(k, v) \<in> set es" for k v
    using map_each_image [OF es that] by (auto simp: entry_of_def split: json.splits if_splits)
  moreover have "sorted_wrt text_le (map fst (sort_by key_le es))"
    unfolding sorted_map_key
    by (rule sorted_sort_by) (auto simp: key_le_def text_le_total dest: text_le_trans)
  ultimately show ?thesis
    using from_entries_sorted [of "[]" "sort_by key_le es"] unfolding canonical_map_def m by fastforce
qed

lemma foldl_map_set_distinct:
  "distinct (map fst (acc @ ms)) \<Longrightarrow> foldl (\<lambda>m (k, v). map_set k v m) acc ms = acc @ ms"
proof (induction ms arbitrary: acc)
  case (Cons p ms)
  then show ?case by (cases p) (auto simp: map_set_new)
qed simp

lemma canonicalMap_id: "canonical_map m \<Longrightarrow> canonicalMap (Some (map_json m)) name = Inr m"
proof -
  assume m: "canonical_map m"
  have "map_each (entry_of name) (map (\<lambda>(k, v). (k, JStr v)) m) = Inr m"
    using m by (intro map_each_map) (auto simp: entry_of_def canonical_map_def split: prod.split)
  moreover have "sort_by key_le m = m"
    using m by (intro sort_by_sorted) (simp add: canonical_map_def sorted_map_key)
  ultimately show ?thesis
    using foldl_map_set_distinct [of "[]" m] m
    by (simp add: canonicalMap_def map_json_def canonical_map_def)
qed

lemma dropWhile_id: "(xs \<noteq> [] \<Longrightarrow> \<not> P (hd xs)) \<Longrightarrow> dropWhile P xs = xs"
  by (cases xs) auto

lemma dropWhile_full: "length (dropWhile P xs) = length xs \<Longrightarrow> dropWhile P xs = xs"
proof -
  assume "length (dropWhile P xs) = length xs"
  moreover have "length (takeWhile P xs) + length (dropWhile P xs) = length xs"
    by (metis length_append takeWhile_dropWhile_id)
  ultimately have "takeWhile P xs = []" by simp
  then show ?thesis using takeWhile_dropWhile_id [of P xs] by simp
qed

lemma trim_fixed: "trim p = p \<longleftrightarrow> p = [] \<or> (\<not> is_space (hd p) \<and> \<not> is_space (last p))"
proof
  assume t: "trim p = p"
  let ?q = "dropWhile is_space p"
  have "length (dropWhile is_space (rev ?q)) = length p"
    using arg_cong [OF t, of length] by (simp add: trim_def)
  moreover have "length (dropWhile is_space (rev ?q)) \<le> length ?q" "length ?q \<le> length p"
    using length_dropWhile_le [of is_space "rev ?q"] length_dropWhile_le [of is_space p] by auto
  ultimately have "length ?q = length p" "length (dropWhile is_space (rev ?q)) = length (rev ?q)" by auto
  then have "?q = p" "dropWhile is_space (rev ?q) = rev ?q"
    by (simp_all only: dropWhile_full)
  then show "p = [] \<or> (\<not> is_space (hd p) \<and> \<not> is_space (last p))"
    by (metis hd_dropWhile hd_rev rev_is_Nil_conv)
next
  assume "p = [] \<or> (\<not> is_space (hd p) \<and> \<not> is_space (last p))"
  then show "trim p = p" by (auto simp: trim_def dropWhile_id hd_rev)
qed

lemma trim_replace:
  assumes "raw \<noteq> []" "raw = trim raw"
  shows "trim (replace_char backslash CHR ''/'' raw) = replace_char backslash CHR ''/'' raw"
proof -
  have f: "\<not> is_space (hd raw) \<and> \<not> is_space (last raw)" using assms trim_fixed by metis
  have "\<not> is_space CHR ''/''" by code_simp
  with f assms(1) show ?thesis
    by (simp add: trim_fixed replace_char_def hd_map last_map)
qed

lemma canonicalPath_ok: "canonicalPath x = Inr p \<Longrightarrow> canonical_path p"
proof -
  assume a: "canonicalPath x = Inr p"
  then obtain raw where raw: "x = Some (JStr raw)" "raw \<noteq> []" "raw = trim raw"
    "p = replace_char backslash CHR ''/'' raw" "safe_relative p" "supported_artifact_path p"
    by (auto simp: canonicalPath_def Let_def split: option.splits json.splits if_splits)
  have "backslash \<noteq> CHR ''/''" by code_simp
  then have "backslash \<notin> set p" using raw(4) by (auto simp: replace_char_def split: if_splits)
  moreover have "p \<noteq> []" using raw(2,4) by (simp add: replace_char_def)
  moreover have "p = trim p" using trim_replace [OF raw(2,3)] raw(4) by simp
  ultimately show ?thesis using raw(5,6) by (simp add: canonical_path_def)
qed

lemma canonicalPath_id: "canonical_path p \<Longrightarrow> canonicalPath (Some (JStr p)) = Inr p"
  by (auto simp: canonicalPath_def canonical_path_def Let_def)

lemma lower_hex: "hex_value c \<noteq> None \<Longrightarrow> hex_value (lower_char c) \<noteq> None \<and> lower_char (lower_char c) = lower_char c"
proof -
  define n where "n = (of_char c :: nat)"
  have c: "c = char_of n" by (simp add: n_def)
  assume "hex_value c \<noteq> None"
  then have "48 \<le> n \<and> n \<le> 57 \<or> 97 \<le> n \<and> n \<le> 102 \<or> 65 \<le> n \<and> n \<le> 70"
    by (auto simp: hex_value_def Let_def n_def split: if_splits)
  then show ?thesis by (elim disjE) (simp_all add: lower_char_def hex_value_def c Let_def)
qed

lemma canonicalRunId_ok: "canonicalRunId x = Inr r \<Longrightarrow>
    length r = 24 \<and> list_all (\<lambda>c. hex_value c \<noteq> None) r \<and> to_lower r = r"
  using lower_hex
  by (auto simp: canonicalRunId_def to_lower_def list_all_iff split: json.splits if_splits)

lemma canonicalRunId_id: "length r = 24 \<Longrightarrow> list_all (\<lambda>c. hex_value c \<noteq> None) r \<Longrightarrow> to_lower r = r \<Longrightarrow>
    canonicalRunId (JStr r) = Inr r"
  by (simp add: canonicalRunId_def)

lemma languageSet_text [simp]: "map_of languageSet (language_text l) = Some l"
  by (cases l) (simp_all add: languageSet_def)

lemma canonicalFile_ok: "canonicalFile x = Inr f \<Longrightarrow> canonical_file f"
  unfolding canonicalFile_def canonical_file_def
  by (auto simp: and_then_Inr dest: canonicalPath_ok canonicalRunId_ok
      split: json.splits option.splits if_splits)

lemma canonicalFile_id: "canonical_file f \<Longrightarrow> canonicalFile (file_json f) = Inr f"
  by (auto simp: canonicalFile_def canonical_file_def file_json_def canonicalPath_id canonicalRunId_id
      split: option.splits)

lemma canonicalPackageJson_ok: "canonicalPackageJson x = Inr p \<Longrightarrow>
    canonical_map (dependencies p) \<and> canonical_map (devDependencies p) \<and> canonical_map (scripts p)"
  by (auto simp: canonicalPackageJson_def and_then_Inr dest: canonicalMap_ok
      split: option.splits json.splits)

lemma find_duplicate_None: "find_duplicate seen ps = None \<longleftrightarrow> distinct ps \<and> set ps \<inter> set seen = {}"
  by (induction seen ps rule: find_duplicate.induct) auto

lemma check_distinct_Inr [simp]: "check_distinct what ps = Inr u \<longleftrightarrow> distinct ps"
  by (auto simp: check_distinct_def find_duplicate_None split: option.split)
     (metis find_duplicate_None inf_bot_right list.set(1) option.distinct(1))+

lemma check_distinct_ok [simp]: "distinct ps \<Longrightarrow> check_distinct what ps = Inr ()"
  by simp

lemma sorted_paths: "sorted_wrt path_le (sort_by path_le fs)"
  by (rule sorted_sort_by) (auto simp: path_le_def text_le_total dest: text_le_trans)

lemma canonicalize_ok: "canonicalizeBundle x = Inr b \<Longrightarrow> canonical_bundle b"
proof -
  assume a: "canonicalizeBundle x = Inr b"
  then obtain fs files pkg where f: "map_each canonicalFile fs = Inr files" "distinct (map path files)"
    "\<exists>y. canonicalPackageJson y = Inr pkg" "b = \<lparr>b_files = sort_by path_le files, b_packageJson = pkg\<rparr>"
    by (auto simp: canonicalizeBundle_def and_then_Inr split: json.splits option.splits prod.splits if_splits)
  have "canonical_file f" if "f \<in> set files" for f
    using map_each_image [OF f(1) that] canonicalFile_ok by blast
  with f(2,3,4) show ?thesis
    by (auto simp: canonical_bundle_def list_all_iff sorted_paths dest: canonicalPackageJson_ok)
qed

lemma canonicalize_id: "canonical_bundle b \<Longrightarrow> canonicalizeBundle (bundle_json b) = Inr b"
proof -
  assume b: "canonical_bundle b"
  then have "map_each canonicalFile (map file_json (b_files b)) = Inr (b_files b)"
    by (intro map_each_map canonicalFile_id) (auto simp: canonical_bundle_def list_all_iff)
  moreover have "sort_by path_le (b_files b) = b_files b"
    using b by (intro sort_by_sorted) (simp add: canonical_bundle_def)
  moreover have "check_distinct what (map path (b_files b)) = Inr ()" for what
    using b by (simp add: canonical_bundle_def)
  moreover have "canonicalPackageJson (map_of [(''version'', JNum 1), (''files'', JArr (map file_json (b_files b))),
     (''packageJson'', JObj [(''dependencies'', map_json (dependencies (b_packageJson b))),
        (''devDependencies'', map_json (devDependencies (b_packageJson b))),
        (''scripts'', map_json (scripts (b_packageJson b)))])] ''packageJson'') = Inr (b_packageJson b)"
    using b by (simp add: canonicalPackageJson_def canonicalMap_id canonical_bundle_def)
  ultimately show ?thesis by (simp add: canonicalizeBundle_def bundle_json_def)
qed

lemma printable_map: "distinct (map fst m) \<Longrightarrow> printable (map_json m)"
  by (auto simp: map_json_def comp_def case_prod_beta)

lemma printable_bundle: "canonical_bundle b \<Longrightarrow> printable (bundle_json b)"
  by (auto simp: bundle_json_def file_json_def canonical_bundle_def canonical_map_def printable_map
      split: option.split)

section \<open>Round trip\<close>

lemma limits_safe: "validateLimits l = Inr u \<Longrightarrow>
    0 < maxCompressedBytes l \<and> maxCompressedBytes l \<le> MAX_SAFE_INTEGER \<and>
    0 < maxUncompressedBytes l \<and> maxUncompressedBytes l \<le> MAX_SAFE_INTEGER \<and>
    0 < maxFiles l \<and> maxFiles l \<le> MAX_SAFE_INTEGER"
  by (auto simp: validateLimits_def validateLimit_def and_then_Inr isSafeInteger_def)

text \<open>What node documents of \<open>gunzip\<close> with \<open>maxOutputLength\<close> applied to the output of \<open>gzip\<close>.\<close>

definition gunzip_inverts :: "codec \<Rightarrow> bool" where
  "gunzip_inverts cd \<longleftrightarrow> (\<forall>m raw. int (length raw) \<le> m \<longrightarrow> cd_gunzip cd m (cd_gzip cd raw) = Gunzipped raw)"

lemma canonicalize_length: "canonicalizeBundle (bundle_json b) = Inr c \<Longrightarrow> length (b_files c) = length (b_files b)"
  by (auto simp: canonicalizeBundle_def bundle_json_def and_then_Inr map_each_Inr split: if_splits)

lemma enforceFileCount_bundle:
  "enforceFileCount (bundle_json b) l what = Inr u \<longleftrightarrow> int (length (b_files b)) \<le> maxFiles l"
  by (simp add: enforceFileCount_def bundle_json_def json_member_def)

lemma encode_parts:
  assumes "encodeProjectArtifact cd b l = Inr e"
  obtains c where "validateLimits l = Inr ()" "int (length (b_files b)) \<le> maxFiles l"
    "canonicalizeBundle (bundle_json b) = Inr c"
    "en_uncompressedBytes e = utf8_encode (stringify (bundle_json c))"
    "en_compressedBytes e = cd_gzip cd (en_uncompressedBytes e)"
    "en_sha256 e = cd_sha256 cd (en_uncompressedBytes e)"
    "int (length (en_uncompressedBytes e)) \<le> maxUncompressedBytes l"
    "int (length (en_compressedBytes e)) \<le> maxCompressedBytes l"
    "en_manifest e = \<lparr>ig_format = artifactFormat, ig_formatVersion = 1, ig_sha256 = en_sha256 e,
      ig_uncompressedBytes = int (length (en_uncompressedBytes e)),
      ig_compressedBytes = int (length (en_compressedBytes e)), ig_fileCount = int (length (b_files c))\<rparr>"
  using assms
  by (auto simp: encodeProjectArtifact_def encode_project_json_def encode_canonical_def and_then_Inr Let_def
      enforceFileCount_bundle)

lemma decode_encoded:
  assumes codec: "gunzip_inverts cd" and enc: "encodeProjectArtifact cd b l = Inr e"
  shows "\<exists>c. canonicalizeBundle (bundle_json b) = Inr c \<and>
    decodeProjectArtifact cd (en_compressedBytes e) (en_manifest e) l = Inr c"
proof -
  from enc obtain c where limits: "validateLimits l = Inr ()" and count: "int (length (b_files b)) \<le> maxFiles l"
    and c: "canonicalizeBundle (bundle_json b) = Inr c"
    and raw: "en_uncompressedBytes e = utf8_encode (stringify (bundle_json c))"
    and gz: "en_compressedBytes e = cd_gzip cd (en_uncompressedBytes e)"
    and sha: "en_sha256 e = cd_sha256 cd (en_uncompressedBytes e)"
    and sizes: "int (length (en_uncompressedBytes e)) \<le> maxUncompressedBytes l"
      "int (length (en_compressedBytes e)) \<le> maxCompressedBytes l"
    and mf: "en_manifest e = \<lparr>ig_format = artifactFormat, ig_formatVersion = 1, ig_sha256 = en_sha256 e,
      ig_uncompressedBytes = int (length (en_uncompressedBytes e)),
      ig_compressedBytes = int (length (en_compressedBytes e)), ig_fileCount = int (length (b_files c))\<rparr>"
    by (rule encode_parts)
  have canon: "canonical_bundle c" using c by (rule canonicalize_ok)
  have gunzip: "gunzip_limited cd l (en_compressedBytes e) = Inr (en_uncompressedBytes e)"
    using codec sizes(1) by (simp add: gunzip_limited_def gunzip_inverts_def gz)
  have parsed: "parse_bytes (en_uncompressedBytes e) = Inr (bundle_json c)"
    using printable_bundle [OF canon] by (simp add: parse_bytes_def raw utf8_roundtrip parse_stringify)
  have n: "length (b_files c) = length (b_files b)" using c by (rule canonicalize_length)
  have safe: "isSafeInteger (int (length (en_compressedBytes e)))"
    "isSafeInteger (int (length (en_uncompressedBytes e)))" "isSafeInteger (int (length (b_files c)))"
    using limits_safe [OF limits] sizes count n by (auto simp: isSafeInteger_def)
  have ok: "validateManifest (en_compressedBytes e) (en_manifest e) l = Inr ()"
    using safe sizes by (simp add: validateManifest_def mf)
  have files: "enforceFileCount (bundle_json c) l ''Artifact'' = Inr ()"
    using count n by (simp add: enforceFileCount_bundle)
  have "decodeProjectArtifact cd (en_compressedBytes e) (en_manifest e) l = Inr c"
    using safe sha
    by (simp add: decodeProjectArtifact_def limits ok gunzip parsed files canonicalize_id [OF canon])
       (simp add: mf)
  with c show ?thesis by blast
qed

lemma decode_parts:
  assumes "decodeProjectArtifact cd bytes mf l = Inr b"
  shows "canonical_bundle b \<and> int (length (b_files b)) = ig_fileCount mf \<and>
    (\<exists>raw. cd_gunzip cd (maxUncompressedBytes l) bytes = Gunzipped raw \<and> cd_sha256 cd raw = ig_sha256 mf \<and>
       int (length raw) = ig_uncompressedBytes mf) \<and>
    int (length bytes) = ig_compressedBytes mf \<and> int (length bytes) \<le> maxCompressedBytes l"
  using assms
  by (auto simp: decodeProjectArtifact_def validateManifest_def gunzip_limited_def and_then_Inr
      dest: canonicalize_ok split: gunzip_result.splits)

text \<open>The bundle is read back from text of at most as many files as allowed.\<close>

lemma decode_count:
  assumes "decodeProjectArtifact cd bytes mf l = Inr b"
  shows "int (length (b_files b)) \<le> maxFiles l"
proof -
  from assms obtain parsed where p: "enforceFileCount parsed l ''Artifact'' = Inr ()"
    "canonicalizeBundle parsed = Inr b"
    by (auto simp: decodeProjectArtifact_def and_then_Inr)
  then show ?thesis
    by (auto simp: canonicalizeBundle_def enforceFileCount_def json_member_def and_then_Inr map_each_Inr
        split: json.splits option.splits if_splits prod.splits)
qed

lemma sorted_unique:
  assumes "\<And>x y. x \<in> set xs \<Longrightarrow> y \<in> set xs \<Longrightarrow> le x y \<Longrightarrow> le y x \<Longrightarrow> x = y"
  shows "sorted_wrt le xs \<Longrightarrow> sorted_wrt le ys \<Longrightarrow> set xs = set ys \<Longrightarrow> distinct xs \<Longrightarrow> distinct ys \<Longrightarrow> xs = ys"
  using assms
proof (induction xs arbitrary: ys)
  case (Cons x xs)
  then obtain y zs where ys: "ys = y # zs" by (cases ys) auto
  have "x = y"
  proof (rule ccontr)
    assume "x \<noteq> y"
    then have "y \<in> set xs" "x \<in> set zs" using Cons.prems(3) ys by auto
    then have "le x y" "le y x" using Cons.prems(1,2) ys by auto
    with \<open>x \<noteq> y\<close> \<open>y \<in> set xs\<close> Cons.prems(6) show False by (meson list.set_intros)
  qed
  moreover have "xs = zs"
    using Cons.prems ys \<open>x = y\<close> by (intro Cons.IH) (auto dest: insert_ident)
  ultimately show ?case using ys by simp
qed simp

lemma map_each_perm:
  assumes "map_each f xs = Inr ys" "set xs' = set xs" "length xs' = length xs" 
  shows "\<exists>ys'. map_each f xs' = Inr ys' \<and> set ys' = set ys"
proof -
  define g where "g x = (case f x of Inr y \<Rightarrow> y)" for x
  have fx: "f x = Inr (g x)" if "x \<in> set xs" for x
    using assms(1) that by (auto simp: map_each_Inr in_set_conv_nth g_def split: sum.split)
  have "map_each f zs = Inr (map g zs)" if "set zs \<subseteq> set xs" for zs
    using that fx by (induction zs) auto
  from this [of xs] this [of xs'] assms show ?thesis by auto
qed

lemma canonicalize_perm:
  assumes "canonicalizeBundle (bundle_json b) = Inr c" "distinct (b_files b)" "distinct (b_files b')"
    and "set (b_files b') = set (b_files b)" "b_packageJson b' = b_packageJson b"
  shows "canonicalizeBundle (bundle_json b') = Inr c"
proof -
  have len: "length (map file_json (b_files b')) = length (map file_json (b_files b))"
    using assms(2-4) by (metis distinct_card length_map)
  from assms(1) obtain files pkg where f: "map_each canonicalFile (map file_json (b_files b)) = Inr files"
    "distinct (map path files)" "c = \<lparr>b_files = sort_by path_le files, b_packageJson = pkg\<rparr>"
    by (auto simp: canonicalizeBundle_def bundle_json_def and_then_Inr split: if_splits)
  from map_each_perm [OF f(1) _ len] assms(4) obtain files' where
    f': "map_each canonicalFile (map file_json (b_files b')) = Inr files'" "set files' = set files" by auto
  have n: "length files' = length files" using f(1) f'(1) len by (auto simp: map_each_Inr)
  then have d: "distinct files'" "distinct files" "inj_on path (set files)"
    using f(2) f'(2) by (auto simp: distinct_map card_distinct distinct_card intro: card_distinct)
  then have d': "distinct (map path files')" using f'(2) by (simp add: distinct_map)
  have "sort_by path_le files = sort_by path_le files'"
  proof (rule sorted_unique [of _ path_le])
    show "x = y" if "x \<in> set (sort_by path_le files)" "y \<in> set (sort_by path_le files)" "path_le x y" "path_le y x" for x y
      using that d(3) text_le_antisym by (auto simp: path_le_def inj_on_def)
  qed (use d f'(2) in \<open>auto simp: sorted_paths\<close>)
  with f f' d' assms(1,5) show ?thesis
    by (auto simp: canonicalizeBundle_def bundle_json_def and_then_Inr split: if_splits)
qed

section \<open>Errors\<close>

definition artifact_code :: "js_error \<Rightarrow> string set \<Rightarrow> bool" where
  "artifact_code e codes \<longleftrightarrow> err_artifact e \<and> (\<exists>c \<in> codes. err_code e = Some c)"

lemma and_then_Inl: "and_then r k = Inl e \<longleftrightarrow> r = Inl e \<or> (\<exists>a. r = Inr a \<and> k a = Inl e)"
  by (cases r) auto

lemma check_Inl [simp]: "check b e = Inl e' \<longleftrightarrow> \<not> b \<and> e' = e"
  by (auto simp: check_def)

lemma map_each_Inl: "map_each f xs = Inl e \<Longrightarrow> \<exists>x \<in> set xs. f x = Inl e"
  by (induction xs) (auto simp: and_then_Inl)

named_theorems error_defs \<open>the artifact errors\<close>

lemmas [error_defs] = invalid_bundle_def invalid_path_def corrupt_def limit_exceeded_def
  artifact_error_def coded_error_def plain_error_def

lemma canonicalMap_error: "canonicalMap x n = Inl e \<Longrightarrow> err_artifact e"
  by (auto simp: canonicalMap_def and_then_Inl entry_of_def error_defs dest!: map_each_Inl
      split: option.splits json.splits if_splits)

lemma canonicalFile_error: "canonicalFile x = Inl e \<Longrightarrow> err_artifact e"
  by (auto simp: canonicalFile_def and_then_Inl canonicalPath_def canonicalRunId_def Let_def error_defs
      split: option.splits json.splits if_splits)

lemma canonicalize_error: "canonicalizeBundle x = Inl e \<Longrightarrow> err_artifact e"
  by (auto simp: canonicalizeBundle_def and_then_Inl check_distinct_def canonicalPackageJson_def error_defs
      dest!: map_each_Inl dest: canonicalFile_error canonicalMap_error
      split: option.splits json.splits if_splits prod.splits)

lemma as_corrupt_Inl: "as_corrupt msg (canonicalizeBundle x) = Inl e \<Longrightarrow> e = corrupt msg"
  using canonicalize_error by (cases "canonicalizeBundle x") (auto simp: as_corrupt_def)

lemma decode_errors:
  assumes "decodeProjectArtifact cd bytes mf l = Inl e"
  shows "artifact_code e {''ARTIFACT_INVALID_BUNDLE'', ''ARTIFACT_FORMAT_UNSUPPORTED'', ''ARTIFACT_CORRUPT'',
    ''ARTIFACT_LIMIT_EXCEEDED''}"
proof -
  have c: "artifact_code (invalid_bundle m) {''ARTIFACT_INVALID_BUNDLE'', ''ARTIFACT_FORMAT_UNSUPPORTED'',
      ''ARTIFACT_CORRUPT'', ''ARTIFACT_LIMIT_EXCEEDED''}"
    "artifact_code (corrupt m) {''ARTIFACT_INVALID_BUNDLE'', ''ARTIFACT_FORMAT_UNSUPPORTED'',
      ''ARTIFACT_CORRUPT'', ''ARTIFACT_LIMIT_EXCEEDED''}"
    "artifact_code (limit_exceeded m) {''ARTIFACT_INVALID_BUNDLE'', ''ARTIFACT_FORMAT_UNSUPPORTED'',
      ''ARTIFACT_CORRUPT'', ''ARTIFACT_LIMIT_EXCEEDED''}"
    "artifact_code (artifact_error ''ARTIFACT_FORMAT_UNSUPPORTED'' m) {''ARTIFACT_INVALID_BUNDLE'',
      ''ARTIFACT_FORMAT_UNSUPPORTED'', ''ARTIFACT_CORRUPT'', ''ARTIFACT_LIMIT_EXCEEDED''}" for m
    by (simp_all add: artifact_code_def error_defs)
  show ?thesis
    using assms unfolding decodeProjectArtifact_def and_then_Inl
    by (elim disjE exE conjE)
       (auto simp: and_then_Inl validateLimits_def validateLimit_def
        validateManifest_def gunzip_limited_def parse_bytes_def enforceFileCount_def c
        dest!: as_corrupt_Inl split: gunzip_result.splits option.splits json.splits)
qed

section \<open>Properties\<close>

text \<open>C16: Encoding and decoding a project artifact is a round trip: whenever a bundle encodes, its
  bytes and manifest decode, under the same limits, to the canonical form of the bundle. It assumes
  of node's gzip only that gunzip inverts it within the output limit; JSON text and UTF-8 are
  modelled, not assumed.\<close>

theorem artifact_roundtrip:
  assumes "gunzip_inverts cd" "encodeProjectArtifact cd b l = Inr e"
  shows "\<exists>c. canonicalizeBundle (bundle_json b) = Inr c \<and>
    decodeProjectArtifact cd (en_compressedBytes e) (en_manifest e) l = Inr c"
  using assms by (rule decode_encoded)

text \<open>C17: Whatever bytes and manifest are read from storage, a decoded bundle is canonical (every
  path relative, without empty, dot or dot-dot segments, backslashes or NUL, with a supported
  extension, paths distinct and sorted, package maps without blank entries), the bytes have the
  recorded sizes and SHA-256, and the file count is the recorded one and within the limit.\<close>

theorem decode_only_canonical:
  assumes "decodeProjectArtifact cd bytes mf l = Inr b"
  shows "canonical_bundle b \<and> int (length (b_files b)) = ig_fileCount mf \<and>
    int (length (b_files b)) \<le> maxFiles l \<and>
    (\<exists>raw. cd_gunzip cd (maxUncompressedBytes l) bytes = Gunzipped raw \<and> cd_sha256 cd raw = ig_sha256 mf \<and>
       int (length raw) = ig_uncompressedBytes mf) \<and>
    int (length bytes) = ig_compressedBytes mf \<and> int (length bytes) \<le> maxCompressedBytes l"
  using decode_parts [OF assms] decode_count [OF assms] by blast

text \<open>C18: Decoding fails only with an \<open>ArtifactError\<close> of one of four codes; in particular a
  canonicalization failure of stored content is reported as corruption.\<close>

theorem decode_error_codes:
  assumes "decodeProjectArtifact cd bytes mf l = Inl e"
  shows "artifact_code e {''ARTIFACT_INVALID_BUNDLE'', ''ARTIFACT_FORMAT_UNSUPPORTED'', ''ARTIFACT_CORRUPT'',
    ''ARTIFACT_LIMIT_EXCEEDED''}"
  using assms by (rule decode_errors)

text \<open>The encoding does not depend on the order of the files: a bundle with the same files in
  another order gives the same bytes, hash and manifest, so that a retry of a write never conflicts
  with the idempotency key because of the order.\<close>

theorem encode_order_irrelevant:
  assumes "encodeProjectArtifact cd b l = Inr e" "distinct (b_files b)" "distinct (b_files b')"
    and "set (b_files b') = set (b_files b)" "b_packageJson b' = b_packageJson b"
  shows "encodeProjectArtifact cd b' l = Inr e"
proof -
  have n: "length (b_files b') = length (b_files b)" using assms(2-4) by (metis distinct_card)
  from assms(1) obtain c where c: "canonicalizeBundle (bundle_json b) = Inr c" by (rule encode_parts)
  have c': "canonicalizeBundle (bundle_json b') = Inr c"
    using c assms(2-5) by (rule canonicalize_perm)
  have "enforceFileCount (bundle_json b') l ''Artifact'' = enforceFileCount (bundle_json b) l ''Artifact''"
    using n by (simp add: enforceFileCount_def bundle_json_def json_member_def)
  with assms(1) c c' show ?thesis by (simp add: encodeProjectArtifact_def encode_project_json_def)
qed

section \<open>A concrete artifact\<close>

definition demo_codec :: codec where
  "demo_codec = \<lparr>cd_gzip = (\<lambda>raw. raw), cd_gunzip = (\<lambda>m raw. if int (length raw) \<le> m then Gunzipped raw
     else GunzipTooLarge), cd_sha256 = (\<lambda>raw. show_nat (length raw))\<rparr>"

definition demo_limits :: artifact_limits where
  "demo_limits = \<lparr>maxCompressedBytes = 1000, maxUncompressedBytes = 1000, maxFiles = 2\<rparr>"

definition demo_file :: "string \<Rightarrow> project_file" where
  "demo_file p = \<lparr>path = p, content = ''x'', language = LTs, generatedByRunId = None\<rparr>"

definition demo_bundle :: "string list \<Rightarrow> project_bundle" where
  "demo_bundle ps = \<lparr>b_files = map demo_file ps,
     b_packageJson = \<lparr>dependencies = [(''b'', ''1''), (''a'', ''2'')], devDependencies = [], scripts = []\<rparr>\<rparr>"

lemma demo_codec_inverts: "gunzip_inverts demo_codec"
  by (simp add: gunzip_inverts_def demo_codec_def)

lemma demo_canonical:
  "canonicalizeBundle (bundle_json (demo_bundle [''b.ts'', ''a.ts''])) =
   Inr \<lparr>b_files = [demo_file ''a.ts'', demo_file ''b.ts''], b_packageJson =
     \<lparr>dependencies = [(''a'', ''2''), (''b'', ''1'')], devDependencies = [], scripts = []\<rparr>\<rparr>"
  by code_simp

lemma demo_encode_canonical:
  "length (stringify j) \<le> 500 \<Longrightarrow> \<exists>e. encode_canonical demo_codec demo_limits what j n = Inr e"
  using utf8_length [of "stringify j"]
  by (auto simp: encode_canonical_def Let_def demo_limits_def demo_codec_def check_def)

lemma demo_encodes: "\<exists>e. encodeProjectArtifact demo_codec (demo_bundle [''b.ts'', ''a.ts'']) demo_limits = Inr e"
proof -
  have "validateLimits demo_limits = Inr ()" by code_simp
  moreover have "enforceFileCount (bundle_json (demo_bundle [''b.ts'', ''a.ts''])) demo_limits ''Artifact'' = Inr ()"
    by (simp add: enforceFileCount_bundle) (simp add: demo_bundle_def demo_limits_def)
  moreover have "length (stringify (bundle_json \<lparr>b_files = [demo_file ''a.ts'', demo_file ''b.ts''], b_packageJson =
     \<lparr>dependencies = [(''a'', ''2''), (''b'', ''1'')], devDependencies = [], scripts = []\<rparr>\<rparr>)) \<le> 500"
    by code_simp
  ultimately show ?thesis
    using demo_encode_canonical by (simp add: encodeProjectArtifact_def encode_project_json_def demo_canonical)
qed

theorem artifact_roundtrip_witness:
  "\<exists>e. encodeProjectArtifact demo_codec (demo_bundle [''b.ts'', ''a.ts'']) demo_limits = Inr e \<and>
     decodeProjectArtifact demo_codec (en_compressedBytes e) (en_manifest e) demo_limits =
       Inr \<lparr>b_files = [demo_file ''a.ts'', demo_file ''b.ts''], b_packageJson =
         \<lparr>dependencies = [(''a'', ''2''), (''b'', ''1'')], devDependencies = [], scripts = []\<rparr>\<rparr>"
  using demo_encodes artifact_roundtrip [OF demo_codec_inverts] demo_canonical by fastforce

theorem decode_only_canonical_witness:
  "\<exists>(e :: encoded_artifact) b. decodeProjectArtifact demo_codec (en_compressedBytes e) (en_manifest e) demo_limits = Inr b \<and>
     canonical_bundle b"
proof -
  obtain e where e: "encodeProjectArtifact demo_codec (demo_bundle [''b.ts'', ''a.ts'']) demo_limits = Inr e"
    using demo_encodes by blast
  obtain b where b: "decodeProjectArtifact demo_codec (en_compressedBytes e) (en_manifest e) demo_limits = Inr b"
    using decode_encoded [OF demo_codec_inverts e] by blast
  with decode_only_canonical [OF b] show ?thesis by (intro exI [of _ e] exI [of _ b]) simp
qed

theorem decode_error_codes_witness:
  "\<exists>e. decodeProjectArtifact demo_codec [] \<lparr>ig_format = artifactFormat, ig_formatVersion = 1,
       ig_sha256 = [], ig_uncompressedBytes = 0, ig_compressedBytes = 5, ig_fileCount = 0\<rparr> demo_limits = Inl e \<and>
     artifact_code e {''ARTIFACT_INVALID_BUNDLE'', ''ARTIFACT_FORMAT_UNSUPPORTED'', ''ARTIFACT_CORRUPT'',
       ''ARTIFACT_LIMIT_EXCEEDED''}"
proof -
  have "decodeProjectArtifact demo_codec [] \<lparr>ig_format = artifactFormat, ig_formatVersion = 1,
       ig_sha256 = [], ig_uncompressedBytes = 0, ig_compressedBytes = 5, ig_fileCount = 0\<rparr> demo_limits =
     Inl (corrupt ''Artifact compressed length does not match its manifest'')"
    by code_simp
  from decode_error_codes [OF this] this show ?thesis by blast
qed

theorem encode_order_irrelevant_witness:
  "\<exists>e. encodeProjectArtifact demo_codec (demo_bundle [''b.ts'', ''a.ts'']) demo_limits = Inr e \<and>
     encodeProjectArtifact demo_codec (demo_bundle [''a.ts'', ''b.ts'']) demo_limits = Inr e"
proof -
  obtain e where e: "encodeProjectArtifact demo_codec (demo_bundle [''b.ts'', ''a.ts'']) demo_limits = Inr e"
    using demo_encodes by blast
  have "encodeProjectArtifact demo_codec (demo_bundle [''a.ts'', ''b.ts'']) demo_limits = Inr e"
    by (rule encode_order_irrelevant [OF e]) (auto simp: demo_bundle_def demo_file_def)
  with e show ?thesis by blast
qed

end
