(* ===== verification/PreviewBundle.thy ===== *)
theory PreviewBundle
  imports Bundle
begin

text \<open>
  \<open>artifacts/previewBundle.ts\<close>: the bundle of a built preview, whose files are base64 text with
  the content type their extension prescribes. \<open>Buffer\<close>'s base64 conversions are written out;
  the decoder skips what is not in the alphabet and stops at padding, as node's does.
\<close>

section \<open>Base64\<close>

definition b64_char :: "nat \<Rightarrow> char" where
  "b64_char n = (if n < 26 then char_of (65 + n) else if n < 52 then char_of (71 + n)
     else if n < 62 then char_of (n - 4) else if n = 62 then CHR ''+'' else CHR ''/'')"

definition b64_value :: "char \<Rightarrow> nat option" where
  "b64_value c = (let n = of_char c :: nat in
     if 65 \<le> n \<and> n \<le> 90 then Some (n - 65)
     else if 97 \<le> n \<and> n \<le> 122 then Some (n - 71)
     else if 48 \<le> n \<and> n \<le> 57 then Some (n + 4)
     else if n = 43 \<or> n = 45 then Some 62
     else if n = 47 \<or> n = 95 then Some 63 else None)"

fun b64_encode :: "bytes \<Rightarrow> string" where
  "b64_encode [] = []"
| "b64_encode [a] = (let x = unat a in
     [b64_char (x div 4), b64_char ((x mod 4) * 16), CHR ''='', CHR ''=''])"
| "b64_encode [a, b] = (let x = unat a; y = unat b in
     [b64_char (x div 4), b64_char ((x mod 4) * 16 + y div 16), b64_char ((y mod 16) * 4), CHR ''=''])"
| "b64_encode (a # b # c # bs) = (let x = unat a; y = unat b; z = unat c in
     [b64_char (x div 4), b64_char ((x mod 4) * 16 + y div 16),
      b64_char ((y mod 16) * 4 + z div 64), b64_char (z mod 64)] @ b64_encode bs)"

text \<open>The sextets of the text up to the padding, and the bytes they hold.\<close>

definition b64_sextets :: "string \<Rightarrow> nat list" where
  "b64_sextets s = List.map_filter b64_value (takeWhile (\<lambda>c. c \<noteq> CHR ''='') s)"

fun sextets_bytes :: "nat list \<Rightarrow> bytes" where
  "sextets_bytes (p # q # r # t # ss) =
     of_nat (p * 4 + q div 16) # of_nat ((q mod 16) * 16 + r div 4) # of_nat ((r mod 4) * 64 + t) #
     sextets_bytes ss"
| "sextets_bytes [p, q, r] = [of_nat (p * 4 + q div 16), of_nat ((q mod 16) * 16 + r div 4)]"
| "sextets_bytes [p, q] = [of_nat (p * 4 + q div 16)]"
| "sextets_bytes _ = []"

definition b64_decode :: "string \<Rightarrow> bytes" where
  "b64_decode s = sextets_bytes (b64_sextets s)"

section \<open>artifacts/previewBundle.ts\<close>

record preview_file =
  pf_path :: string
  pf_contentBase64 :: string
  pf_contentType :: string

type_synonym preview_bundle = "preview_file list"

definition contentTypes :: "(string \<times> string) list" where
  "contentTypes = [(''.avif'', ''image/avif''), (''.css'', ''text/css; charset=utf-8''),
     (''.gif'', ''image/gif''), (''.html'', ''text/html; charset=utf-8''), (''.ico'', ''image/x-icon''),
     (''.jpeg'', ''image/jpeg''), (''.jpg'', ''image/jpeg''),
     (''.js'', ''text/javascript; charset=utf-8''), (''.json'', ''application/json; charset=utf-8''),
     (''.map'', ''application/json; charset=utf-8''), (''.mjs'', ''text/javascript; charset=utf-8''),
     (''.mp3'', ''audio/mpeg''), (''.mp4'', ''video/mp4''), (''.ogg'', ''audio/ogg''),
     (''.pdf'', ''application/pdf''), (''.png'', ''image/png''), (''.svg'', ''image/svg+xml''),
     (''.ttf'', ''font/ttf''), (''.txt'', ''text/plain; charset=utf-8''), (''.wasm'', ''application/wasm''),
     (''.webm'', ''video/webm''), (''.webmanifest'', ''application/manifest+json''),
     (''.webp'', ''image/webp''), (''.woff'', ''font/woff''), (''.woff2'', ''font/woff2''),
     (''.xml'', ''application/xml'')]"

definition canonicalPreviewPath :: "json option \<Rightarrow> js_error + string" where
  "canonicalPreviewPath input =
     (case input of
        Some (JStr raw) \<Rightarrow>
          if raw = [] \<or> raw \<noteq> trim raw
          then Inl (invalid_path ''Preview file path must be a non-empty string'')
          else let normalized = replace_char backslash CHR ''/'' raw
               in if \<not> safe_relative normalized
                  then Inl (invalid_path (''Unsafe preview file path: '' @ raw))
                  else Inr normalized
      | _ \<Rightarrow> Inl (invalid_path ''Preview file path must be a non-empty string''))"

text \<open>From the last dot on, in lower case; empty without a dot.\<close>

definition lower_extension :: "string \<Rightarrow> string" where
  "lower_extension p = (if CHR ''.'' \<in> set p
     then to_lower (CHR ''.'' # rev (takeWhile (\<lambda>c. c \<noteq> CHR ''.'') (rev p))) else [])"

definition previewContentTypeForPath :: "string \<Rightarrow> js_error + string" where
  "previewContentTypeForPath input =
     and_then (canonicalPreviewPath (Some (JStr input))) (\<lambda>p.
     case map_of contentTypes (lower_extension p) of
       None \<Rightarrow> Inl (invalid_path (''Unsupported preview file type: '' @ p))
     | Some t \<Rightarrow> Inr t)"

definition canonicalBase64 :: "json option \<Rightarrow> js_error + string" where
  "canonicalBase64 input =
     (case input of
        Some (JStr s) \<Rightarrow> if b64_encode (b64_decode s) \<noteq> s
          then Inl (invalid_bundle ''Preview file content is not canonical base64'') else Inr s
      | _ \<Rightarrow> Inl (invalid_bundle ''Preview file content must be base64 text''))"

definition canonicalPreviewFile :: "json \<Rightarrow> js_error + preview_file" where
  "canonicalPreviewFile input =
     (case input of
        JObj ms \<Rightarrow>
          and_then (canonicalPreviewPath (map_of ms ''path'')) (\<lambda>p.
          and_then (previewContentTypeForPath p) (\<lambda>t.
          and_then (check (map_of ms ''contentType'' = Some (JStr t))
            (invalid_bundle (''Preview content type does not match path: '' @ p))) (\<lambda>_.
          and_then (canonicalBase64 (map_of ms ''contentBase64'')) (\<lambda>b.
          Inr \<lparr>pf_path = p, pf_contentBase64 = b, pf_contentType = t\<rparr>))))
      | _ \<Rightarrow> Inl (invalid_bundle ''Preview files must be objects''))"

definition preview_path_le :: "preview_file \<Rightarrow> preview_file \<Rightarrow> bool" where
  "preview_path_le f g = text_le (pf_path f) (pf_path g)"

definition canonicalizePreview :: "json \<Rightarrow> js_error + preview_bundle" where
  "canonicalizePreview input =
     (case input of
        JObj ms \<Rightarrow>
          (case (map_of ms ''version'', map_of ms ''entryPath'', map_of ms ''files'') of
             (Some (JNum v), Some (JStr entry), Some (JArr fs)) \<Rightarrow>
               if v \<noteq> 1 \<or> entry \<noteq> ''index.html''
               then Inl (invalid_bundle ''Preview bundle version, entry, or files are invalid'')
               else and_then (map_each canonicalPreviewFile fs) (\<lambda>files.
                    and_then (check_distinct ''Duplicate preview path: '' (map pf_path files)) (\<lambda>_.
                    and_then (check (''index.html'' \<in> set (map pf_path files))
                      (invalid_bundle ''Preview bundle is missing index.html'')) (\<lambda>_.
                    Inr (sort_by preview_path_le files))))
           | _ \<Rightarrow> Inl (invalid_bundle ''Preview bundle version, entry, or files are invalid''))
      | _ \<Rightarrow> Inl (invalid_bundle ''Preview bundle must be an object''))"

definition preview_file_json :: "preview_file \<Rightarrow> json" where
  "preview_file_json f = JObj [(''path'', JStr (pf_path f)),
     (''contentBase64'', JStr (pf_contentBase64 f)), (''contentType'', JStr (pf_contentType f))]"

definition preview_json :: "preview_bundle \<Rightarrow> json" where
  "preview_json fs = JObj [(''version'', JNum 1), (''entryPath'', JStr ''index.html''),
     (''files'', JArr (map preview_file_json fs))]"

definition preview_file_of :: "string \<times> bytes \<Rightarrow> js_error + preview_file" where
  "preview_file_of file =
     and_then (canonicalPreviewPath (Some (JStr (fst file)))) (\<lambda>p.
     and_then (previewContentTypeForPath p) (\<lambda>t.
     Inr \<lparr>pf_path = p, pf_contentBase64 = b64_encode (snd file), pf_contentType = t\<rparr>))"

definition createPreviewArtifactBundle :: "(string \<times> bytes) list \<Rightarrow> js_error + preview_bundle" where
  "createPreviewArtifactBundle files = map_each preview_file_of files"

definition encodePreviewArtifact :: "codec \<Rightarrow> preview_bundle \<Rightarrow> artifact_limits \<Rightarrow> js_error + encoded_artifact" where
  "encodePreviewArtifact cd bundle l =
     and_then (validateLimits l) (\<lambda>_.
     and_then (enforceFileCount (preview_json bundle) l ''Preview artifact'') (\<lambda>_.
     and_then (canonicalizePreview (preview_json bundle)) (\<lambda>canonical.
     encode_canonical cd l ''Preview artifact'' (preview_json canonical) (length canonical))))"

definition preview_parse :: "bytes \<Rightarrow> js_error + json" where
  "preview_parse raw = (case Option.bind (utf8_decode raw) JSON_parse of
     None \<Rightarrow> Inl (corrupt ''Preview artifact JSON is corrupt'') | Some j \<Rightarrow> Inr j)"

definition decodePreviewArtifact :: "codec \<Rightarrow> bytes \<Rightarrow> artifact_integrity \<Rightarrow> artifact_limits \<Rightarrow>
    js_error + preview_bundle" where
  "decodePreviewArtifact cd compressed mf l =
     and_then (validateLimits l) (\<lambda>_.
     and_then (check (ig_format mf = artifactFormat \<and> ig_formatVersion mf = 1)
       (artifact_error ''ARTIFACT_FORMAT_UNSUPPORTED'' ''Preview artifact format is unsupported'')) (\<lambda>_.
     and_then (check (isSafeInteger (ig_compressedBytes mf) \<and> ig_compressedBytes mf = int (length compressed) \<and>
         int (length compressed) \<le> maxCompressedBytes l)
       (corrupt ''Preview artifact compressed length is invalid'')) (\<lambda>_.
     and_then (case cd_gunzip cd (maxUncompressedBytes l) compressed of
         Gunzipped raw \<Rightarrow> Inr raw
       | _ \<Rightarrow> Inl (corrupt ''Preview artifact gzip data is corrupt'')) (\<lambda>raw.
     and_then (check (ig_uncompressedBytes mf = int (length raw) \<and> cd_sha256 cd raw = ig_sha256 mf)
       (corrupt ''Preview artifact integrity check failed'')) (\<lambda>_.
     and_then (preview_parse raw) (\<lambda>parsed.
     and_then (enforceFileCount parsed l ''Preview artifact'') (\<lambda>_.
     and_then (as_corrupt ''Preview artifact bundle structure is invalid'' (canonicalizePreview parsed)) (\<lambda>canonical.
     and_then (check (ig_fileCount mf = int (length canonical))
       (corrupt ''Preview artifact file count is invalid'')) (\<lambda>_.
     Inr canonical)))))))))"

section \<open>Base64 round trip\<close>

lemma b64_value_char: "n < 64 \<Longrightarrow> b64_value (b64_char n) = Some n"
  by (auto simp: b64_value_def b64_char_def Let_def)

lemma b64_char_pad: "n < 64 \<Longrightarrow> b64_char n \<noteq> CHR ''=''"
proof -
  assume "n < 64"
  moreover have "b64_value CHR ''='' = None" by code_simp
  ultimately show ?thesis using b64_value_char by force
qed

lemma b64_sextets_Cons: "n < 64 \<Longrightarrow> b64_sextets (b64_char n # s) = n # b64_sextets s"
  by (simp add: b64_sextets_def b64_char_pad b64_value_char List.map_filter_simps)

lemma b64_sextets_pad: "b64_sextets (CHR ''='' # s) = []" "b64_sextets [] = []"
  by (simp_all add: b64_sextets_def List.map_filter_simps)

lemma byte_parts:
  fixes x y z :: nat
  assumes "x < 256" "y < 256" "z < 256"
  shows "x div 4 < 64" "(x mod 4) * 16 + y div 16 < 64" "(y mod 16) * 4 + z div 64 < 64" "z mod 64 < 64"
    "x div 4 * 4 + ((x mod 4) * 16 + y div 16) div 16 = x"
    "((x mod 4) * 16 + y div 16) mod 16 * 16 + ((y mod 16) * 4 + z div 64) div 4 = y"
    "((y mod 16) * 4 + z div 64) mod 4 * 64 + z mod 64 = z"
proof -
  have d: "y div 16 < 16" "z div 64 < 4" "x div 4 < 64" using assms by (simp_all add: less_mult_imp_div_less)
  have m: "x mod 4 < 4" "y mod 16 < 16" "z mod 64 < 64" by simp_all
  show "x div 4 < 64" "(x mod 4) * 16 + y div 16 < 64" "(y mod 16) * 4 + z div 64 < 64" "z mod 64 < 64"
    using d m by linarith+
  have "((x mod 4) * 16 + y div 16) div 16 = x mod 4" "((x mod 4) * 16 + y div 16) mod 16 = y div 16"
    "((y mod 16) * 4 + z div 64) div 4 = y mod 16" "((y mod 16) * 4 + z div 64) mod 4 = z div 64"
    using d by simp_all
  then show "x div 4 * 4 + ((x mod 4) * 16 + y div 16) div 16 = x"
    "((x mod 4) * 16 + y div 16) mod 16 * 16 + ((y mod 16) * 4 + z div 64) div 4 = y"
    "((y mod 16) * 4 + z div 64) mod 4 * 64 + z mod 64 = z"
    by simp_all
qed

lemma byte_bound: "unat (b :: 8 word) < 256"
  by (rule less_le_trans [OF unsigned_less]) simp

lemma b64_roundtrip: "b64_decode (b64_encode bs) = bs"
  unfolding b64_decode_def
proof (induction bs rule: b64_encode.induct)
  case 1
  then show ?case by (simp add: b64_sextets_pad)
next
  case (2 a)
  note p = byte_parts [OF byte_bound [of a] byte_bound [of 0] byte_bound [of 0]]
  have "(unat a mod 4) * 16 < 64" by simp
  then show ?case using p(1,5) by (simp add: Let_def b64_sextets_Cons b64_sextets_pad)
next
  case (3 a b)
  note p = byte_parts [OF byte_bound [of a] byte_bound [of b] byte_bound [of 0]]
  have "(unat b mod 16) * 4 < 64" by simp
  then show ?case using p(1,2,5,6) by (simp add: Let_def b64_sextets_Cons b64_sextets_pad)
next
  case (4 a b c bs)
  note p = byte_parts [OF byte_bound [of a] byte_bound [of b] byte_bound [of c]]
  show ?case using p 4 by (simp add: Let_def b64_sextets_Cons)
qed

section \<open>Preview round trip\<close>

definition preview_path :: "string \<Rightarrow> bool" where
  "preview_path p \<longleftrightarrow> p \<noteq> [] \<and> p = trim p \<and> backslash \<notin> set p \<and> safe_relative p"

definition canonical_preview_file :: "preview_file \<Rightarrow> bool" where
  "canonical_preview_file f \<longleftrightarrow> preview_path (pf_path f) \<and>
     b64_encode (b64_decode (pf_contentBase64 f)) = pf_contentBase64 f \<and>
     map_of contentTypes (lower_extension (pf_path f)) = Some (pf_contentType f)"

definition canonical_preview :: "preview_bundle \<Rightarrow> bool" where
  "canonical_preview fs \<longleftrightarrow> list_all canonical_preview_file fs \<and> distinct (map pf_path fs) \<and>
     sorted_wrt preview_path_le fs \<and> ''index.html'' \<in> set (map pf_path fs)"

lemma canonicalPreviewPath_ok: "canonicalPreviewPath x = Inr p \<Longrightarrow> preview_path p"
proof -
  assume a: "canonicalPreviewPath x = Inr p"
  then obtain raw where raw: "x = Some (JStr raw)" "raw \<noteq> []" "raw = trim raw"
    "p = replace_char backslash CHR ''/'' raw" "safe_relative p"
    by (auto simp: canonicalPreviewPath_def Let_def split: option.splits json.splits if_splits)
  have "backslash \<noteq> CHR ''/''" by code_simp
  then have "backslash \<notin> set p" using raw(4) by (auto simp: replace_char_def split: if_splits)
  moreover have "p \<noteq> []" using raw(2,4) by (simp add: replace_char_def)
  moreover have "p = trim p" using trim_replace [OF raw(2,3)] raw(4) by simp
  ultimately show ?thesis using raw(5) by (simp add: preview_path_def)
qed

lemma canonicalPreviewPath_id: "preview_path p \<Longrightarrow> canonicalPreviewPath (Some (JStr p)) = Inr p"
  by (auto simp: canonicalPreviewPath_def preview_path_def Let_def)

lemma contentType_ok: "previewContentTypeForPath p = Inr t \<Longrightarrow> preview_path p \<Longrightarrow>
    map_of contentTypes (lower_extension p) = Some t"
  by (simp add: previewContentTypeForPath_def canonicalPreviewPath_id split: option.splits)

lemma canonicalPreviewFile_ok: "canonicalPreviewFile x = Inr f \<Longrightarrow> canonical_preview_file f"
  by (auto simp: canonicalPreviewFile_def canonical_preview_file_def and_then_Inr canonicalBase64_def
      dest: canonicalPreviewPath_ok contentType_ok split: json.splits option.splits if_splits)

lemma canonicalPreviewFile_id: "canonical_preview_file f \<Longrightarrow> canonicalPreviewFile (preview_file_json f) = Inr f"
  by (simp add: canonicalPreviewFile_def canonical_preview_file_def preview_file_json_def
      canonicalPreviewPath_id previewContentTypeForPath_def canonicalBase64_def)

lemma canonicalize_preview_ok: "canonicalizePreview x = Inr c \<Longrightarrow> canonical_preview c"
proof -
  assume a: "canonicalizePreview x = Inr c"
  then obtain fs files where f: "map_each canonicalPreviewFile fs = Inr files" "distinct (map pf_path files)"
    "''index.html'' \<in> set (map pf_path files)" "c = sort_by preview_path_le files"
    by (auto simp: canonicalizePreview_def and_then_Inr split: json.splits option.splits prod.splits if_splits)
  have "canonical_preview_file f" if "f \<in> set files" for f
    using map_each_image [OF f(1) that] canonicalPreviewFile_ok by blast
  moreover have "sorted_wrt preview_path_le (sort_by preview_path_le files)"
    by (rule sorted_sort_by) (auto simp: preview_path_le_def text_le_total dest: text_le_trans)
  ultimately show ?thesis using f(2,3,4) by (auto simp: canonical_preview_def list_all_iff)
qed

lemma canonicalize_preview_id: "canonical_preview c \<Longrightarrow> canonicalizePreview (preview_json c) = Inr c"
proof -
  assume c: "canonical_preview c"
  then have "map_each canonicalPreviewFile (map preview_file_json c) = Inr c"
    by (intro map_each_map canonicalPreviewFile_id) (auto simp: canonical_preview_def list_all_iff)
  moreover have "sort_by preview_path_le c = c"
    using c by (intro sort_by_sorted) (simp add: canonical_preview_def)
  ultimately show ?thesis using c
    by (simp add: canonicalizePreview_def preview_json_def canonical_preview_def check_def)
qed

lemma printable_preview: "printable (preview_json c)"
  by (auto simp: preview_json_def preview_file_json_def)

lemma decode_encoded_preview:
  assumes codec: "gunzip_inverts cd" and enc: "encodePreviewArtifact cd b l = Inr e"
  shows "\<exists>c. canonicalizePreview (preview_json b) = Inr c \<and>
    decodePreviewArtifact cd (en_compressedBytes e) (en_manifest e) l = Inr c"
proof -
  from enc obtain c where limits: "validateLimits l = Inr ()" and count: "int (length b) \<le> maxFiles l"
    and c: "canonicalizePreview (preview_json b) = Inr c"
    and e: "encode_canonical cd l ''Preview artifact'' (preview_json c) (length c) = Inr e"
    by (auto simp: encodePreviewArtifact_def and_then_Inr enforceFileCount_def preview_json_def json_member_def)
  define raw where "raw = utf8_encode (stringify (preview_json c))"
  have sizes: "int (length raw) \<le> maxUncompressedBytes l" "int (length (cd_gzip cd raw)) \<le> maxCompressedBytes l"
    and eq: "e = \<lparr>en_compressedBytes = cd_gzip cd raw, en_uncompressedBytes = raw, en_sha256 = cd_sha256 cd raw,
      en_manifest = \<lparr>ig_format = artifactFormat, ig_formatVersion = 1, ig_sha256 = cd_sha256 cd raw,
        ig_uncompressedBytes = int (length raw), ig_compressedBytes = int (length (cd_gzip cd raw)),
        ig_fileCount = int (length c)\<rparr>\<rparr>"
    using e by (auto simp: encode_canonical_def Let_def and_then_Inr raw_def)
  have canon: "canonical_preview c" using c by (rule canonicalize_preview_ok)
  have n: "length c = length b"
    using c by (auto simp: canonicalizePreview_def preview_json_def and_then_Inr map_each_Inr split: if_splits)
  have parsed: "preview_parse raw = Inr (preview_json c)"
    using printable_preview by (simp add: preview_parse_def raw_def utf8_roundtrip parse_stringify)
  have "isSafeInteger (int (length (cd_gzip cd raw)))"
    using limits_safe [OF limits] sizes by (simp add: isSafeInteger_def)
  moreover have "cd_gunzip cd (maxUncompressedBytes l) (cd_gzip cd raw) = Gunzipped raw"
    using codec sizes(1) by (simp add: gunzip_inverts_def)
  moreover have "enforceFileCount (preview_json c) l ''Preview artifact'' = Inr ()"
    using count n by (simp add: enforceFileCount_def preview_json_def json_member_def)
  ultimately have "decodePreviewArtifact cd (en_compressedBytes e) (en_manifest e) l = Inr c"
    using sizes limits parsed canonicalize_preview_id [OF canon]
    by (simp add: decodePreviewArtifact_def eq check_def)
  with c show ?thesis by blast
qed

lemma preview_file_of_fields:
  "preview_file_of (p, bs) = Inr g \<Longrightarrow>
   pf_path g = replace_char backslash CHR ''/'' p \<and> pf_contentBase64 g = b64_encode bs"
  by (auto simp: preview_file_of_def and_then_Inr canonicalPreviewPath_def Let_def split: if_splits)

lemma created_files:
  assumes "createPreviewArtifactBundle files = Inr b" "canonicalizePreview (preview_json b) = Inr c"
    and "(p, bs) \<in> set files"
  shows "\<exists>f \<in> set c. pf_path f = replace_char backslash CHR ''/'' p \<and> b64_decode (pf_contentBase64 f) = bs"
proof -
  from assms(1,3) obtain i g where i: "i < length files" "files ! i = (p, bs)" "length b = length files"
    "preview_file_of (p, bs) = Inr g" "b ! i = g"
    by (auto simp: createPreviewArtifactBundle_def map_each_Inr in_set_conv_nth)
  then have f: "pf_path g = replace_char backslash CHR ''/'' p" "pf_contentBase64 g = b64_encode bs"
    using preview_file_of_fields by blast+
  from assms(2) obtain fs where fs: "map_each canonicalPreviewFile (map preview_file_json b) = Inr fs"
    "set c = set fs"
    by (auto simp: canonicalizePreview_def preview_json_def and_then_Inr split: if_splits)
  then obtain h where h: "canonicalPreviewFile (preview_file_json g) = Inr h" "i < length fs" "fs ! i = h"
    using i by (auto simp: map_each_Inr)
  have "preview_path (pf_path g)"
    using i(4) canonicalPreviewPath_ok by (auto simp: preview_file_of_def and_then_Inr)
  then have "pf_path h = pf_path g" "pf_contentBase64 h = pf_contentBase64 g"
    using h(1) by (auto simp: canonicalPreviewFile_def preview_file_json_def and_then_Inr canonicalBase64_def
        canonicalPreviewPath_id split: if_splits)
  moreover have "h \<in> set c" using h fs(2) nth_mem by blast
  ultimately show ?thesis using f b64_roundtrip by metis
qed

section \<open>Property\<close>

text \<open>C19: A built preview survives storage: if the files of a build make a bundle that encodes, then
  its bytes and manifest decode, and for every file of the build the decoded bundle has a file at its
  normalized path whose base64 content is exactly the bytes of the build; every decoded file is
  safe, sorted, unique and carries the content type of its extension, and \<open>index.html\<close> is there.\<close>

theorem preview_roundtrip:
  assumes "gunzip_inverts cd" "createPreviewArtifactBundle files = Inr b"
    and "encodePreviewArtifact cd b l = Inr e"
  shows "\<exists>c. decodePreviewArtifact cd (en_compressedBytes e) (en_manifest e) l = Inr c \<and> canonical_preview c \<and>
    (\<forall>(p, bs) \<in> set files. \<exists>f \<in> set c. pf_path f = replace_char backslash CHR ''/'' p \<and>
       b64_decode (pf_contentBase64 f) = bs)"
proof -
  from decode_encoded_preview [OF assms(1,3)] obtain c where
    c: "canonicalizePreview (preview_json b) = Inr c"
    "decodePreviewArtifact cd (en_compressedBytes e) (en_manifest e) l = Inr c" by blast
  show ?thesis
    using c(2) canonicalize_preview_ok [OF c(1)] created_files [OF assms(2) c(1)] by blast
qed

definition demo_preview :: preview_bundle where
  "demo_preview = [\<lparr>pf_path = ''index.html'', pf_contentBase64 = ''Bw=='',
     pf_contentType = ''text/html; charset=utf-8''\<rparr>]"

lemma demo_preview_created: "createPreviewArtifactBundle [(''index.html'', [7])] = Inr demo_preview"
  by code_simp

lemma demo_preview_encodes: "\<exists>e. encodePreviewArtifact demo_codec demo_preview demo_limits = Inr e"
proof -
  have "validateLimits demo_limits = Inr ()" by code_simp
  moreover have "enforceFileCount (preview_json demo_preview) demo_limits ''Preview artifact'' = Inr ()"
    by code_simp
  moreover have "canonicalizePreview (preview_json demo_preview) = Inr demo_preview" by code_simp
  moreover have "length (stringify (preview_json demo_preview)) \<le> 500" by code_simp
  ultimately show ?thesis
    using demo_encode_canonical by (simp add: encodePreviewArtifact_def)
qed

theorem preview_roundtrip_witness:
  "\<exists>e c. encodePreviewArtifact demo_codec demo_preview demo_limits = Inr e \<and>
     decodePreviewArtifact demo_codec (en_compressedBytes e) (en_manifest e) demo_limits = Inr c \<and>
     (\<exists>f \<in> set c. b64_decode (pf_contentBase64 f) = [7])"
proof -
  obtain e where e: "encodePreviewArtifact demo_codec demo_preview demo_limits = Inr e"
    using demo_preview_encodes by blast
  with preview_roundtrip [OF demo_codec_inverts demo_preview_created e] show ?thesis by auto
qed

end
