(* ===== verification/SandboxTypes.thy ===== *)
theory SandboxTypes
  imports Complex_Main AgentTypes Json
begin

text \<open>
  The types of the sandbox subsystem: \<open>sandbox/types.ts\<close>, \<open>sandbox/errors.ts\<close> and the
  documents \<open>models/SandboxLease.ts\<close> and \<open>models/Workspace.ts\<close>. CPU shares are rationals.
\<close>

section \<open>sandbox/types.ts\<close>

datatype sandbox_purpose = BuildSandbox | PreviewSandbox

datatype sandbox_state = SReserved | SProvisioning | SReady | SRunning | STerminating
  | STerminated | SFailed | SLost

record resource_profile =
  rp_cpu :: rat
  rp_memoryMiB :: int
  rp_diskMiB :: int

record sandbox_ownership =
  so_workspaceId :: object_id
  so_projectId :: object_id
  so_branchId :: object_id
  so_runId :: "object_id option"
  so_snapshotId :: "object_id option"
  so_purpose :: sandbox_purpose

datatype default_action = DenyAll | AllowAll

record network_policy =
  np_defaultAction :: default_action
  np_allowedDomains :: "string list"
  np_allowedCidrs :: "string list"

record sandbox_lifecycle =
  lf_leaseSeconds :: int
  lf_autoStopSeconds :: "int option"
  lf_autoDeleteSeconds :: int

type_synonym labels = "(string \<times> string) list"

record sandbox_spec =
  sp_provisioningKey :: string
  sp_ownership :: sandbox_ownership
  sp_image :: string
  sp_workingDirectory :: string
  sp_resources :: resource_profile
  sp_networkPolicy :: network_policy
  sp_lifecycle :: sandbox_lifecycle
  sp_labels :: labels

record sandbox_ref =
  rf_provider :: string
  rf_externalId :: string

record sandbox_command =
  sc_executable :: string
  sc_args :: "string list"
  sc_cwd :: string
  sc_env :: "(string \<times> string) list"
  sc_timeoutMs :: int
  sc_maxOutputBytes :: int

record command_result =
  cr_exitCode :: "int option"
  cr_stdout :: string
  cr_stderr :: string
  cr_durationMs :: int
  cr_timedOut :: bool
  cr_outputTruncated :: bool

datatype inspection_status = ICreating | IReady | IRunning | IStopped | IMissing | IError

record sandbox_inspection =
  in_ref :: sandbox_ref
  in_status :: inspection_status
  in_provisioningKey :: string
  in_createdAt :: int
  in_labels :: labels

record destroy_receipt =
  dr_accepted :: bool
  dr_missing :: bool
  dr_pending :: bool

record capabilities =
  ca_preview :: bool
  ca_networkPolicy :: bool
  ca_checkpoints :: bool
  ca_reconnect :: bool

section \<open>sandbox/errors.ts\<close>

definition sandbox_error :: "string \<Rightarrow> string \<Rightarrow> bool \<Rightarrow> js_error" where
  "sandbox_error code msg retryable =
     (coded_error code (code @ '': '' @ msg))\<lparr>err_sandbox := True, err_retryable := retryable\<rparr>"

definition isSandboxError :: "js_error \<Rightarrow> bool" where
  "isSandboxError e = err_sandbox e"

section \<open>Documents\<close>

datatype source_kind = SourceSnapshot | SourceCandidate

record lease_spec =
  ls_image :: string
  ls_workingDirectory :: string
  ls_networkPolicy :: network_policy
  ls_lifecycle :: sandbox_lifecycle

record lease_error =
  le_code :: string
  le_message :: string
  le_retryable :: bool

record sandbox_lease =
  sl_workspaceId :: object_id
  sl_projectId :: object_id
  sl_branchId :: object_id
  sl_requestedByUserId :: object_id
  sl_runId :: "object_id option"
  sl_snapshotId :: "object_id option"
  sl_sourceArtifact :: "string \<times> source_kind"
  sl_purpose :: sandbox_purpose
  sl_provider :: string
  sl_provisioningKey :: string
  sl_externalId :: "string option"
  sl_state :: sandbox_state
  sl_spec :: lease_spec
  sl_resourceProfile :: resource_profile
  sl_reservedAt :: int
  sl_readyAt :: "int option"
  sl_lastHeartbeatAt :: "int option"
  sl_expiresAt :: int
  sl_terminatedAt :: "int option"
  sl_error :: "lease_error option"
  sl_updatedAt :: int

record execution_limits =
  xl_maxConcurrentBuilds :: nat
  xl_maxRunningPreviews :: nat
  xl_maxCpu :: rat
  xl_maxMemoryMiB :: int
  xl_maxDiskMiB :: int
  xl_maxBuildsPerHour :: nat
  xl_maxBuildMinutesPerDay :: nat
  xl_maxArtifactBytes :: int
  xl_maxLogBytesPerCommand :: int
  xl_maxFilesPerSnapshot :: nat

record workspace =
  wk_slug :: string
  wk_name :: string
  wk_active :: bool
  wk_createdByUserId :: object_id
  wk_executionLimits :: execution_limits

section \<open>The states of a lease (sandbox/SandboxRepository.ts)\<close>

fun SANDBOX_ALLOWED_TRANSITIONS :: "sandbox_state \<Rightarrow> sandbox_state list" where
  "SANDBOX_ALLOWED_TRANSITIONS SReserved = [SProvisioning, SFailed, STerminating]"
| "SANDBOX_ALLOWED_TRANSITIONS SProvisioning = [SReady, SFailed, STerminating]"
| "SANDBOX_ALLOWED_TRANSITIONS SReady = [SRunning, SLost, STerminating]"
| "SANDBOX_ALLOWED_TRANSITIONS SRunning = [SLost, STerminating]"
| "SANDBOX_ALLOWED_TRANSITIONS STerminating = [STerminated]"
| "SANDBOX_ALLOWED_TRANSITIONS STerminated = []"
| "SANDBOX_ALLOWED_TRANSITIONS SFailed = [STerminating, STerminated]"
| "SANDBOX_ALLOWED_TRANSITIONS SLost = [STerminating, STerminated]"

section \<open>Validators and indexes of the collection (models/SandboxLease.ts)\<close>

definition OCCUPYING_SANDBOX_STATES :: "sandbox_state list" where
  "OCCUPYING_SANDBOX_STATES = [SReserved, SProvisioning, SReady, SRunning, STerminating]"

definition occupying :: "sandbox_lease \<Rightarrow> bool" where
  "occupying l \<longleftrightarrow> sl_state l \<in> set OCCUPYING_SANDBOX_STATES"

text \<open>\<open>positiveSafeInteger\<close>; \<open>positiveFinite\<close> is a comparison of the rational with zero. Required
  strings are not empty.\<close>

definition positiveSafeInteger :: "int \<Rightarrow> bool" where
  "positiveSafeInteger n \<longleftrightarrow> isSafeInteger n \<and> 0 < n"

definition valid_lease :: "sandbox_lease \<Rightarrow> bool" where
  "valid_lease l \<longleftrightarrow> 0 < rp_cpu (sl_resourceProfile l) \<and> positiveSafeInteger (rp_memoryMiB (sl_resourceProfile l)) \<and>
     positiveSafeInteger (rp_diskMiB (sl_resourceProfile l)) \<and>
     positiveSafeInteger (lf_leaseSeconds (ls_lifecycle (sl_spec l))) \<and>
     positiveSafeInteger (lf_autoDeleteSeconds (ls_lifecycle (sl_spec l))) \<and>
     (case lf_autoStopSeconds (ls_lifecycle (sl_spec l)) of None \<Rightarrow> True | Some n \<Rightarrow> positiveSafeInteger n) \<and>
     fst (sl_sourceArtifact l) \<noteq> [] \<and> sl_provider l \<noteq> [] \<and> sl_provisioningKey l \<noteq> [] \<and>
     ls_image (sl_spec l) \<noteq> [] \<and> ls_workingDirectory (sl_spec l) \<noteq> []"

text \<open>Two documents that one of the unique indexes excludes: on the provisioning key, on branch and
  purpose of occupying builds, and on provider and external id.\<close>

definition lease_conflict :: "sandbox_lease \<Rightarrow> sandbox_lease \<Rightarrow> bool" where
  "lease_conflict k l \<longleftrightarrow> sl_provisioningKey k = sl_provisioningKey l \<or>
     (sl_purpose k = BuildSandbox \<and> sl_purpose l = BuildSandbox \<and> occupying k \<and> occupying l \<and>
        sl_branchId k = sl_branchId l) \<or>
     (sl_externalId k \<noteq> None \<and> sl_externalId k = sl_externalId l \<and> sl_provider k = sl_provider l)"

definition index_free :: "object_id list \<Rightarrow> (object_id \<rightharpoonup> sandbox_lease) \<Rightarrow> object_id \<Rightarrow> sandbox_lease \<Rightarrow> bool" where
  "index_free ids docs i l \<longleftrightarrow> list_all (\<lambda>j. j = i \<or>
     (case docs j of None \<Rightarrow> True | Some d \<Rightarrow> \<not> lease_conflict l d)) ids"

end
