(* ===== verification/World.thy ===== *)
theory World
  imports Generation PreviewBundle SandboxTypes
begin

text \<open>
  The database of the server as the agent runtime sees it (\<open>models/*.ts\<close>), the atomic
  operations on it, and what happens around them. Every awaited database or Redis call is one
  atomic step. Before each step the schedule of the store lets other processes act (a cancelled
  or failed run, a branch head moved by another run, a lease taken over or expired, an event
  written by another process, time passing) and may make the step fail before or after its effect;
  theorems quantify over all schedules.
\<close>

section \<open>Documents\<close>

text \<open>Ids are the keys of the collections below; the time stamps mongoose maintains are left out
  except where the code reads them.\<close>

record agent_run =
  ar_userId :: object_id
  ar_workspaceId :: "object_id option"
  ar_projectId :: object_id
  ar_branchId :: "object_id option"
  ar_chatId :: "object_id option"
  ar_prompt :: string
  ar_attachments :: "agent_attachment list option"
  ar_status :: agent_run_status
  ar_mode :: agent_run_mode
  ar_baseSnapshotId :: "object_id option"
  ar_baseSnapshotRevision :: nat
  ar_baseHeadVersion :: "nat option"
  ar_resultSnapshotId :: "object_id option"
  ar_retryOfRunId :: "object_id option"
  ar_validationCandidateId :: "object_id option"
  ar_retryable :: bool
  ar_attempt :: nat
  ar_maxRepairAttempts :: nat
  ar_modelId :: "string option"
  ar_modelProvider :: "string option"
  ar_model :: string
  ar_error :: "public_error option"
  ar_usage :: "model_usage option"
  ar_startedAt :: "time option"
  ar_completedAt :: "time option"

record agent_event =
  ev_runId :: object_id
  ev_userId :: object_id
  ev_projectId :: object_id
  ev_type :: agent_event_type
  ev_sequence :: nat
  ev_message :: string
  ev_payload :: "payload option"
  ev_createdAt :: time

datatype branch_status = BranchActive | BranchArchived

record project_branch =
  br_workspaceId :: object_id
  br_projectId :: object_id
  br_name :: string
  br_status :: branch_status
  br_headSnapshotId :: "object_id option"
  br_headVersion :: nat
  br_createdFromSnapshotId :: "object_id option"

record execution_lease =
  el_id :: object_id
  el_workspaceId :: object_id
  el_projectId :: object_id
  el_runId :: object_id
  el_baseHeadVersion :: nat
  el_acquiredAt :: time
  el_heartbeatAt :: time
  el_expiresAt :: time

record project_snapshot =
  sn_workspaceId :: object_id
  sn_branchId :: object_id
  sn_userId :: object_id
  sn_projectId :: object_id
  sn_sourceRunId :: object_id
  sn_parentSnapshotId :: "object_id option"
  sn_artifactId :: string
  sn_previewArtifactId :: "string option"
  sn_validation :: validation_result
  sn_summary :: string

record validation_candidate =
  vc_workspaceId :: object_id
  vc_branchId :: object_id
  vc_userId :: object_id
  vc_projectId :: object_id
  vc_sourceRunId :: object_id
  vc_artifactId :: string
  vc_summary :: string
  vc_expiresAt :: time

datatype artifact_kind = KProjectSnapshot | KValidationCandidate | KPreviewBuild

datatype manifest_state = MWriting | MReady | MCorrupt | MDeletePending

record artifact_manifest =
  am_workspaceId :: object_id
  am_projectId :: object_id
  am_createdByRunId :: object_id
  am_kind :: artifact_kind
  am_idempotencyKey :: string
  am_format :: string
  am_formatVersion :: nat
  am_storageKey :: string
  am_sha256 :: string
  am_uncompressedBytes :: nat
  am_compressedBytes :: nat
  am_fileCount :: nat
  am_state :: manifest_state
  am_errorCode :: "string option"
  am_updatedAt :: time

record project =
  pr_userId :: object_id
  pr_workspaceId :: "object_id option"
  pr_name :: string
  pr_description :: "string option"
  pr_chatIds :: "object_id list"
  pr_activeSnapshotId :: "object_id option"
  pr_activeSnapshotRevision :: nat
  pr_maxConcurrentBuilds :: nat
  pr_maxRunningPreviews :: nat
  pr_framework :: string
  pr_styling :: string
  pr_uiLibrary :: string
  pr_agentModelId :: "string option"

record code_block =
  cb_id :: string
  cb_language :: string
  cb_code :: string
  cb_fileName :: string
  cb_dependencies :: "string list"

record chat_message =
  ch_id :: string
  ch_role :: message_role
  ch_content :: string
  ch_codeBlocks :: "code_block list"
  ch_createdAt :: time

record chat =
  ct_userId :: object_id
  ct_projectId :: "object_id option"
  ct_branchId :: "object_id option"
  ct_title :: string
  ct_messages :: "chat_message list"

section \<open>The store and its schedule\<close>

text \<open>The file system of the artifact store: absolute paths to nodes.\<close>

datatype fs_node = FFile bytes | FDir | FSymlink

datatype env_step = EnvRunStatus object_id agent_run_status | EnvBranchHead object_id object_id
  | EnvTick nat | EnvLeaseTake object_id execution_lease | EnvLeaseDelete object_id
  | EnvLeaseExtend object_id nat | EnvMonitor object_id | EnvHeartbeat object_id object_id object_id nat
  | EnvHeartbeatFails
  | EnvEvent object_id agent_event_type | EnvCandidateExpire object_id
  | EnvManifestState string manifest_state | EnvFsCreate string bytes
  | EnvSandboxState object_id sandbox_state | EnvSandboxCreate object_id sandbox_lease
  | EnvRunCreate object_id agent_run | EnvSandboxBeat object_id | EnvCommandAbort js_error
  | EnvLockTake string string nat | EnvLockRenew string string nat | EnvLockRenewFails

datatype fault = NoFault | FailBefore | FailAfter | FailCode string

type_synonym slot = "env_step list \<times> fault"

text \<open>
  Collections are maps from ids. A unique index that the code searches by is a map of its own:
  branches by project and name, snapshots and candidates by source run. The collections the code
  searches by other fields have the list of their ids, in insertion order, beside the map.
\<close>

record world =
  w_runs :: "object_id \<rightharpoonup> agent_run"
  w_runIds :: "object_id list"
  w_events :: "agent_event list"
  w_published :: "agent_event list"
  w_branches :: "object_id \<rightharpoonup> project_branch"
  w_branchIndex :: "object_id \<times> string \<rightharpoonup> object_id"
  w_leases :: "object_id \<rightharpoonup> execution_lease"
  w_snapshots :: "object_id \<rightharpoonup> project_snapshot"
  w_snapshotIndex :: "object_id \<rightharpoonup> object_id"
  w_snapshotIds :: "object_id list"
  w_candidates :: "object_id \<rightharpoonup> validation_candidate"
  w_candidateIndex :: "object_id \<rightharpoonup> object_id"
  w_candidateIds :: "object_id list"
  w_manifests :: "string \<rightharpoonup> artifact_manifest"
  w_manifestIds :: "string list"
  w_projects :: "object_id \<rightharpoonup> project"
  w_chats :: "object_id \<rightharpoonup> chat"
  w_nodes :: "string \<rightharpoonup> fs_node"
  w_sandboxLeases :: "object_id \<rightharpoonup> sandbox_lease"
  w_sandboxIds :: "object_id list"
  w_workspaces :: "object_id \<rightharpoonup> workspace"
  w_members :: "(object_id \<times> object_id) list"
  w_locks :: "string \<rightharpoonup> string \<times> time"
  w_now :: time
  w_nextId :: nat
  w_aborted :: bool
  w_lost :: bool
  w_quotaLost :: bool
  w_commandAbort :: "js_error option"
  w_sched :: "slot list"

text \<open>A database without documents, for the concrete inputs of the development.\<close>

definition empty_world :: world where
  "empty_world = \<lparr>w_runs = Map.empty, w_runIds = [], w_events = [], w_published = [], w_branches = Map.empty,
     w_branchIndex = Map.empty, w_leases = Map.empty, w_snapshots = Map.empty,
     w_snapshotIndex = Map.empty, w_snapshotIds = [], w_candidates = Map.empty, w_candidateIndex = Map.empty, w_candidateIds = [],
     w_manifests = Map.empty, w_manifestIds = [], w_projects = Map.empty, w_chats = Map.empty, w_nodes = Map.empty,
     w_sandboxLeases = Map.empty, w_sandboxIds = [], w_workspaces = Map.empty, w_members = [], w_locks = Map.empty, w_now = 0,
     w_nextId = 0, w_aborted = False, w_lost = False, w_quotaLost = False, w_commandAbort = None, w_sched = []\<rparr>"

definition event_sequences :: "object_id \<Rightarrow> ('z) world_scheme \<Rightarrow> nat list" where
  "event_sequences r w = map ev_sequence (filter (\<lambda>e. ev_runId e = r) (w_events w))"

definition latest_sequence :: "object_id \<Rightarrow> ('z) world_scheme \<Rightarrow> nat" where
  "latest_sequence r w = fold max (event_sequences r w) 0"

definition foreign_event :: "object_id \<Rightarrow> agent_event_type \<Rightarrow> ('z) world_scheme \<Rightarrow> agent_event" where
  "foreign_event r t w = \<lparr>ev_runId = r, ev_userId = [], ev_projectId = [], ev_type = t,
     ev_sequence = Suc (latest_sequence r w), ev_message = [], ev_payload = None,
     ev_createdAt = w_now w\<rparr>"

text \<open>
  What other processes can do between two steps. The status of a run moves along an edge of the
  state machine that is not a completion; a lease is taken over or deleted only when it is free or
  expired, and its holder may extend it; the reconciler moves artifact manifests between states, and other writers
  add files to the artifact store. Deletions of artifacts are not among the steps: the reconciler
  deletes only what has been without a reference for the retention time. Other requests create runs,
  within the unique index on retries. Sandbox leases move
  along the edges of their state machine and new ones appear; a Redis lock, an entry with a token
  and an expiry, is taken when it is free and renewed by its holder.
  The timers of the process itself are steps too: the cancellation monitor, which sets the abort
  flag \<open>w_aborted\<close> when it reads a cancelled status, and the heartbeat of a held lease, which
  extends it or sets \<open>w_lost\<close>, the renewal of the quota lock, which sets \<open>w_quotaLost\<close>, and the
  heartbeat of a running sandbox command, which refreshes its lease or aborts the command with an
  error (\<open>w_commandAbort\<close>).
\<close>

definition lease_free :: "time \<Rightarrow> execution_lease option \<Rightarrow> bool" where
  "lease_free now l = (case l of None \<Rightarrow> True | Some d \<Rightarrow> el_expiresAt d \<le> now)"

definition lock_free :: "time \<Rightarrow> (string \<times> time) option \<Rightarrow> bool" where
  "lock_free now l = (case l of None \<Rightarrow> True | Some (t, e) \<Rightarrow> e \<le> now)"

text \<open>The partial unique index of \<open>models/AgentRun.ts\<close>: one active retry per source run.\<close>

definition active_run :: "agent_run \<Rightarrow> bool" where
  "active_run d \<longleftrightarrow> ar_status d \<in> set [WaitingForCapacity, Queued, Running, Planning, Generating, Validating, Repairing,
     Persisting]"

definition retry_free :: "object_id list \<Rightarrow> (object_id \<rightharpoonup> agent_run) \<Rightarrow> agent_run \<Rightarrow> bool" where
  "retry_free ids runs d \<longleftrightarrow> (case ar_retryOfRunId d of
     None \<Rightarrow> True
   | Some s \<Rightarrow> active_run d \<longrightarrow> \<not> list_ex (\<lambda>j. case runs j of
       Some x \<Rightarrow> ar_retryOfRunId x = Some s \<and> active_run x | None \<Rightarrow> False) ids)"

fun env_apply :: "env_step \<Rightarrow> ('z) world_scheme \<Rightarrow> ('z) world_scheme" where
  "env_apply (EnvRunStatus r st) w =
     (case w_runs w r of
        None \<Rightarrow> w
      | Some d \<Rightarrow> if canTransitionAgentRun (ar_status d) st \<and> st \<noteq> Completed \<and> st \<noteq> CompletedWithConflict
                  then w\<lparr>w_runs := (w_runs w)(r \<mapsto> d\<lparr>ar_status := st\<rparr>)\<rparr> else w)"
| "env_apply (EnvBranchHead b s) w =
     (case w_branches w b of
        None \<Rightarrow> w
      | Some d \<Rightarrow> w\<lparr>w_branches := (w_branches w)(b \<mapsto>
          d\<lparr>br_headSnapshotId := Some s, br_headVersion := Suc (br_headVersion d)\<rparr>)\<rparr>)"
| "env_apply (EnvTick n) w = w\<lparr>w_now := w_now w + int n\<rparr>"
| "env_apply (EnvLeaseTake b l) w =
     (if lease_free (w_now w) (w_leases w b) then w\<lparr>w_leases := (w_leases w)(b \<mapsto> l)\<rparr> else w)"
| "env_apply (EnvLeaseDelete b) w =
     (if lease_free (w_now w) (w_leases w b) then w\<lparr>w_leases := (w_leases w)(b := None)\<rparr> else w)"
| "env_apply (EnvLeaseExtend b n) w =
     (case w_leases w b of
        None \<Rightarrow> w
      | Some l \<Rightarrow> w\<lparr>w_leases := (w_leases w)(b \<mapsto> l\<lparr>el_expiresAt := el_expiresAt l + int n\<rparr>)\<rparr>)"
| "env_apply (EnvMonitor r) w =
     (case w_runs w r of
        Some d \<Rightarrow> if ar_status d = Cancelled then w\<lparr>w_aborted := True\<rparr> else w
      | None \<Rightarrow> w)"
| "env_apply (EnvHeartbeat b i r ttl) w =
     (case w_leases w b of
        Some l \<Rightarrow> if el_id l = i \<and> el_runId l = r
          then w\<lparr>w_leases := (w_leases w)(b \<mapsto>
            l\<lparr>el_heartbeatAt := w_now w, el_expiresAt := max (el_expiresAt l) (w_now w + int ttl)\<rparr>)\<rparr>
          else w\<lparr>w_lost := True\<rparr>
      | None \<Rightarrow> w\<lparr>w_lost := True\<rparr>)"
| "env_apply EnvHeartbeatFails w = w\<lparr>w_lost := True\<rparr>"
| "env_apply (EnvEvent r t) w = w\<lparr>w_events := w_events w @ [foreign_event r t w]\<rparr>"
| "env_apply (EnvCandidateExpire c) w =
     (case w_candidates w c of
        None \<Rightarrow> w
      | Some d \<Rightarrow> w\<lparr>w_candidates := (w_candidates w)(c := None),
                     w_candidateIndex := (w_candidateIndex w)(vc_sourceRunId d := None)\<rparr>)"
| "env_apply (EnvManifestState a st) w =
     (case w_manifests w a of
        None \<Rightarrow> w
      | Some m \<Rightarrow> w\<lparr>w_manifests := (w_manifests w)(a \<mapsto> m\<lparr>am_state := st\<rparr>)\<rparr>)"
| "env_apply (EnvFsCreate p b) w =
     (if w_nodes w p = None then w\<lparr>w_nodes := (w_nodes w)(p \<mapsto> FFile b)\<rparr> else w)"
| "env_apply (EnvSandboxState i st) w =
     (case w_sandboxLeases w i of
        None \<Rightarrow> w
      | Some l \<Rightarrow> if st \<in> set (SANDBOX_ALLOWED_TRANSITIONS (sl_state l)) \<and>
            index_free (w_sandboxIds w) (w_sandboxLeases w) i (l\<lparr>sl_state := st\<rparr>)
          then w\<lparr>w_sandboxLeases := (w_sandboxLeases w)(i \<mapsto> l\<lparr>sl_state := st, sl_updatedAt := w_now w\<rparr>)\<rparr> else w)"
| "env_apply (EnvSandboxCreate i l) w =
     (case w_sandboxLeases w i of
        Some _ \<Rightarrow> w
      | None \<Rightarrow> if valid_lease l \<and> index_free (w_sandboxIds w) (w_sandboxLeases w) i l
          then w\<lparr>w_sandboxLeases := (w_sandboxLeases w)(i \<mapsto> l), w_sandboxIds := w_sandboxIds w @ [i]\<rparr> else w)"
| "env_apply (EnvRunCreate i d) w =
     (case w_runs w i of
        Some _ \<Rightarrow> w
      | None \<Rightarrow> if retry_free (w_runIds w) (w_runs w) d
          then w\<lparr>w_runs := (w_runs w)(i \<mapsto> d), w_runIds := w_runIds w @ [i]\<rparr> else w)"
| "env_apply (EnvSandboxBeat i) w =
     (case w_sandboxLeases w i of
        None \<Rightarrow> w
      | Some l \<Rightarrow> if sl_state l = SRunning
          then w\<lparr>w_sandboxLeases := (w_sandboxLeases w)(i \<mapsto>
            l\<lparr>sl_lastHeartbeatAt := Some (w_now w), sl_updatedAt := w_now w\<rparr>)\<rparr> else w)"
| "env_apply (EnvCommandAbort e) w =
     (if w_commandAbort w = None then w\<lparr>w_commandAbort := Some e\<rparr> else w)"
| "env_apply (EnvLockTake k t ttl) w =
     (if lock_free (w_now w) (w_locks w k)
      then w\<lparr>w_locks := (w_locks w)(k \<mapsto> (t, w_now w + int ttl))\<rparr> else w)"
| "env_apply (EnvLockRenew k t ttl) w =
     (if map_option fst (w_locks w k) = Some t \<and> \<not> lock_free (w_now w) (w_locks w k)
      then w\<lparr>w_locks := (w_locks w)(k \<mapsto> (t, max (snd (the (w_locks w k))) (w_now w + int ttl)))\<rparr>
      else w\<lparr>w_quotaLost := True\<rparr>)"
| "env_apply EnvLockRenewFails w = w\<lparr>w_quotaLost := True\<rparr>"

definition db_error :: js_error where
  "db_error = plain_error ''connection lost''"

definition duplicate_key :: js_error where
  "duplicate_key = (plain_error ''E11000 duplicate key error'')\<lparr>err_number := Some 11000\<rparr>"

definition isDuplicateKey :: "js_error \<Rightarrow> bool" where
  "isDuplicateKey e = (err_number e = Some 11000)"

text \<open>One awaited call: the next slot of the schedule, then the call with its fault.\<close>

fun next_slot :: "slot list \<Rightarrow> slot" where
  "next_slot [] = ([], NoFault)"
| "next_slot (sl # _) = sl"

definition db_op :: "(('z) world_scheme, js_error, 'a) comp \<Rightarrow> (('z) world_scheme, js_error, 'a) comp" where
  "db_op f = (\<lambda>w.
     let sl = next_slot (w_sched w);
         w1 = fold env_apply (fst sl) (w\<lparr>w_sched := tl (w_sched w)\<rparr>)
     in case snd sl of
          NoFault \<Rightarrow> f w1
        | FailAfter \<Rightarrow> (Inl db_error, snd (f w1))
        | _ \<Rightarrow> (Inl db_error, w1))"

text \<open>A call of the file system fails with the code of the fault, \<open>EIO\<close> without one.\<close>

definition fs_error :: "string \<Rightarrow> js_error" where
  "fs_error code = coded_error code ''file system error''"

definition fs_op :: "(('z) world_scheme, js_error, 'a) comp \<Rightarrow> (('z) world_scheme, js_error, 'a) comp" where
  "fs_op f = (\<lambda>w.
     let sl = next_slot (w_sched w);
         w1 = fold env_apply (fst sl) (w\<lparr>w_sched := tl (w_sched w)\<rparr>)
     in case snd sl of
          NoFault \<Rightarrow> f w1
        | FailBefore \<Rightarrow> (Inl (fs_error ''EIO''), w1)
        | FailAfter \<Rightarrow> (Inl (fs_error ''EIO''), snd (f w1))
        | FailCode c \<Rightarrow> (Inl (fs_error c), w1))"

section \<open>Atomic operations\<close>

definition find_doc :: "(('z) world_scheme \<Rightarrow> 'a) \<Rightarrow> (('z) world_scheme, js_error, 'a) comp" where
  "find_doc f = db_op (reads f)"

definition Date_now :: "(('z) world_scheme, js_error, time) comp" where
  "Date_now = reads w_now"

text \<open>A random text, a function of the counter of the store; a pause, in which time passes.\<close>

definition fresh_text :: "(nat \<Rightarrow> string) \<Rightarrow> (('z) world_scheme, js_error, string) comp" where
  "fresh_text f = (\<lambda>w. (Inr (f (w_nextId w)), w\<lparr>w_nextId := w_nextId w + 1\<rparr>))"

definition sleep_ms :: "int \<Rightarrow> (('z) world_scheme, js_error, unit) comp" where
  "sleep_ms ms = modify (env_apply (EnvTick (nat ms)))"

text \<open>\<open>updateOne\<close> on a run: \<open>modifiedCount = 1\<close> is the value returned.\<close>

definition set_run :: "object_id \<Rightarrow> (agent_run \<Rightarrow> bool) \<Rightarrow> (agent_run \<Rightarrow> agent_run) \<Rightarrow>
    (('z) world_scheme, js_error, bool) comp" where
  "set_run r p f = (\<lambda>w.
     case w_runs w r of
       None \<Rightarrow> (Inr False, w)
     | Some d \<Rightarrow> if p d then (Inr True, w\<lparr>w_runs := (w_runs w)(r \<mapsto> f d)\<rparr>) else (Inr False, w))"

definition AgentRun_updateOne where
  "AgentRun_updateOne r p f = db_op (set_run r p f)"

definition AgentRun_findById where
  "AgentRun_findById r = find_doc (\<lambda>w. w_runs w r)"

section \<open>Relations every step keeps\<close>

text \<open>
  The contract of a two-state relation on the store: an effect order that the steps of other
  processes, and moving along the schedule, respect. A program of database calls then respects
  it as soon as each atomic operation does.
\<close>

locale store_order = effect_order R
  for R :: "('z) world_scheme \<Rightarrow> ('z) world_scheme \<Rightarrow> bool" +
  assumes R_env: "R w (env_apply e w)"
    and R_sched: "R w (w\<lparr>w_sched := sl\<rparr>)"
begin

lemma R_env_fold: "R w (fold env_apply es w)"
  by (induction es arbitrary: w) (auto intro: R_refl R_env R_trans)

lemma resp_db_op: "resp R f \<Longrightarrow> resp R (db_op f)"
  unfolding resp_def
proof
  fix w :: "'z world_scheme" assume f: "\<forall>s. R s (snd (f s))"
  let ?sl = "next_slot (w_sched w)"
  let ?w1 = "fold env_apply (fst ?sl) (w\<lparr>w_sched := tl (w_sched w)\<rparr>)"
  have "R w ?w1" using R_sched R_env_fold R_trans by blast
  then show "R w (snd (db_op f w))"
    using f R_trans by (auto simp: db_op_def Let_def split: fault.split)
qed

lemma resp_fs_op: "resp R f \<Longrightarrow> resp R (fs_op f)"
  unfolding resp_def
proof
  fix w :: "'z world_scheme" assume f: "\<forall>s. R s (snd (f s))"
  let ?sl = "next_slot (w_sched w)"
  let ?w1 = "fold env_apply (fst ?sl) (w\<lparr>w_sched := tl (w_sched w)\<rparr>)"
  have "R w ?w1" using R_sched R_env_fold R_trans by blast
  then show "R w (snd (fs_op f w))"
    using f R_trans by (auto simp: fs_op_def Let_def split: fault.split)
qed

text \<open>The operation starts in a store related to the one of the call.\<close>

lemma db_op_at: "(\<And>w1. R w w1 \<Longrightarrow> R w1 (snd (f w1))) \<Longrightarrow> R w (snd (db_op f w))"
proof -
  let ?w1 = "fold env_apply (fst (next_slot (w_sched w))) (w\<lparr>w_sched := tl (w_sched w)\<rparr>)"
  assume "\<And>w1. R w w1 \<Longrightarrow> R w1 (snd (f w1))"
  moreover have "R w ?w1" using R_sched R_env_fold R_trans by blast
  ultimately have "R w ?w1" "R w (snd (f ?w1))" using R_trans by blast+
  then show ?thesis by (simp add: db_op_def Let_def split: fault.split)
qed

lemma resp_find_doc: "resp R (find_doc f)"
  unfolding find_doc_def by (intro resp_db_op resp_reads)

lemma resp_Date_now: "resp R Date_now"
  unfolding Date_now_def by (rule resp_reads)

lemma resp_sleep: "resp R (sleep_ms ms)"
  unfolding sleep_ms_def by (rule resp_modify) (rule R_env)

lemma resp_find_run: "resp R (AgentRun_findById r)"
  unfolding AgentRun_findById_def by (rule resp_find_doc)

end

text \<open>
  The relation of the agent runtime: a run that is completed, failed or cancelled keeps its
  status, result and error; a branch head moves only with its version, which only grows; a
  snapshot is never changed or removed.
\<close>

definition settled :: "agent_run_status \<Rightarrow> bool" where
  "settled s \<longleftrightarrow> s = Completed \<or> s = Failed \<or> s = Cancelled"

definition runs_kept :: "('z) world_scheme \<Rightarrow> ('z) world_scheme \<Rightarrow> bool" where
  "runs_kept w w' \<longleftrightarrow> (\<forall>r d. w_runs w r = Some d \<longrightarrow>
     (\<exists>d'. w_runs w' r = Some d' \<and>
        (settled (ar_status d) \<longrightarrow> ar_status d' = ar_status d \<and>
           ar_resultSnapshotId d' = ar_resultSnapshotId d \<and> ar_error d' = ar_error d)))"

definition heads_kept :: "('z) world_scheme \<Rightarrow> ('z) world_scheme \<Rightarrow> bool" where
  "heads_kept w w' \<longleftrightarrow> (\<forall>b d. w_branches w b = Some d \<longrightarrow>
     (\<exists>d'. w_branches w' b = Some d' \<and> br_headVersion d \<le> br_headVersion d' \<and>
        (br_headVersion d' = br_headVersion d \<longrightarrow> br_headSnapshotId d' = br_headSnapshotId d)))"

definition agent_order :: "('z) world_scheme \<Rightarrow> ('z) world_scheme \<Rightarrow> bool" where
  "agent_order w w' \<longleftrightarrow> runs_kept w w' \<and> heads_kept w w' \<and>
     w_snapshots w \<subseteq>\<^sub>m w_snapshots w' \<and> w_snapshotIndex w \<subseteq>\<^sub>m w_snapshotIndex w'"

lemma runs_kept_trans:
  assumes "runs_kept w w'" "runs_kept w' w''"
  shows "runs_kept w w''"
  unfolding runs_kept_def
proof (intro allI impI)
  fix r d assume "w_runs w r = Some d"
  with assms(1) obtain d' where d': "w_runs w' r = Some d'"
    "settled (ar_status d) \<longrightarrow> ar_status d' = ar_status d \<and>
       ar_resultSnapshotId d' = ar_resultSnapshotId d \<and> ar_error d' = ar_error d"
    unfolding runs_kept_def by blast
  with assms(2) obtain d'' where "w_runs w'' r = Some d''"
    "settled (ar_status d') \<longrightarrow> ar_status d'' = ar_status d' \<and>
       ar_resultSnapshotId d'' = ar_resultSnapshotId d' \<and> ar_error d'' = ar_error d'"
    unfolding runs_kept_def by blast
  with d' show "\<exists>d''. w_runs w'' r = Some d'' \<and>
      (settled (ar_status d) \<longrightarrow> ar_status d'' = ar_status d \<and>
       ar_resultSnapshotId d'' = ar_resultSnapshotId d \<and> ar_error d'' = ar_error d)" by auto
qed

lemma heads_kept_trans:
  assumes "heads_kept w w'" "heads_kept w' w''"
  shows "heads_kept w w''"
  unfolding heads_kept_def
proof (intro allI impI)
  fix b d assume "w_branches w b = Some d"
  with assms(1) obtain d' where d': "w_branches w' b = Some d'"
    "br_headVersion d \<le> br_headVersion d'"
    "br_headVersion d' = br_headVersion d \<longrightarrow> br_headSnapshotId d' = br_headSnapshotId d"
    unfolding heads_kept_def by blast
  with assms(2) obtain d'' where "w_branches w'' b = Some d''"
    "br_headVersion d' \<le> br_headVersion d''"
    "br_headVersion d'' = br_headVersion d' \<longrightarrow> br_headSnapshotId d'' = br_headSnapshotId d'"
    unfolding heads_kept_def by blast
  with d' show "\<exists>d''. w_branches w'' b = Some d'' \<and> br_headVersion d \<le> br_headVersion d'' \<and>
      (br_headVersion d'' = br_headVersion d \<longrightarrow> br_headSnapshotId d'' = br_headSnapshotId d)"
    by auto
qed

lemma agent_order_refl: "agent_order w w"
  by (simp add: agent_order_def runs_kept_def heads_kept_def)

lemma agent_order_trans: "agent_order w w' \<Longrightarrow> agent_order w' w'' \<Longrightarrow> agent_order w w''"
  unfolding agent_order_def
  by (intro conjI; elim conjE)
     (erule (1) runs_kept_trans heads_kept_trans map_le_trans)+

lemma agent_order_same [simp]:
  "w_runs w' = w_runs w \<Longrightarrow> w_branches w' = w_branches w \<Longrightarrow> w_snapshots w' = w_snapshots w \<Longrightarrow>
     w_snapshotIndex w' = w_snapshotIndex w \<Longrightarrow> agent_order w w'"
  by (simp add: agent_order_def runs_kept_def heads_kept_def)

lemma agent_order_run:
  assumes "w_runs w r = Some d" "\<not> settled (ar_status d)"
  shows "agent_order w (w\<lparr>w_runs := (w_runs w)(r \<mapsto> d')\<rparr>)"
  using assms by (auto simp: agent_order_def runs_kept_def heads_kept_def)

lemma agent_order_new_run:
  "w_runs w i = None \<Longrightarrow> agent_order w (w\<lparr>w_runs := (w_runs w)(i \<mapsto> d), w_runIds := ids\<rparr>)"
  by (auto simp: agent_order_def runs_kept_def heads_kept_def)

lemma agent_order_head:
  assumes "w_branches w b = Some d" "br_headVersion d' = Suc (br_headVersion d)"
  shows "agent_order w (w\<lparr>w_branches := (w_branches w)(b \<mapsto> d')\<rparr>)"
  using assms by (auto simp: agent_order_def runs_kept_def heads_kept_def)

lemma settled_stuck: "settled s \<Longrightarrow> \<not> canTransitionAgentRun s t"
  by (auto simp: settled_def canTransitionAgentRun_def)

interpretation agent: store_order "agent_order :: ('z) world_scheme \<Rightarrow> 'z world_scheme \<Rightarrow> bool"
proof unfold_locales
  fix w :: "'z world_scheme" and e
  show "agent_order w (env_apply e w)"
  proof (cases e)
    case (EnvRunStatus r st)
    have "\<not> settled (ar_status d)" if "canTransitionAgentRun (ar_status d) st" for d
      using that settled_stuck by blast
    with EnvRunStatus show ?thesis
      by (auto split: option.split intro: agent_order_refl agent_order_run)
  next
    case (EnvBranchHead b s)
    then show ?thesis by (auto split: option.split intro: agent_order_refl agent_order_head)
  next
    case (EnvRunCreate i d)
    then show ?thesis by (auto split: option.split intro: agent_order_refl agent_order_new_run)
  qed (auto split: option.split intro: agent_order_refl)
qed (simp_all add: agent_order_refl, blast intro: agent_order_trans)

lemma set_run_order:
  "(\<And>d. p d \<Longrightarrow> \<not> settled (ar_status d)) \<Longrightarrow> resp agent_order (set_run r p f)"
  by (auto simp: resp_def set_run_def agent_order_refl agent_order_run split: option.split)

lemma updateOne_order:
  "(\<And>d. p d \<Longrightarrow> \<not> settled (ar_status d)) \<Longrightarrow> resp agent_order (AgentRun_updateOne r p f)"
  unfolding AgentRun_updateOne_def by (intro agent.resp_db_op set_run_order)

end
