(* ===== verification/ContextBuilder.thy ===== *)
theory ContextBuilder
  imports World
begin

text \<open>
  \<open>agent/contextBuilder.ts\<close>: the prompt context of a run, cut to a character budget, and its
  assembly from the project, the chat and the base snapshot. Reading an artifact bundle is the
  parameter \<open>readOwnedBundle\<close> here; the artifact theories model it.
\<close>

section \<open>buildAgentContext\<close>

record context_input =
  ci_prompt :: string
  ci_mode :: agent_run_mode
  ci_name :: string
  ci_description :: "string option"
  ci_uiLibrary :: string
  ci_messages :: "context_message list"
  ci_attachments :: "agent_attachment list"
  ci_files :: "(string \<times> string) list"

text \<open>\<open>take\<close> of the source: a prefix of the value, charged to what remains of the budget.\<close>

definition take_chars :: "nat \<Rightarrow> string \<Rightarrow> string \<times> nat" where
  "take_chars remaining value =
     (let selected = take remaining value in (selected, remaining - length selected))"

fun take_map :: "nat \<Rightarrow> (nat \<Rightarrow> 'a \<Rightarrow> 'b \<times> nat) \<Rightarrow> 'a list \<Rightarrow> 'b list \<times> nat" where
  "take_map remaining f [] = ([], remaining)"
| "take_map remaining f (x # xs) =
     (let (y, r1) = f remaining x; (ys, r2) = take_map r1 f xs in (y # ys, r2))"

definition take_path :: "nat \<Rightarrow> string \<times> string \<Rightarrow> (string \<times> string) \<times> nat" where
  "take_path remaining file =
     (let (p, r) = take_chars remaining (fst file) in ((p, snd file), r))"

definition take_attachment_header :: "nat \<Rightarrow> agent_attachment \<Rightarrow> agent_attachment \<times> nat" where
  "take_attachment_header remaining a =
     (let (name, r1) = take_chars remaining (at_name a); (mediaType, r2) = take_chars r1 (at_mediaType a)
      in (a\<lparr>at_name := name, at_mediaType := mediaType\<rparr>, r2))"

definition take_attachment_content :: "nat \<Rightarrow> agent_attachment \<Rightarrow> agent_attachment \<times> nat" where
  "take_attachment_content remaining a =
     (let (c, r) = take_chars remaining (at_content a) in (a\<lparr>at_content := c\<rparr>, r))"

text \<open>Newest first, until the budget is used up; \<open>unshift\<close> restores the order.\<close>

fun take_messages :: "nat \<Rightarrow> context_message list \<Rightarrow> context_message list \<Rightarrow> context_message list \<times> nat" where
  "take_messages remaining selected [] = (selected, remaining)"
| "take_messages remaining selected (msg # msgs) =
     (if remaining = 0 then (selected, remaining)
      else let (c, r) = take_chars remaining (cm_content msg)
           in take_messages r (\<lparr>cm_role = cm_role msg, cm_content = c\<rparr> # selected) msgs)"

definition last_messages :: "nat \<Rightarrow> 'a list \<Rightarrow> 'a list" where
  "last_messages n xs = drop (length xs - n) xs"

definition take_file :: "bool \<Rightarrow> nat \<Rightarrow> string \<times> string \<Rightarrow> context_file \<times> nat" where
  "take_file includeContents remaining file =
     (if includeContents
      then let (c, r) = take_chars remaining (snd file) in (\<lparr>cf_path = fst file, cf_content = Some c\<rparr>, r)
      else (\<lparr>cf_path = fst file, cf_content = None\<rparr>, remaining))"

definition take_description :: "nat \<Rightarrow> string option \<Rightarrow> string option \<times> nat" where
  "take_description remaining d =
     (case d of
        Some x \<Rightarrow> if x \<noteq> [] then (let (y, r) = take_chars remaining x in (Some y, r)) else (None, remaining)
      | None \<Rightarrow> (None, remaining))"

definition buildAgentContext :: "(string \<Rightarrow> string \<Rightarrow> bool) \<Rightarrow> context_input \<Rightarrow> int \<Rightarrow> agent_context" where
  "buildAgentContext collate input contextCharLimit =
     (let r0 = nat contextCharLimit;
          (prompt, r1) = take_chars r0 (ci_prompt input);
          (name, r2) = take_chars r1 (ci_name input);
          (description, r3) = take_description r2 (ci_description input);
          (paths, r4) = take_map r3 take_path (ci_files input);
          fileManifest = filter (\<lambda>f. fst f \<noteq> []) paths;
          (headers, r5) = take_map r4 take_attachment_header (ci_attachments input);
          (messages, r6) = take_messages r5 [] (rev (last_messages 20 (ci_messages input)));
          (attachments, r7) = take_map r6 take_attachment_content headers;
          includeContents = list_all (\<lambda>f. length (snd f) \<le> r7) fileManifest;
          (files, r8) = take_map r7 (take_file includeContents) fileManifest
      in \<lparr>cx_prompt = prompt, cx_mode = ci_mode input,
          cx_project = \<lparr>cp_name = name, cp_description = description, cp_uiLibrary = ci_uiLibrary input\<rparr>,
          cx_messages = messages, cx_attachments = Some attachments,
          cx_files = sort_by (\<lambda>a b. collate (cf_path a) (cf_path b)) files\<rparr>)"

section \<open>loadAgentContext\<close>

type_synonym ('s) bundle_reader = "string \<Rightarrow> object_id \<Rightarrow> object_id \<Rightarrow> artifact_kind \<Rightarrow>
  ('s, js_error, project_file list \<times> package_json) comp"

definition require :: "bool \<Rightarrow> js_error \<Rightarrow> ('s, js_error, unit) comp" where
  "require b e = (if b then ret () else throw e)"

definition find_base_snapshot :: "agent_run \<Rightarrow>
    (('z) world_scheme, js_error, (object_id \<times> project_snapshot) option) comp" where
  "find_base_snapshot run =
     (case ar_baseSnapshotId run of
        None \<Rightarrow> ret None
      | Some s \<Rightarrow> find_doc (\<lambda>w.
          case w_snapshots w s of
            None \<Rightarrow> None
          | Some d \<Rightarrow> if sn_projectId d = ar_projectId run \<and> sn_userId d = ar_userId run
                       then Some (s, d) else None))"

definition find_chat :: "agent_run \<Rightarrow> (('z) world_scheme, js_error, chat option) comp" where
  "find_chat run =
     (case ar_chatId run of
        None \<Rightarrow> ret None
      | Some c \<Rightarrow> find_doc (\<lambda>w.
          case w_chats w c of
            None \<Rightarrow> None
          | Some d \<Rightarrow> if ct_userId d = ar_userId run \<and> ct_projectId d = Some (ar_projectId run) \<and>
                          ct_branchId d = ar_branchId run
                       then Some d else None))"

definition find_project :: "agent_run \<Rightarrow> (('z) world_scheme, js_error, project option) comp" where
  "find_project run = find_doc (\<lambda>w.
     case w_projects w (ar_projectId run) of
       None \<Rightarrow> None
     | Some d \<Rightarrow> if pr_userId d = ar_userId run \<and> pr_workspaceId d = ar_workspaceId run
                  then Some d else None)"

definition loadAgentContext :: "(string \<Rightarrow> string \<Rightarrow> bool) \<Rightarrow> ('z world_scheme) bundle_reader \<Rightarrow>
    agent_run \<Rightarrow> int \<Rightarrow> (('z) world_scheme, js_error, agent_context) comp" where
  "loadAgentContext collate readOwnedBundle run contextCharLimit =
     seq (find_project run) (\<lambda>proj.
     case proj of
       None \<Rightarrow> throw (coded_error ''PROJECT_NOT_FOUND'' ''Project not found'')
     | Some project \<Rightarrow>
         seq (find_chat run) (\<lambda>chat.
         seq (require (\<not> (ar_chatId run \<noteq> None \<and> chat = None))
                (coded_error ''INVALID_CHAT_BRANCH'' ''Chat no longer belongs to the AgentRun branch'')) (\<lambda>_.
         seq (find_base_snapshot run) (\<lambda>baseSnapshot.
         seq (require (\<not> (ar_mode run = EditMode \<and> baseSnapshot = None))
                (coded_error ''INVALID_BASE_SNAPSHOT'' ''Edit mode requires a valid base snapshot'')) (\<lambda>_.
         seq (case baseSnapshot of
                None \<Rightarrow> ret None
              | Some (i, d) \<Rightarrow>
                  seq (readOwnedBundle (sn_artifactId d) (sn_workspaceId d) (sn_projectId d) KProjectSnapshot)
                    (\<lambda>bundle. ret (Some (fst bundle)))) (\<lambda>bundleFiles.
         ret (buildAgentContext collate
           \<lparr>ci_prompt = ar_prompt run, ci_mode = ar_mode run, ci_name = pr_name project,
            ci_description = pr_description project, ci_uiLibrary = pr_uiLibrary project,
            ci_messages = (case chat of None \<Rightarrow> []
              | Some c \<Rightarrow> map (\<lambda>m. \<lparr>cm_role = ch_role m, cm_content = ch_content m\<rparr>) (ct_messages c)),
            ci_attachments = (case ar_attachments run of None \<Rightarrow> [] | Some a \<Rightarrow> a),
            ci_files = map (\<lambda>f. (path f, content f)) (resolveProjectBaseFiles bundleFiles)\<rparr>
           contextCharLimit)))))))"

section \<open>Lemmas\<close>

definition attachment_header_chars :: "agent_attachment \<Rightarrow> nat" where
  "attachment_header_chars a = length (at_name a) + length (at_mediaType a)"

text \<open>Everything of a context that came from user or project text.\<close>

definition context_chars :: "agent_context \<Rightarrow> nat" where
  "context_chars cx = length (cx_prompt cx) + length (cp_name (cx_project cx)) +
     (case cp_description (cx_project cx) of None \<Rightarrow> 0 | Some d \<Rightarrow> length d) +
     sum_list (map (\<lambda>m. length (cm_content m)) (cx_messages cx)) +
     (case cx_attachments cx of None \<Rightarrow> 0
      | Some as \<Rightarrow> sum_list (map (\<lambda>a. attachment_header_chars a + length (at_content a)) as)) +
     sum_list (map (\<lambda>f. length (cf_path f) + (case cf_content f of None \<Rightarrow> 0 | Some c \<Rightarrow> length c)) (cx_files cx))"

lemma take_chars_cost: "take_chars r v = (s, r') \<Longrightarrow> length s + r' = r"
  by (auto simp: take_chars_def Let_def)

lemma take_map_cost:
  assumes "\<And>r x y r'. f r x = (y, r') \<Longrightarrow> cost y + r' = r + base x"
  shows "take_map r f xs = (ys, r') \<Longrightarrow> sum_list (map cost ys) + r' = r + sum_list (map base xs)"
proof (induction xs arbitrary: r ys)
  case Nil
  then show ?case by simp
next
  case (Cons x xs)
  then obtain y r1 zs where y: "f r x = (y, r1)" "take_map r1 f xs = (zs, r')" "ys = y # zs"
    by (auto split: prod.splits)
  with Cons.IH [OF y(2)] assms [OF y(1)] show ?case by simp
qed

lemma take_messages_cost: "take_messages r acc msgs = (ms, r') \<Longrightarrow>
    sum_list (map (\<lambda>m. length (cm_content m)) ms) + r' =
    r + sum_list (map (\<lambda>m. length (cm_content m)) acc)"
proof (induction msgs arbitrary: r acc)
  case Nil
  then show ?case by simp
next
  case (Cons m msgs)
  show ?case
  proof (cases "r = 0")
    case True
    with Cons.prems show ?thesis by simp
  next
    case False
    obtain c r1 where c: "take_chars r (cm_content m) = (c, r1)" by fastforce
    with Cons.prems False
    have "take_messages r1 (\<lparr>cm_role = cm_role m, cm_content = c\<rparr> # acc) msgs = (ms, r')" by simp
    from Cons.IH [OF this] take_chars_cost [OF c] show ?thesis by simp
  qed
qed

lemma sum_list_insert_by: "sum_list (map (f :: 'a \<Rightarrow> nat) (insert_by le x ys)) = f x + sum_list (map f ys)"
  by (induction ys) auto

lemma sum_list_sort_by: "sum_list (map (f :: 'a \<Rightarrow> nat) (sort_by le xs)) = sum_list (map f xs)"
  by (induction xs) (auto simp: sum_list_insert_by)

lemma sum_list_filter_nonempty:
  "sum_list (map (\<lambda>f. length (fst f)) (filter (\<lambda>f. fst f \<noteq> []) xs)) =
     sum_list (map (\<lambda>f. length (fst f)) xs)"
  by (induction xs) auto

lemma take_path_cost:
  "take_path r x = (y, r') \<Longrightarrow> length (fst y) + r' = r + 0"
  by (auto simp: take_path_def dest: take_chars_cost split: prod.splits)

lemma take_header_cost:
  "take_attachment_header r x = (y, r') \<Longrightarrow> attachment_header_chars y + r' = r + 0"
  by (auto simp: take_attachment_header_def attachment_header_chars_def dest!: take_chars_cost
    split: prod.splits)

lemma take_content_cost: "take_attachment_content r x = (y, r') \<Longrightarrow>
    (attachment_header_chars y + length (at_content y)) + r' = r + attachment_header_chars x"
  by (auto simp: take_attachment_content_def attachment_header_chars_def dest!: take_chars_cost
    split: prod.splits)

definition file_chars :: "context_file \<Rightarrow> nat" where
  "file_chars f = length (cf_path f) + (case cf_content f of None \<Rightarrow> 0 | Some c \<Rightarrow> length c)"

lemma take_file_cost: "take_file b r x = (y, r') \<Longrightarrow> file_chars y + r' = r + length (fst x)"
  by (auto simp: take_file_def file_chars_def dest!: take_chars_cost split: prod.splits if_splits)

lemma sum_list_zero: "sum_list (map (\<lambda>x. 0 :: nat) xs) = 0"
  by (induction xs) auto

section \<open>Property\<close>

text \<open>C9: The context sent to the model never exceeds the configured budget: prompt, project name
  and description, messages, attachment headers and contents, file paths and file contents together
  have at most \<open>contextCharLimit\<close> characters, whatever their sizes.\<close>

theorem buildAgentContext_budget:
  "context_chars (buildAgentContext collate input limit) \<le> nat limit"
proof -
  obtain prompt r1 where 1: "take_chars (nat limit) (ci_prompt input) = (prompt, r1)" by fastforce
  obtain name r2 where 2: "take_chars r1 (ci_name input) = (name, r2)" by fastforce
  obtain descr r3 where 3: "take_description r2 (ci_description input) = (descr, r3)" by fastforce
  obtain paths r4 where 4: "take_map r3 take_path (ci_files input) = (paths, r4)" by fastforce
  obtain headers r5 where 5: "take_map r4 take_attachment_header (ci_attachments input) = (headers, r5)"
    by fastforce
  obtain msgs r6 where 6: "take_messages r5 [] (rev (last_messages 20 (ci_messages input))) = (msgs, r6)"
    by fastforce
  obtain atts r7 where 7: "take_map r6 take_attachment_content headers = (atts, r7)" by fastforce
  define manifest where "manifest = filter (\<lambda>f. fst f \<noteq> []) paths"
  define incl where "incl = list_all (\<lambda>f. length (snd f) \<le> r7) manifest"
  obtain files r8 where 8: "take_map r7 (take_file incl) manifest = (files, r8)" by fastforce
  have cx: "buildAgentContext collate input limit = \<lparr>cx_prompt = prompt, cx_mode = ci_mode input,
      cx_project = \<lparr>cp_name = name, cp_description = descr, cp_uiLibrary = ci_uiLibrary input\<rparr>,
      cx_messages = msgs, cx_attachments = Some atts,
      cx_files = sort_by (\<lambda>a b. collate (cf_path a) (cf_path b)) files\<rparr>"
    unfolding buildAgentContext_def Let_def 1 2 3 4 5 6 7 split_conv
      manifest_def [symmetric] incl_def [symmetric] 8 ..
  have d: "(case descr of None \<Rightarrow> 0 | Some d \<Rightarrow> length d) + r3 = r2"
    using 3 by (auto simp: take_description_def dest: take_chars_cost split: option.splits if_splits prod.splits)
  have p: "sum_list (map (\<lambda>f. length (fst f)) paths) + r4 = r3"
    using take_map_cost [where base = "\<lambda>_. 0", OF take_path_cost 4] by (simp add: sum_list_zero)
  have h: "sum_list (map attachment_header_chars headers) + r5 = r4"
    using take_map_cost [where base = "\<lambda>_. 0", OF take_header_cost 5] by (simp add: sum_list_zero)
  have m: "sum_list (map (\<lambda>m. length (cm_content m)) msgs) + r6 = r5"
    using take_messages_cost [OF 6] by simp
  have a: "sum_list (map (\<lambda>a. attachment_header_chars a + length (at_content a)) atts) + r7 =
      r6 + sum_list (map attachment_header_chars headers)"
    using take_map_cost [OF take_content_cost 7] by simp
  have f: "sum_list (map file_chars files) + r8 = r7 + sum_list (map (\<lambda>f. length (fst f)) paths)"
    using take_map_cost [OF take_file_cost 8] sum_list_filter_nonempty [of paths]
    by (simp add: manifest_def)
  show ?thesis
    unfolding context_chars_def cx
    using take_chars_cost [OF 1] take_chars_cost [OF 2] d p h m a f
    by (simp add: sum_list_sort_by file_chars_def [symmetric])
qed

end
