(* ===== verification/EventBus.thy ===== *)
theory EventBus
  imports World
begin

text \<open>
  \<open>agent/eventBus.ts\<close>: the next sequence number of a run, the insertion under the unique
  index on run and sequence, and the publication on the Redis channel of the run. The sequences of
  a run stay 1, 2, 3, ... however many processes emit events.
\<close>

section \<open>Operations\<close>

definition find_latest_sequence :: "object_id \<Rightarrow> (('z) world_scheme, js_error, nat option) comp" where
  "find_latest_sequence r = find_doc (\<lambda>w.
     if event_sequences r w = [] then None else Some (latest_sequence r w))"

definition getNextSequence :: "object_id \<Rightarrow> (('z) world_scheme, js_error, nat) comp" where
  "getNextSequence r = seq (find_latest_sequence r) (\<lambda>latest.
     ret (case latest of Some n \<Rightarrow> n + 1 | None \<Rightarrow> 1))"

definition insert_event :: "agent_event \<Rightarrow> (('z) world_scheme, js_error, agent_event) comp" where
  "insert_event e = (\<lambda>w.
     let doc = e\<lparr>ev_createdAt := w_now w\<rparr>
     in if ev_sequence e \<in> set (event_sequences (ev_runId e) w) then (Inl duplicate_key, w)
        else (Inr doc, w\<lparr>w_events := w_events w @ [doc]\<rparr>))"

definition publish :: "agent_event \<Rightarrow> (('z) world_scheme, js_error, unit) comp" where
  "publish e = db_op (modify (\<lambda>w. w\<lparr>w_published := w_published w @ [e]\<rparr>))"

definition emitAgentEvent :: "object_id \<Rightarrow> object_id \<Rightarrow> object_id \<Rightarrow> agent_event_type \<Rightarrow> string \<Rightarrow>
    payload option \<Rightarrow> (('z) world_scheme, js_error, agent_event) comp" where
  "emitAgentEvent runId userId projectId t msg payload =
     seq (getNextSequence runId) (\<lambda>n.
     seq (db_op (insert_event \<lparr>ev_runId = runId, ev_userId = userId, ev_projectId = projectId,
            ev_type = t, ev_sequence = n, ev_message = msg, ev_payload = payload, ev_createdAt = 0\<rparr>))
       (\<lambda>e. seq (publish e) (\<lambda>_. ret e)))"

section \<open>Lemmas\<close>

lemma emit_order: "resp agent_order (emitAgentEvent r u p t m pl)"
proof -
  have "resp agent_order (insert_event e)" for e :: agent_event
    by (auto simp: resp_def insert_event_def Let_def agent_order_refl)
  then show ?thesis
    unfolding emitAgentEvent_def getNextSequence_def find_latest_sequence_def publish_def
    by (intro agent.resp_seq agent.resp_db_op agent.resp_find_doc agent.resp_ret agent.resp_modify)
       (simp_all)
qed

text \<open>The events of a store are numbered when each run's sequences are 1, 2, ..., n in order.\<close>

definition numbered :: "('z) world_scheme \<Rightarrow> bool" where
  "numbered w \<longleftrightarrow> (\<forall>r. \<exists>n. event_sequences r w = [1..<Suc n])"

lemma fold_max: "fold max xs (m :: nat) = Max (insert m (set xs))"
  using Max.set_eq_fold [of m xs] by simp

lemma latest_numbered: "event_sequences r w = [1..<Suc n] \<Longrightarrow> latest_sequence r w = n"
  unfolding latest_sequence_def fold_max by (intro Max_eqI) auto

lemma event_sequences_append:
  "event_sequences r (w\<lparr>w_events := w_events w @ [e]\<rparr>) =
     event_sequences r w @ (if ev_runId e = r then [ev_sequence e] else [])"
  by (simp add: event_sequences_def)

lemma numbered_append:
  assumes "numbered w" "ev_sequence e = Suc (latest_sequence (ev_runId e) w)"
  shows "numbered (w\<lparr>w_events := w_events w @ [e]\<rparr>)"
  unfolding numbered_def
proof
  fix r
  from assms(1) obtain n where n: "event_sequences r w = [1..<Suc n]" unfolding numbered_def by blast
  show "\<exists>k. event_sequences r (w\<lparr>w_events := w_events w @ [e]\<rparr>) = [1..<Suc k]"
  proof (cases "ev_runId e = r")
    case True
    then have "event_sequences r (w\<lparr>w_events := w_events w @ [e]\<rparr>) = [1..<Suc (Suc n)]"
      using n assms(2) latest_numbered [OF n] by (simp add: event_sequences_append)
    then show ?thesis by blast
  next
    case False
    with n show ?thesis by (auto simp: event_sequences_append)
  qed
qed

text \<open>The relation of the event log: it only grows, and stays numbered.\<close>

definition log_order :: "('z) world_scheme \<Rightarrow> ('z) world_scheme \<Rightarrow> bool" where
  "log_order w w' \<longleftrightarrow> (\<exists>new. w_events w' = w_events w @ new) \<and> (numbered w \<longrightarrow> numbered w')"

lemma log_order_same [simp]: "w_events w' = w_events w \<Longrightarrow> log_order w w'"
  by (simp add: log_order_def numbered_def event_sequences_def)

lemma log_order_append:
  "ev_sequence e = Suc (latest_sequence (ev_runId e) w) \<Longrightarrow>
     log_order w (w\<lparr>w_events := w_events w @ [e]\<rparr>)"
  by (simp add: log_order_def numbered_append)

interpretation log: store_order "log_order :: ('z) world_scheme \<Rightarrow> 'z world_scheme \<Rightarrow> bool"
proof unfold_locales
  fix w :: "'z world_scheme" and e
  show "log_order w (env_apply e w)"
  proof (cases e)
    case (EnvEvent r t)
    then show ?thesis by (simp add: log_order_append foreign_event_def)
  qed (auto split: option.split)
next
  fix w v u :: "'z world_scheme"
  assume "log_order w v" "log_order v u"
  then show "log_order w u" unfolding log_order_def by (metis append.assoc)
qed simp_all

lemma latest_mono:
  assumes "log_order w w'" "numbered w"
  shows "latest_sequence r w \<le> latest_sequence r w'"
proof -
  from assms(1) obtain new where "w_events w' = w_events w @ new" unfolding log_order_def by blast
  then have sub: "set (event_sequences r w) \<subseteq> set (event_sequences r w')"
    by (auto simp: event_sequences_def)
  then show ?thesis
    unfolding latest_sequence_def fold_max by (intro Max_mono) auto
qed

text \<open>
  Insertion at a number read earlier: either no event came in between and it is the next one, or
  the number is taken and the unique index rejects it.
\<close>

lemma insert_event_order:
  assumes "numbered w" "ev_sequence e \<le> Suc (latest_sequence (ev_runId e) w)" "1 \<le> ev_sequence e"
  shows "log_order w (snd (insert_event e w))"
proof -
  from assms(1) obtain n where n: "event_sequences (ev_runId e) w = [1..<Suc n]"
    unfolding numbered_def by blast
  show ?thesis
  proof (cases "ev_sequence e \<in> set (event_sequences (ev_runId e) w)")
    case True
    then show ?thesis by (simp add: insert_event_def Let_def)
  next
    case False
    with n assms(2,3) have "ev_sequence e = Suc (latest_sequence (ev_runId e) w)"
      using latest_numbered [OF n] by auto
    then show ?thesis using False by (simp add: insert_event_def Let_def log_order_append)
  qed
qed

lemma next_sequence:
  assumes "getNextSequence r w = (Inr n, w1)" "numbered w"
  shows "log_order w w1 \<and> 1 \<le> n \<and> n = Suc (latest_sequence r w1)"
proof -
  from assms(1) obtain l where l: "find_latest_sequence r w = (Inr l, w1)"
    "n = (case l of Some k \<Rightarrow> k + 1 | None \<Rightarrow> 1)"
    unfolding getNextSequence_def by (elim seq_elim) (auto simp: ret_def)
  have "resp log_order (find_latest_sequence r)"
    unfolding find_latest_sequence_def by (rule log.resp_find_doc)
  then have "log_order w w1" using l(1) by (rule respD)
  moreover have "l = (if event_sequences r w1 = [] then None else Some (latest_sequence r w1))"
    using l(1) by (auto simp: find_latest_sequence_def find_doc_def db_op_def reads_def Let_def
      split: fault.splits)
  ultimately show ?thesis using l(2) by (auto simp: latest_sequence_def)
qed

lemma emit_numbered:
  fixes w :: "'a world_scheme"
  shows "numbered w \<Longrightarrow> log_order w (snd (emitAgentEvent r u p t m pl w))"
proof -
  assume nb: "numbered w"
  obtain rs w3 where run: "emitAgentEvent r u p t m pl w = (rs, w3)" by fastforce
  define rest where "rest = (\<lambda>n. seq (db_op (insert_event \<lparr>ev_runId = r, ev_userId = u,
      ev_projectId = p, ev_type = t, ev_sequence = n, ev_message = m, ev_payload = pl,
      ev_createdAt = 0\<rparr>)) (\<lambda>e :: agent_event. seq (publish e) (\<lambda>_. ret e)) ::
      ('a world_scheme, js_error, agent_event) comp)"
  have split: "seq (getNextSequence r) rest w = (rs, w3)"
    using run by (simp add: emitAgentEvent_def rest_def)
  have pub: "resp log_order (seq (publish e) (\<lambda>_. ret e) :: ('a world_scheme, _, _) comp)" for e :: agent_event
    unfolding publish_def
    by (intro log.resp_seq log.resp_db_op log.resp_modify log.resp_ret) simp
  have get: "resp log_order (getNextSequence r :: ('a world_scheme, _, _) comp)"
    unfolding getNextSequence_def find_latest_sequence_def
    by (intro log.resp_seq log.resp_find_doc log.resp_ret)
  from split show ?thesis
  proof (cases rule: seq_elim)
    case (exn e)
    then show ?thesis using run respD [OF get exn(1)] by simp
  next
    case (val n w1)
    let ?e = "\<lparr>ev_runId = r, ev_userId = u, ev_projectId = p, ev_type = t, ev_sequence = n,
      ev_message = m, ev_payload = pl, ev_createdAt = 0\<rparr>"
    have w1: "log_order w w1" "1 \<le> n" "n = Suc (latest_sequence r w1)"
      using next_sequence [OF val(1) nb] by auto
    have nb1: "numbered w1" using w1(1) nb by (simp add: log_order_def)
    have ins: "log_order w1 (snd (db_op (insert_event ?e) w1))"
    proof (rule log.db_op_at)
      fix v assume v: "log_order w1 v"
      then have "numbered v" "latest_sequence r w1 \<le> latest_sequence r v"
        using nb1 latest_mono by (auto simp: log_order_def)
      then show "log_order v (snd (insert_event ?e v))"
        using w1(2,3) by (intro insert_event_order) auto
    qed
    from val(2) [unfolded rest_def] have "log_order w1 w3"
    proof (cases rule: seq_elim)
      case (exn e)
      then show ?thesis using ins by simp
    next
      case (val e w2)
      then show ?thesis using ins respD [OF pub val(2)] log.R_trans by fastforce
    qed
    then show ?thesis using w1(1) log.R_trans run by (metis snd_conv)
  qed
qed

text \<open>Without the numbering the log still only grows.\<close>

definition log_grows :: "('z) world_scheme \<Rightarrow> ('z) world_scheme \<Rightarrow> bool" where
  "log_grows w w' \<longleftrightarrow> (\<exists>new. w_events w' = w_events w @ new)"

lemma log_order_grows: "log_order w w' \<Longrightarrow> log_grows w w'"
  by (simp add: log_order_def log_grows_def)

interpretation grow: store_order "log_grows :: ('z) world_scheme \<Rightarrow> 'z world_scheme \<Rightarrow> bool"
proof unfold_locales
  show "log_grows w w" for w :: "'z world_scheme" by (simp add: log_grows_def)
  show "log_grows w u" if "log_grows w v" "log_grows v u" for w v u :: "'z world_scheme"
    using that by (auto simp: log_grows_def)
  show "log_grows w (env_apply e w)" for w :: "'z world_scheme" and e
    by (rule log_order_grows) (rule log.R_env)
  show "log_grows w (w\<lparr>w_sched := sl\<rparr>)" for w :: "'z world_scheme" and sl
    by (simp add: log_grows_def)
qed

lemma emit_log: "resp log_order (emitAgentEvent r u p t m pl :: ('a world_scheme, _, _) comp)"
proof -
  have "resp log_grows (insert_event e)" for e :: agent_event
    by (auto simp: resp_def insert_event_def Let_def log_grows_def)
  then have "resp log_grows (emitAgentEvent r u p t m pl :: ('a world_scheme, _, _) comp)"
    unfolding emitAgentEvent_def getNextSequence_def find_latest_sequence_def publish_def
    by (intro grow.resp_seq grow.resp_db_op grow.resp_find_doc grow.resp_ret grow.resp_modify)
       (simp_all add: log_grows_def)
  then have grows: "log_grows w (snd (emitAgentEvent r u p t m pl w))" for w :: "'a world_scheme"
    by (simp add: resp_def)
  show ?thesis
    unfolding resp_def
  proof
    fix w :: "'a world_scheme"
    show "log_order w (snd (emitAgentEvent r u p t m pl w))"
      using emit_numbered [of w] grows [of w] by (auto simp: log_order_def log_grows_def)
  qed
qed

section \<open>Property\<close>

text \<open>\<open>emitAgentEvent\<close> keeps the event log of every run numbered 1, 2, ..., n in the order
  of insertion, whatever other processes emit between its read of the latest sequence and its
  insertion and wherever a database call fails; and it never removes or changes an event.\<close>

theorem emitAgentEvent_numbering:
  assumes "numbered w"
  shows "numbered (snd (emitAgentEvent r u p t m pl w)) \<and>
    (\<exists>new. w_events (snd (emitAgentEvent r u p t m pl w)) = w_events w @ new)"
proof -
  have "log_order w (snd (emitAgentEvent r u p t m pl w))" using emit_log unfolding resp_def by blast
  then show ?thesis using assms by (simp add: log_order_def)
qed

theorem emitAgentEvent_numbering_witness:
  "numbered (snd (emitAgentEvent ''r'' [] [] RunStarted [] None
     (empty_world\<lparr>w_sched := [([EnvEvent ''r'' RunCancelled], NoFault),
        ([EnvEvent ''r'' RunFailed], NoFault)]\<rparr>)))"
proof -
  have "numbered (empty_world\<lparr>w_sched := [([EnvEvent ''r'' RunCancelled], NoFault),
        ([EnvEvent ''r'' RunFailed], NoFault)]\<rparr>)"
    by (auto simp: numbered_def event_sequences_def empty_world_def intro: exI [of _ 0])
  from emitAgentEvent_numbering [OF this] show ?thesis by blast
qed

end
