(* ===== verification/Branches.thy ===== *)
theory Branches
  imports EventBus
begin

text \<open>
  Branches of a project: \<open>branches/branchService.ts\<close> (the compare-and-set of a branch head and
  the creation of branches) and \<open>branches/branchExecution.ts\<close> (the lease that lets one run at a
  time execute on a branch).
\<close>

section \<open>branches/branchService.ts\<close>

definition fresh_id :: "('z) world_scheme \<Rightarrow> object_id" where
  "fresh_id w = ''id-'' @ show_nat (w_nextId w)"

definition MAIN_BRANCH_NAME :: string where
  "MAIN_BRANCH_NAME = ''main''"

text \<open>An upsert on the unique index of project and name: the stored branch, or a new one.\<close>

definition ensureMainBranch :: "object_id \<Rightarrow> project \<Rightarrow>
    (('z) world_scheme, js_error, object_id \<times> project_branch) comp" where
  "ensureMainBranch p proj =
     (case pr_workspaceId proj of
        None \<Rightarrow> throw (plain_error ''Project is missing workspaceId'')
      | Some ws \<Rightarrow> db_op (\<lambda>w.
          case Option.bind (w_branchIndex w (p, MAIN_BRANCH_NAME))
                 (\<lambda>b. map_option (Pair b) (w_branches w b)) of
            Some bd \<Rightarrow> (Inr bd, w)
          | None \<Rightarrow>
              let b = fresh_id w;
                  d = \<lparr>br_workspaceId = ws, br_projectId = p, br_name = MAIN_BRANCH_NAME,
                       br_status = BranchActive, br_headSnapshotId = pr_activeSnapshotId proj,
                       br_headVersion = pr_activeSnapshotRevision proj,
                       br_createdFromSnapshotId = pr_activeSnapshotId proj\<rparr>
              in if w_branches w b \<noteq> None then (Inl duplicate_key, w)
                 else (Inr (b, d), w\<lparr>w_branches := (w_branches w)(b \<mapsto> d),
                   w_branchIndex := (w_branchIndex w)((p, MAIN_BRANCH_NAME) \<mapsto> b),
                   w_nextId := w_nextId w + 1\<rparr>)))"

definition resolveProjectBranch :: "object_id \<Rightarrow> project \<Rightarrow> object_id option \<Rightarrow>
    (('z) world_scheme, js_error, (object_id \<times> project_branch) option) comp" where
  "resolveProjectBranch p proj branchId =
     (case branchId of
        None \<Rightarrow> seq (ensureMainBranch p proj) (\<lambda>bd. ret (Some bd))
      | Some b \<Rightarrow> find_doc (\<lambda>w.
          case w_branches w b of
            None \<Rightarrow> None
          | Some d \<Rightarrow> if Some (br_workspaceId d) = pr_workspaceId proj \<and> br_projectId d = p \<and>
                          br_status d = BranchActive
                       then Some (b, d) else None))"

definition snapshot_not_found :: js_error where
  "snapshot_not_found = (plain_error ''Snapshot not found'')\<lparr>err_number := Some 404\<rparr>"

definition createProjectBranch :: "object_id \<Rightarrow> project \<Rightarrow> string \<Rightarrow> object_id option \<Rightarrow>
    (('z) world_scheme, js_error, object_id \<times> project_branch) comp" where
  "createProjectBranch p proj name fromSnapshotId =
     seq (case fromSnapshotId of
            Some s \<Rightarrow> ret (Some s)
          | None \<Rightarrow> seq (ensureMainBranch p proj) (\<lambda>bd. ret (br_headSnapshotId (snd bd)))) (\<lambda>source.
     seq (case source of
            None \<Rightarrow> ret None
          | Some s \<Rightarrow> find_doc (\<lambda>w.
              case w_snapshots w s of
                None \<Rightarrow> None
              | Some d \<Rightarrow> if sn_projectId d = p \<and> sn_userId d = pr_userId proj \<and>
                              v_status (sn_validation d) \<noteq> VFailed
                           then Some s else None)) (\<lambda>snapshot.
     if source \<noteq> None \<and> snapshot = None then throw snapshot_not_found
     else db_op (\<lambda>w.
       case pr_workspaceId proj of
         None \<Rightarrow> (Inl (plain_error ''ProjectBranch validation failed: workspaceId is required''), w)
       | Some ws \<Rightarrow>
           let b = fresh_id w;
               d = \<lparr>br_workspaceId = ws, br_projectId = p, br_name = name, br_status = BranchActive,
                    br_headSnapshotId = snapshot, br_headVersion = 0,
                    br_createdFromSnapshotId = snapshot\<rparr>
           in if w_branches w b \<noteq> None \<or> w_branchIndex w (p, name) \<noteq> None
              then (Inl duplicate_key, w)
              else (Inr (b, d), w\<lparr>w_branches := (w_branches w)(b \<mapsto> d),
                w_branchIndex := (w_branchIndex w)((p, name) \<mapsto> b), w_nextId := w_nextId w + 1\<rparr>))))"

definition setBranchHead :: "object_id \<Rightarrow> nat \<Rightarrow> object_id \<Rightarrow>
    (('z) world_scheme, js_error, project_branch option) comp" where
  "setBranchHead b expected s = db_op (\<lambda>w.
     case w_branches w b of
       None \<Rightarrow> (Inr None, w)
     | Some d \<Rightarrow>
         if br_status d = BranchActive \<and> br_headVersion d = expected
         then let d' = d\<lparr>br_headSnapshotId := Some s, br_headVersion := br_headVersion d + 1\<rparr>
              in (Inr (Some d'), w\<lparr>w_branches := (w_branches w)(b \<mapsto> d')\<rparr>)
         else (Inr None, w))"

datatype commit_result = Advanced nat | AlreadyAdvanced nat | Conflict nat

definition commitBranchHead :: "object_id \<Rightarrow> nat \<Rightarrow> object_id \<Rightarrow>
    (('z) world_scheme, js_error, commit_result) comp" where
  "commitBranchHead b expected s =
     seq (setBranchHead b expected s) (\<lambda>advanced.
     case advanced of
       Some d \<Rightarrow> ret (Advanced (br_headVersion d))
     | None \<Rightarrow>
         seq (find_doc (\<lambda>w. w_branches w b)) (\<lambda>current.
         case current of
           None \<Rightarrow> throw (coded_error ''PROJECT_BRANCH_NOT_FOUND'' ''Project branch not found'')
         | Some d \<Rightarrow>
             if br_headSnapshotId d = Some s then ret (AlreadyAdvanced (br_headVersion d))
             else ret (Conflict (br_headVersion d))))"

section \<open>branches/branchExecution.ts\<close>

definition DEFAULT_TTL_MS :: int where
  "DEFAULT_TTL_MS = 60000"

record execution_guard =
  eg_branchId :: object_id
  eg_leaseId :: object_id
  eg_runId :: object_id

text \<open>
  \<open>findOneAndUpdate\<close> with \<open>upsert\<close>: it updates a lease of the branch that is this run's or
  expired, keeping its id; if there is another lease of the branch the insertion violates the
  unique index.
\<close>

definition upsert_lease :: "object_id \<Rightarrow> object_id \<Rightarrow> time \<Rightarrow> execution_lease \<Rightarrow>
    (('z) world_scheme, js_error, execution_lease) comp" where
  "upsert_lease b r now doc = (\<lambda>w.
     case w_leases w b of
       Some l \<Rightarrow>
         if el_runId l = r \<or> el_expiresAt l \<le> now
         then (let l' = doc\<lparr>el_id := el_id l\<rparr> in (Inr l', w\<lparr>w_leases := (w_leases w)(b \<mapsto> l')\<rparr>))
         else (Inl duplicate_key, w)
     | None \<Rightarrow>
         let l' = doc\<lparr>el_id := fresh_id w\<rparr>
         in (Inr l', w\<lparr>w_leases := (w_leases w)(b \<mapsto> l'), w_nextId := w_nextId w + 1\<rparr>))"

definition take_lease :: "object_id \<Rightarrow> object_id \<Rightarrow> time \<Rightarrow> execution_lease \<Rightarrow>
    (('z) world_scheme, js_error, execution_guard option) comp" where
  "take_lease b r now doc =
     catch
       (seq (db_op (upsert_lease b r now doc)) (\<lambda>lease.
        if el_runId lease \<noteq> r then ret None
        else seq (modify (\<lambda>w. w\<lparr>w_aborted := False, w_lost := False\<rparr>)) (\<lambda>_.
             ret (Some \<lparr>eg_branchId = b, eg_leaseId = el_id lease, eg_runId = r\<rparr>))))
       (\<lambda>e. if isDuplicateKey e then ret None else throw e)"

definition acquireBranchExecution :: "object_id \<Rightarrow> int \<Rightarrow>
    (('z) world_scheme, js_error, execution_guard option) comp" where
  "acquireBranchExecution r ttl =
     seq (AgentRun_findById r) (\<lambda>run.
     case run of
       None \<Rightarrow> ret None
     | Some d \<Rightarrow>
         (case (ar_workspaceId d, ar_branchId d, ar_baseHeadVersion d) of
            (Some ws, Some b, Some base) \<Rightarrow>
              seq Date_now (\<lambda>now.
              take_lease b r now
                \<lparr>el_id = [], el_workspaceId = ws, el_projectId = ar_projectId d, el_runId = r,
                 el_baseHeadVersion = base, el_acquiredAt = now, el_heartbeatAt = now,
                 el_expiresAt = now + ttl\<rparr>)
          | _ \<Rightarrow> ret None))"

definition runCancelledError :: js_error where
  "runCancelledError = coded_error ''RUN_CANCELLED'' ''Agent run cancelled''"

definition throwIfAborted :: "(('z) world_scheme, js_error, unit) comp" where
  "throwIfAborted = seq (reads w_aborted) (\<lambda>a. if a then throw runCancelledError else ret ())"

definition lease_held :: "execution_guard \<Rightarrow> ('z) world_scheme \<Rightarrow> bool" where
  "lease_held g w = (case w_leases w (eg_branchId g) of
     Some l \<Rightarrow> el_id l = eg_leaseId g \<and> el_runId l = eg_runId g \<and> w_now w < el_expiresAt l
   | None \<Rightarrow> False)"

definition assertHeld :: "execution_guard \<Rightarrow> (('z) world_scheme, js_error, unit) comp" where
  "assertHeld g =
     seq throwIfAborted (\<lambda>_.
     seq (reads w_lost) (\<lambda>lost.
     seq (if \<not> lost
          then seq (find_doc (lease_held g)) (\<lambda>held. modify (\<lambda>w. w\<lparr>w_lost := \<not> held\<rparr>))
          else ret ()) (\<lambda>_.
     seq (reads w_lost) (\<lambda>lost.
     if lost then throw (coded_error ''BRANCH_EXECUTION_LOST'' ''Branch execution lease was lost'')
     else throwIfAborted))))"

definition delete_lease :: "execution_guard \<Rightarrow> (('z) world_scheme, js_error, unit) comp" where
  "delete_lease g = (\<lambda>w. (Inr (),
     case w_leases w (eg_branchId g) of
       Some l \<Rightarrow> if el_id l = eg_leaseId g \<and> el_runId l = eg_runId g
                 then w\<lparr>w_leases := (w_leases w)(eg_branchId g := None)\<rparr> else w
     | None \<Rightarrow> w))"

definition releaseExecution :: "execution_guard \<Rightarrow> (('z) world_scheme, js_error, unit) comp" where
  "releaseExecution g = db_op (delete_lease g)"

section \<open>Lemmas\<close>

lemma setBranchHead_order: "resp agent_order (setBranchHead b v s)"
  unfolding setBranchHead_def
  by (rule agent.resp_db_op)
     (auto simp: resp_def Let_def agent_order_refl agent_order_head split: option.split)

lemma commit_order: "resp agent_order (commitBranchHead b v s)"
  unfolding commitBranchHead_def
  by (intro agent.resp_seq setBranchHead_order agent.resp_option agent.resp_find_doc agent.resp_rules)

lemma new_branch_order:
  "w_branches w b = None \<Longrightarrow>
     agent_order w (w\<lparr>w_branches := (w_branches w)(b \<mapsto> d), w_branchIndex := i, w_nextId := n\<rparr>)"
  by (auto simp: agent_order_def runs_kept_def heads_kept_def)

lemma ensureMainBranch_order: "resp agent_order (ensureMainBranch p proj)"
  unfolding ensureMainBranch_def
  by (intro agent.resp_option agent.resp_throw agent.resp_db_op)
     (auto simp: resp_def Let_def agent_order_refl new_branch_order split: option.split)

lemma createProjectBranch_order: "resp agent_order (createProjectBranch p proj name s)"
  unfolding createProjectBranch_def
  by (intro agent.resp_seq agent.resp_option agent.resp_if agent.resp_throw agent.resp_ret
        agent.resp_find_doc ensureMainBranch_order agent.resp_db_op)
     (auto simp: resp_def Let_def agent_order_refl new_branch_order split: option.split)

lemma acquire_order: "resp agent_order (acquireBranchExecution r ttl)"
proof -
  have "resp agent_order (upsert_lease b r now doc)" for b now doc
    by (auto simp: resp_def upsert_lease_def Let_def agent_order_refl split: option.split)
  then show ?thesis
    unfolding acquireBranchExecution_def take_lease_def
    by (intro agent.resp_seq agent.resp_find_run agent.resp_option agent.resp_prod agent.resp_Date_now
          agent.resp_catch agent.resp_db_op agent.resp_modify agent.resp_rules) simp_all
qed

lemma assertHeld_order: "resp agent_order (assertHeld g)"
  unfolding assertHeld_def throwIfAborted_def
  by (intro agent.resp_seq agent.resp_rules agent.resp_find_doc agent.resp_modify) simp_all

lemma release_order: "resp agent_order (releaseExecution g)"
  unfolding releaseExecution_def
  by (rule agent.resp_db_op) (auto simp: resp_def delete_lease_def agent_order_refl split: option.split)

text \<open>What a database call that answers has done: other processes' steps, then the operation.\<close>

lemma db_op_Inr:
  assumes "db_op f w = (Inr a, w')"
  obtains w1 where "f w1 = (Inr a, w')"
  using assms by (auto simp: db_op_def Let_def split: fault.splits)

lemma find_doc_Inr: "find_doc f w = (Inr a, w') \<Longrightarrow> a = f w'"
  unfolding find_doc_def by (erule db_op_Inr) (auto simp: reads_def)

lemma db_op_quiet [monad_simps]: "w_sched w = [] \<Longrightarrow> db_op f w = f (w\<lparr>w_sched := []\<rparr>)"
  by (simp add: db_op_def)

lemma sched_same [simp]: "w_sched w = [] \<Longrightarrow> w\<lparr>w_sched := []\<rparr> = w"
  by simp

text \<open>A head that carries the given snapshot at the given version.\<close>

definition head_is :: "('z) world_scheme \<Rightarrow> object_id \<Rightarrow> object_id \<Rightarrow> nat \<Rightarrow> bool" where
  "head_is w b s v \<longleftrightarrow> (\<exists>d. w_branches w b = Some d \<and> br_headSnapshotId d = Some s \<and> br_headVersion d = v)"

lemma setBranchHead_result:
  assumes "setBranchHead b v s w = (Inr (Some d), w')"
  shows "br_headVersion d = Suc v \<and> head_is w' b s (Suc v)"
  using assms unfolding setBranchHead_def
  by (elim db_op_Inr) (auto simp: head_is_def Let_def split: option.splits if_splits)

section \<open>The lease excludes other runs\<close>

text \<open>
  Steps on behalf of run \<open>r\<close>: time does not go back, and a lease of another run that is still
  unexpired afterwards is still that run's, with no earlier expiry.
\<close>

definition lease_order :: "object_id \<Rightarrow> ('z) world_scheme \<Rightarrow> ('z) world_scheme \<Rightarrow> bool" where
  "lease_order r w w' \<longleftrightarrow> w_now w \<le> w_now w' \<and>
     (\<forall>b l. w_leases w b = Some l \<and> el_runId l \<noteq> r \<and> w_now w' < el_expiresAt l \<longrightarrow>
        (\<exists>l'. w_leases w' b = Some l' \<and> el_runId l' = el_runId l \<and> el_expiresAt l \<le> el_expiresAt l'))"

lemma lease_order_refl [simp]: "lease_order r w w"
  by (simp add: lease_order_def)

lemma lease_order_same [simp]:
  "w_leases w' = w_leases w \<Longrightarrow> w_now w \<le> w_now w' \<Longrightarrow> lease_order r w w'"
  by (simp add: lease_order_def)

lemma lease_order_trans:
  assumes "lease_order r w v" "lease_order r v u"
  shows "lease_order r w u"
  unfolding lease_order_def
proof (intro conjI allI impI)
  show "w_now w \<le> w_now u" using assms by (auto simp: lease_order_def)
next
  fix b l assume l: "w_leases w b = Some l \<and> el_runId l \<noteq> r \<and> w_now u < el_expiresAt l"
  have "w_now v \<le> w_now u" using assms(2) by (simp add: lease_order_def)
  with assms(1) l obtain l' where l': "w_leases v b = Some l'" "el_runId l' = el_runId l"
    "el_expiresAt l \<le> el_expiresAt l'" unfolding lease_order_def by fastforce
  with assms(2) l obtain l'' where "w_leases u b = Some l''" "el_runId l'' = el_runId l'"
    "el_expiresAt l' \<le> el_expiresAt l''" unfolding lease_order_def by fastforce
  with l' show "\<exists>l'. w_leases u b = Some l' \<and> el_runId l' = el_runId l \<and>
      el_expiresAt l \<le> el_expiresAt l'" by auto
qed

lemma lease_order_put:
  "(\<And>l. w_leases w b = Some l \<Longrightarrow> el_runId l \<noteq> r \<Longrightarrow> el_expiresAt l \<le> w_now w) \<Longrightarrow>
     lease_order r w (w\<lparr>w_leases := (w_leases w)(b := x)\<rparr>)"
  by (fastforce simp: lease_order_def)

lemma lease_order_extend:
  assumes "w_leases w b = Some l" "el_runId l' = el_runId l" "el_expiresAt l \<le> el_expiresAt l'"
  shows "lease_order r w (w\<lparr>w_leases := (w_leases w)(b \<mapsto> l')\<rparr>)"
  using assms by (auto simp: lease_order_def)

interpretation lease: store_order "lease_order r :: ('z) world_scheme \<Rightarrow> 'z world_scheme \<Rightarrow> bool" for r
proof unfold_locales
  fix w :: "'z world_scheme" and e
  show "lease_order r w (env_apply e w)"
  proof (cases e)
    case (EnvLeaseTake b l)
    then show ?thesis
      using lease_order_put [of w b r "Some l"] by (auto simp: lease_free_def split: option.splits)
  next
    case (EnvLeaseDelete b)
    then show ?thesis
      using lease_order_put [of w b r None] by (auto simp: lease_free_def split: option.splits)
  qed (auto split: option.split intro: lease_order_extend)
next
  fix w v u :: "'z world_scheme"
  assume "lease_order r w v" "lease_order r v u"
  then show "lease_order r w u" by (rule lease_order_trans)
qed simp_all

lemma upsert_lease_order: "now \<le> w_now w \<Longrightarrow> lease_order r w (snd (upsert_lease b r now doc w))"
proof -
  assume now: "now \<le> w_now w"
  have "lease_order r w (w\<lparr>w_leases := (w_leases w)(b := x), w_nextId := n\<rparr>)"
    if "w_leases w b = None" for x n
    using that by (fastforce simp: lease_order_def)
  then show ?thesis
    using now by (auto simp: upsert_lease_def Let_def intro!: lease_order_put split: option.split)
qed

lemma take_lease_order:
  assumes "now = w_now w"
  shows "lease_order r w (snd (take_lease b r now doc w))"
proof -
  have 1: "lease_order r w (snd (db_op (upsert_lease b r now doc) w))"
  proof (rule lease.db_op_at)
    fix w1 assume "lease_order r w w1"
    then have "now \<le> w_now w1" by (simp add: lease_order_def assms)
    then show "lease_order r w1 (snd (upsert_lease b r now doc w1))" by (rule upsert_lease_order)
  qed
  have "w_leases (snd (take_lease b r now doc w)) = w_leases (snd (db_op (upsert_lease b r now doc) w)) \<and>
      w_now (snd (take_lease b r now doc w)) = w_now (snd (db_op (upsert_lease b r now doc) w))"
    by (auto simp: take_lease_def catch_def seq_def modify_def ret_def throw_def
        split: sum.split prod.split)
  with 1 show ?thesis by (simp add: lease_order_def)
qed

lemma acquire_lease_order: "resp (lease_order r) (acquireBranchExecution r ttl)"
proof -
  have "resp (lease_order r) (seq Date_now (\<lambda>now. take_lease b r now (doc now)))" for b doc
    unfolding resp_def Date_now_def reads_def seq_def by (simp add: take_lease_order)
  then show ?thesis
    unfolding acquireBranchExecution_def
    by (intro lease.resp_seq [where m = "AgentRun_findById r"] lease.resp_find_run lease.resp_option
          lease.resp_prod lease.resp_ret)
qed

lemma release_lease_order: "eg_runId g = r \<Longrightarrow> resp (lease_order r) (releaseExecution g)"
  unfolding releaseExecution_def
  by (rule lease.resp_db_op)
     (auto simp: resp_def delete_lease_def intro!: lease_order_put split: option.split)

lemma assertHeld_lease_order: "resp (lease_order r) (assertHeld g)"
  unfolding assertHeld_def throwIfAborted_def
  by (intro lease.resp_seq lease.resp_rules lease.resp_find_doc lease.resp_modify) simp_all

text \<open>The guard names the lease that is stored.\<close>

definition guarded :: "execution_guard \<Rightarrow> ('z) world_scheme \<Rightarrow> bool" where
  "guarded g w \<longleftrightarrow> (\<exists>l. w_leases w (eg_branchId g) = Some l \<and> el_runId l = eg_runId g \<and>
     el_id l = eg_leaseId g)"

lemma upsert_lease_result:
  "upsert_lease b r now doc w = (Inr l, w') \<Longrightarrow> w_leases w' b = Some l \<and> el_runId l = el_runId doc"
  by (auto simp: upsert_lease_def Let_def split: option.splits if_splits)

lemma take_lease_result:
  assumes "take_lease b r now doc w = (Inr (Some g), w')"
  shows "guarded g w' \<and> eg_runId g = r"
proof -
  from assms obtain l w1 where l: "db_op (upsert_lease b r now doc) w = (Inr l, w1)"
    "el_runId l = r" "w_leases w' = w_leases w1" "g = \<lparr>eg_branchId = b, eg_leaseId = el_id l, eg_runId = r\<rparr>"
    by (auto simp: take_lease_def ret_def throw_def modify_def elim!: catch_elim seq_elim
        split: if_splits)
  from l(1) have "w_leases w1 b = Some l" by (elim db_op_Inr) (auto dest: upsert_lease_result)
  with l show ?thesis by (auto simp: guarded_def)
qed

lemma acquire_result:
  assumes "acquireBranchExecution r ttl w = (Inr (Some g), w')"
  shows "guarded g w' \<and> eg_runId g = r"
  using assms unfolding acquireBranchExecution_def
  by (auto simp: ret_def Date_now_def reads_def dest: take_lease_result elim!: seq_elim
      split: option.splits)

section \<open>Properties\<close>

text \<open>C8: What the answer of \<open>commitBranchHead\<close> means in the store it leaves, whatever other
  processes do meanwhile: \<open>advanced\<close> says that the head is the snapshot at the expected version
  plus one, \<open>already_advanced\<close> that the head already is the snapshot, \<open>conflict\<close> that the
  head is another snapshot; and no head ever goes back to a lower version or changes without a new
  version.\<close>

theorem commitBranchHead_outcome:
  assumes "commitBranchHead b expected s w = (Inr outcome, w')"
  shows "heads_kept w w' \<and>
    (case outcome of
       Advanced n \<Rightarrow> n = Suc expected \<and> head_is w' b s n
     | AlreadyAdvanced n \<Rightarrow> head_is w' b s n
     | Conflict n \<Rightarrow> (\<exists>d. w_branches w' b = Some d \<and> br_headVersion d = n \<and>
                        br_headSnapshotId d \<noteq> Some s))"
proof
  show "heads_kept w w'"
    using respD [OF commit_order assms] by (simp add: agent_order_def)
  from assms show "case outcome of
       Advanced n \<Rightarrow> n = Suc expected \<and> head_is w' b s n
     | AlreadyAdvanced n \<Rightarrow> head_is w' b s n
     | Conflict n \<Rightarrow> (\<exists>d. w_branches w' b = Some d \<and> br_headVersion d = n \<and>
                        br_headSnapshotId d \<noteq> Some s)"
    unfolding commitBranchHead_def
  proof (cases rule: seq_elim)
    case (val a t)
    show ?thesis
    proof (cases a)
      case None
      with val(2) obtain c where c: "find_doc (\<lambda>w. w_branches w b) t = (Inr c, w')"
        "(case c of None \<Rightarrow> Inl (coded_error ''PROJECT_BRANCH_NOT_FOUND'' ''Project branch not found'')
          | Some d \<Rightarrow> if br_headSnapshotId d = Some s then Inr (AlreadyAdvanced (br_headVersion d))
                      else Inr (Conflict (br_headVersion d))) = (Inr outcome :: js_error + commit_result)"
        by (auto simp: ret_def throw_def elim!: seq_elim split: option.splits if_splits)
      have "c = w_branches w' b" using c(1) by (rule find_doc_Inr)
      with c(2) show ?thesis by (auto simp: head_is_def split: option.splits if_splits)
    next
      case (Some d)
      with val setBranchHead_result [of b expected s w d t] show ?thesis by (auto simp: ret_def)
    qed
  qed simp
qed

text \<open>The branch lease is exclusive: acquiring it, checking it and releasing it for a run never
  takes over, shortens or removes the unexpired lease of another run, under every interleaving with
  other processes; and a successful acquisition leaves the lease of the branch to this run, with
  the id of the guard.\<close>

theorem branch_lease_exclusive:
  assumes "acquireBranchExecution r ttl w = (Inr (Some g), w1)"
    and "assertHeld g w1 = (q, w2)" and "releaseExecution g w2 = (q', w3)"
  shows "lease_order r w w1 \<and> lease_order r w1 w2 \<and> lease_order r w2 w3 \<and>
    guarded g w1 \<and> eg_runId g = r"
proof -
  have g: "guarded g w1 \<and> eg_runId g = r" using assms(1) by (rule acquire_result)
  then show ?thesis
    using respD [OF acquire_lease_order assms(1)] respD [OF assertHeld_lease_order assms(2)]
      respD [OF release_lease_order assms(3)] by blast
qed

text \<open>A branch with an active run, and a second run waiting for it.\<close>

definition sample_run :: "object_id \<Rightarrow> agent_run_status \<Rightarrow> agent_run" where
  "sample_run b st = \<lparr>ar_userId = ''u'', ar_workspaceId = Some ''w'', ar_projectId = ''p'',
     ar_branchId = Some b, ar_chatId = None, ar_prompt = ''x'', ar_attachments = None, ar_status = st,
     ar_mode = CreateMode, ar_baseSnapshotId = None, ar_baseSnapshotRevision = 0,
     ar_baseHeadVersion = Some 0, ar_resultSnapshotId = None, ar_retryOfRunId = None,
     ar_validationCandidateId = None, ar_retryable = False, ar_attempt = 0,
     ar_maxRepairAttempts = 2, ar_modelId = None, ar_modelProvider = None, ar_model = ''m'',
     ar_error = None, ar_usage = None, ar_startedAt = None, ar_completedAt = None\<rparr>"

definition sample_branch :: project_branch where
  "sample_branch = \<lparr>br_workspaceId = ''w'', br_projectId = ''p'', br_name = ''main'',
     br_status = BranchActive, br_headSnapshotId = None, br_headVersion = 0,
     br_createdFromSnapshotId = None\<rparr>"

definition sample_world :: world where
  "sample_world = empty_world\<lparr>w_runs := [''r1'' \<mapsto> sample_run ''b'' Queued, ''r2'' \<mapsto> sample_run ''b'' Queued],
     w_branches := [''b'' \<mapsto> sample_branch]\<rparr>"

theorem branch_lease_exclusive_witness:
  "\<exists>g w1 w2 w3. acquireBranchExecution ''r1'' 60000 sample_world = (Inr (Some g), w1) \<and>
     lease_order ''r1'' sample_world w1 \<and>
     fst (acquireBranchExecution ''r2'' 60000 w1) = Inr None \<and>
     assertHeld g w1 = (Inr (), w2) \<and> releaseExecution g w2 = (Inr (), w3) \<and>
     w_leases w3 ''b'' = None"
proof -
  define lease where "lease = \<lparr>el_id = fresh_id sample_world, el_workspaceId = ''w'', el_projectId = ''p'',
    el_runId = ''r1'', el_baseHeadVersion = 0, el_acquiredAt = 0, el_heartbeatAt = 0,
    el_expiresAt = 60000\<rparr>"
  define w1 where "w1 = sample_world\<lparr>w_leases := [''b'' \<mapsto> lease], w_nextId := 1\<rparr>"
  define g where "g = \<lparr>eg_branchId = ''b'', eg_leaseId = el_id lease, eg_runId = ''r1''\<rparr>"
  have a: "acquireBranchExecution ''r1'' 60000 sample_world = (Inr (Some g), w1)"
    by (simp add: acquireBranchExecution_def AgentRun_findById_def find_doc_def db_op_def seq_def
        reads_def ret_def Date_now_def take_lease_def catch_def upsert_lease_def modify_def Let_def
        sample_world_def sample_run_def empty_world_def w1_def g_def lease_def fresh_id_def)
  have b: "fst (acquireBranchExecution ''r2'' 60000 w1) = Inr None"
    by (simp add: acquireBranchExecution_def AgentRun_findById_def find_doc_def db_op_def seq_def
        reads_def ret_def Date_now_def take_lease_def catch_def upsert_lease_def modify_def Let_def
        sample_world_def sample_run_def empty_world_def w1_def lease_def
        isDuplicateKey_def duplicate_key_def)
  have c: "assertHeld g w1 = (Inr (), w1)"
    by (simp add: assertHeld_def throwIfAborted_def find_doc_def db_op_def seq_def reads_def ret_def
        modify_def lease_held_def g_def w1_def lease_def sample_world_def empty_world_def)
  obtain w3 where d: "releaseExecution g w1 = (Inr (), w3)" "w_leases w3 ''b'' = None"
    by (simp add: releaseExecution_def db_op_def delete_lease_def g_def w1_def lease_def
        sample_world_def empty_world_def)
  from branch_lease_exclusive [OF a c d(1)] a b c d show ?thesis by blast
qed

theorem commitBranchHead_outcome_witness:
  "\<exists>w'. commitBranchHead ''b'' 0 ''s'' sample_world = (Inr (Advanced 1), w') \<and> head_is w' ''b'' ''s'' 1"
proof -
  obtain w' where c: "commitBranchHead ''b'' 0 ''s'' sample_world = (Inr (Advanced 1), w')"
    by (simp add: commitBranchHead_def setBranchHead_def db_op_def seq_def ret_def sample_world_def
        sample_branch_def empty_world_def Let_def)
  with commitBranchHead_outcome [OF c] show ?thesis by auto
qed

end
