(* ===== verification/Orchestrator.thy ===== *)
theory Orchestrator
  imports ContextBuilder Branches
begin

text \<open>
  \<open>agent/orchestrator.ts\<close>: the life of a run from a queued job to a settled status. The
  in-memory document of the run is the field \<open>p_run\<close> of the process state; the database,
  the schedule of other processes and the abort flags are those of the world. The artifact service
  and the validator are arguments (\<open>services\<close>), the model client too.
\<close>

section \<open>The process\<close>

record process = world +
  p_runId :: object_id
  p_run :: agent_run

record bundle_write =
  bw_workspaceId :: object_id
  bw_projectId :: object_id
  bw_createdByRunId :: object_id
  bw_kind :: artifact_kind
  bw_idempotencyKey :: string
  bw_files :: "project_file list"
  bw_packageJson :: package_json

record services =
  sv_host :: host
  sv_isValidObjectId :: "string \<Rightarrow> bool"
  sv_contextCharLimit :: int
  sv_writeBundle :: "bundle_write \<Rightarrow> (process, js_error, string) comp"
  sv_readOwnedBundle :: "process bundle_reader"
  sv_validator :: "process validator"

text \<open>\<open>artifactFiles\<close> keeps all fields; \<open>domainFiles\<close> drops run ids that are no object ids.\<close>

definition domainFiles :: "services \<Rightarrow> project_file list \<Rightarrow> project_file list" where
  "domainFiles sv files = map (\<lambda>f. f\<lparr>generatedByRunId :=
     (case generatedByRunId f of
        Some r \<Rightarrow> if sv_isValidObjectId sv r then Some r else None | None \<Rightarrow> None)\<rparr>) files"

section \<open>Snapshots and candidates\<close>

record artifact_owner =
  ao_artifactId :: string
  ao_workspaceId :: object_id
  ao_projectId :: object_id
  ao_branchId :: object_id
  ao_userId :: object_id

definition snapshot_owner :: "project_snapshot \<Rightarrow> artifact_owner" where
  "snapshot_owner d = \<lparr>ao_artifactId = sn_artifactId d, ao_workspaceId = sn_workspaceId d,
     ao_projectId = sn_projectId d, ao_branchId = sn_branchId d, ao_userId = sn_userId d\<rparr>"

definition candidate_owner :: "validation_candidate \<Rightarrow> artifact_owner" where
  "candidate_owner d = \<lparr>ao_artifactId = vc_artifactId d, ao_workspaceId = vc_workspaceId d,
     ao_projectId = vc_projectId d, ao_branchId = vc_branchId d, ao_userId = vc_userId d\<rparr>"

definition idempotency_conflict :: "string \<Rightarrow> js_error" where
  "idempotency_conflict msg = artifact_error ''ARTIFACT_IDEMPOTENCY_CONFLICT'' msg"

definition manifest_exists :: "string \<Rightarrow> object_id \<Rightarrow> object_id \<Rightarrow> artifact_kind \<Rightarrow>
    (('z) world_scheme, js_error, bool) comp" where
  "manifest_exists a ws p k = find_doc (\<lambda>w.
     case w_manifests w a of
       None \<Rightarrow> False
     | Some m \<Rightarrow> am_workspaceId m = ws \<and> am_projectId m = p \<and> am_kind m = k)"

definition assertArtifactMatch :: "('d \<Rightarrow> artifact_owner) \<Rightarrow> (object_id \<times> 'd) option \<Rightarrow>
    artifact_owner \<Rightarrow> artifact_kind \<Rightarrow> (('z) world_scheme, js_error, object_id \<times> 'd) comp" where
  "assertArtifactMatch owner_of record scope k =
     (case record of
        None \<Rightarrow> throw (idempotency_conflict ''Domain record does not reference its idempotent artifact'')
      | Some (i, d) \<Rightarrow>
          if owner_of d \<noteq> scope
          then throw (idempotency_conflict ''Domain record does not reference its idempotent artifact'')
          else seq (manifest_exists (ao_artifactId scope) (ao_workspaceId scope) (ao_projectId scope) k)
                 (\<lambda>found. if found then ret (i, d)
                    else throw (idempotency_conflict
                      ''Domain record does not reference an owned artifact manifest'')))"

text \<open>The upserts on the unique index of the source run.\<close>

definition stored_snapshot :: "object_id \<Rightarrow> ('z) world_scheme \<Rightarrow> (object_id \<times> project_snapshot) option" where
  "stored_snapshot r w = Option.bind (w_snapshotIndex w r) (\<lambda>i. map_option (Pair i) (w_snapshots w i))"

definition upsert_snapshot :: "project_snapshot \<Rightarrow>
    (('z) world_scheme, js_error, (object_id \<times> project_snapshot) option) comp" where
  "upsert_snapshot d = (\<lambda>w.
     case stored_snapshot (sn_sourceRunId d) w of
       Some r \<Rightarrow> (Inr (Some r), w)
     | None \<Rightarrow>
         let i = fresh_id w
         in if w_snapshotIndex w (sn_sourceRunId d) \<noteq> None \<or> w_snapshots w i \<noteq> None
            then (Inl duplicate_key, w)
            else (Inr (Some (i, d)), w\<lparr>w_snapshots := (w_snapshots w)(i \<mapsto> d),
                    w_snapshotIndex := (w_snapshotIndex w)(sn_sourceRunId d \<mapsto> i),
                    w_snapshotIds := w_snapshotIds w @ [i],
                    w_nextId := w_nextId w + 1\<rparr>))"

definition stored_candidate :: "object_id \<Rightarrow> ('z) world_scheme \<Rightarrow> (object_id \<times> validation_candidate) option" where
  "stored_candidate r w = Option.bind (w_candidateIndex w r) (\<lambda>i. map_option (Pair i) (w_candidates w i))"

definition upsert_candidate :: "validation_candidate \<Rightarrow>
    (('z) world_scheme, js_error, (object_id \<times> validation_candidate) option) comp" where
  "upsert_candidate d = (\<lambda>w.
     case stored_candidate (vc_sourceRunId d) w of
       Some r \<Rightarrow> (Inr (Some r), w)
     | None \<Rightarrow>
         let i = fresh_id w
         in if w_candidateIndex w (vc_sourceRunId d) \<noteq> None \<or> w_candidates w i \<noteq> None
            then (Inl duplicate_key, w)
            else (Inr (Some (i, d)), w\<lparr>w_candidates := (w_candidates w)(i \<mapsto> d),
                    w_candidateIndex := (w_candidateIndex w)(vc_sourceRunId d \<mapsto> i),
                    w_candidateIds := w_candidateIds w @ [i],
                    w_nextId := w_nextId w + 1\<rparr>))"

record project_input =
  pi_files :: "project_file list"
  pi_packageJson :: package_json
  pi_summary :: string

record snapshot_input = project_input +
  pi_parentSnapshotId :: "object_id option"
  pi_validation :: validation_result

definition missing_ownership :: js_error where
  "missing_ownership = plain_error ''AgentRun is missing artifact ownership''"

text \<open>The check that the snapshot names the preview build its validation reports.\<close>

definition check_preview :: "object_id \<Rightarrow> agent_run \<Rightarrow> object_id \<Rightarrow> string option \<Rightarrow>
    project_snapshot \<Rightarrow> (('z) world_scheme, js_error, unit) comp" where
  "check_preview runId run ws preview owned =
     (case preview of
        None \<Rightarrow> ret ()
      | Some a \<Rightarrow>
          seq (find_doc (\<lambda>w. case w_manifests w a of
                 None \<Rightarrow> False
               | Some m \<Rightarrow> am_workspaceId m = ws \<and> am_projectId m = ar_projectId run \<and>
                   am_createdByRunId m = runId \<and> am_kind m = KPreviewBuild \<and> am_state m = MReady))
            (\<lambda>found. if \<not> found \<or> sn_previewArtifactId owned \<noteq> Some a
               then throw (idempotency_conflict ''Snapshot does not reference its verified Preview Artifact'')
               else ret ()))"

text \<open>An empty preview id is falsy and counts as none.\<close>

definition truthy :: "string option \<Rightarrow> string option" where
  "truthy x = (if x = Some [] then None else x)"

definition createRunSnapshot :: "services \<Rightarrow> object_id \<Rightarrow> agent_run \<Rightarrow> snapshot_input \<Rightarrow>
    (process, js_error, object_id \<times> project_snapshot) comp" where
  "createRunSnapshot sv runId run input =
     (case (ar_workspaceId run, ar_branchId run) of
        (Some ws, Some b) \<Rightarrow>
          seq (sv_writeBundle sv \<lparr>bw_workspaceId = ws, bw_projectId = ar_projectId run,
                 bw_createdByRunId = runId, bw_kind = KProjectSnapshot,
                 bw_idempotencyKey = ''snapshot:'' @ runId, bw_files = pi_files input,
                 bw_packageJson = pi_packageJson input\<rparr>) (\<lambda>artifactId.
          seq (catch
                 (db_op (upsert_snapshot \<lparr>sn_workspaceId = ws, sn_branchId = b,
                    sn_userId = ar_userId run, sn_projectId = ar_projectId run, sn_sourceRunId = runId,
                    sn_parentSnapshotId = pi_parentSnapshotId input, sn_artifactId = artifactId,
                    sn_previewArtifactId = truthy (v_previewArtifactId (pi_validation input)),
                    sn_validation = pi_validation input, sn_summary = pi_summary input\<rparr>))
                 (\<lambda>e. if isDuplicateKey e then find_doc (stored_snapshot runId) else throw e)) (\<lambda>snapshot.
          seq (assertArtifactMatch snapshot_owner snapshot
                 \<lparr>ao_artifactId = artifactId, ao_workspaceId = ws, ao_projectId = ar_projectId run,
                  ao_branchId = b, ao_userId = ar_userId run\<rparr> KProjectSnapshot) (\<lambda>owned.
          seq (check_preview runId run ws (truthy (v_previewArtifactId (pi_validation input))) (snd owned)) (\<lambda>_.
          ret owned))))
      | _ \<Rightarrow> throw missing_ownership)"

definition candidate_ttl :: int where
  "candidate_ttl = 24 * 60 * 60 * 1000"

definition createRunCandidate :: "services \<Rightarrow> object_id \<Rightarrow> agent_run \<Rightarrow> project_input \<Rightarrow>
    (process, js_error, object_id \<times> validation_candidate) comp" where
  "createRunCandidate sv runId run input =
     (case (ar_workspaceId run, ar_branchId run) of
        (Some ws, Some b) \<Rightarrow>
          seq (sv_writeBundle sv \<lparr>bw_workspaceId = ws, bw_projectId = ar_projectId run,
                 bw_createdByRunId = runId, bw_kind = KValidationCandidate,
                 bw_idempotencyKey = ''candidate:'' @ runId, bw_files = pi_files input,
                 bw_packageJson = pi_packageJson input\<rparr>) (\<lambda>artifactId.
          seq Date_now (\<lambda>now.
          seq (catch
                 (db_op (upsert_candidate \<lparr>vc_workspaceId = ws, vc_branchId = b,
                    vc_userId = ar_userId run, vc_projectId = ar_projectId run, vc_sourceRunId = runId,
                    vc_artifactId = artifactId, vc_summary = pi_summary input,
                    vc_expiresAt = now + candidate_ttl\<rparr>))
                 (\<lambda>e. if isDuplicateKey e then find_doc (stored_candidate runId) else throw e)) (\<lambda>candidate.
          assertArtifactMatch candidate_owner candidate
            \<lparr>ao_artifactId = artifactId, ao_workspaceId = ws, ao_projectId = ar_projectId run,
             ao_branchId = b, ao_userId = ar_userId run\<rparr> KValidationCandidate)))
      | _ \<Rightarrow> throw missing_ownership)"

section \<open>transitionRun and completeRunWithSnapshot\<close>

text \<open>\<open>upd\<close> (the \<open>fields\<close> of the source) sets the other fields of the update; none of them is the status.\<close>

definition transitionRun :: "agent_run_status \<Rightarrow> agent_run_status \<Rightarrow> (agent_run \<Rightarrow> agent_run) \<Rightarrow>
    (process, js_error, unit) comp" where
  "transitionRun expected next upd =
     seq (lift_result (assertAgentRunTransition expected next)) (\<lambda>_.
     seq (reads p_runId) (\<lambda>r.
     seq (AgentRun_updateOne r (\<lambda>d. ar_status d = expected) (\<lambda>d. (upd d)\<lparr>ar_status := next\<rparr>)) (\<lambda>modified.
     if \<not> modified
     then seq (AgentRun_findById r) (\<lambda>current.
          if map_option ar_status current = Some Cancelled then throw runCancelledError
          else throw (plain_error (''AgentRun status changed before transition: '' @
                 status_text expected @ '' -> '' @ status_text next)))
     else modify (\<lambda>w. w\<lparr>p_run := (upd (p_run w))\<lparr>ar_status := next\<rparr>\<rparr>))))"

definition set_active_snapshot :: "object_id \<Rightarrow> object_id \<Rightarrow> object_id \<Rightarrow> nat \<Rightarrow>
    (('z) world_scheme, js_error, unit) comp" where
  "set_active_snapshot p u s v = (\<lambda>w. (Inr (),
     case w_projects w p of
       Some d \<Rightarrow> if pr_userId d = u
         then w\<lparr>w_projects := (w_projects w)(p \<mapsto>
                d\<lparr>pr_activeSnapshotId := Some s, pr_activeSnapshotRevision := v\<rparr>)\<rparr>
         else w
     | None \<Rightarrow> w))"

definition completeRunWithSnapshot :: "object_id \<Rightarrow> (agent_run \<Rightarrow> agent_run) \<Rightarrow>
    (process, js_error, agent_run_status) comp" where
  "completeRunWithSnapshot snapshotId upd =
     seq (reads p_run) (\<lambda>run.
     case (ar_branchId run, ar_baseHeadVersion run) of
       (Some b, Some base) \<Rightarrow>
         seq (commitBranchHead b base snapshotId) (\<lambda>committed.
         let status = (case committed of Conflict _ \<Rightarrow> CompletedWithConflict | _ \<Rightarrow> Completed)
         in seq Date_now (\<lambda>now.
            seq (transitionRun Persisting status
                   (\<lambda>d. upd (d\<lparr>ar_resultSnapshotId := Some snapshotId, ar_completedAt := Some now\<rparr>))) (\<lambda>_.
            seq (case committed of
                   Advanced v \<Rightarrow>
                     seq (find_doc (\<lambda>w. map_option br_name (w_branches w b))) (\<lambda>name.
                     if name = Some MAIN_BRANCH_NAME
                     then db_op (set_active_snapshot (ar_projectId run) (ar_userId run) snapshotId v)
                     else ret ())
                 | _ \<Rightarrow> ret ()) (\<lambda>_.
            ret status))))
     | _ \<Rightarrow> throw (coded_error ''INVALID_BRANCH_BASELINE'' ''AgentRun is missing Branch baseline''))"

section \<open>processAgentRun\<close>

definition emit :: "agent_event_type \<Rightarrow> string \<Rightarrow> payload option \<Rightarrow> (process, js_error, unit) comp" where
  "emit t msg pl =
     seq (reads p_runId) (\<lambda>r. seq (reads p_run) (\<lambda>run.
     seq (emitAgentEvent r (ar_userId run) (ar_projectId run) t msg pl) (\<lambda>_. ret ())))"

definition emit_completed :: "object_id \<Rightarrow> nat \<Rightarrow> agent_run_status \<Rightarrow> (process, js_error, unit) comp" where
  "emit_completed snapshotId fileCount status =
     seq (reads p_run) (\<lambda>run.
     emit RunCompleted ''Agent run completed with a project snapshot''
       (Some (CompletedPayload snapshotId fileCount (ar_branchId run)
          (status = Completed) (status = CompletedWithConflict))))"

definition find_fileCount :: "agent_run \<Rightarrow> string \<Rightarrow> (('z) world_scheme, js_error, nat) comp" where
  "find_fileCount run artifactId = find_doc (\<lambda>w.
     case w_manifests w artifactId of
       Some m \<Rightarrow> if Some (am_workspaceId m) = ar_workspaceId run \<and> am_projectId m = ar_projectId run \<and>
                     am_kind m = KProjectSnapshot then am_fileCount m else 0
     | None \<Rightarrow> 0)"

text \<open>A worker died after the run reached \<open>persisting\<close>.\<close>

definition resume_persisting :: "(process, js_error, unit) comp" where
  "resume_persisting =
     seq (reads p_runId) (\<lambda>r. seq (reads p_run) (\<lambda>run.
     seq (find_doc (\<lambda>w. case stored_snapshot r w of
            Some (i, d) \<Rightarrow> if sn_userId d = ar_userId run \<and> sn_projectId d = ar_projectId run
                            then Some (i, d) else None
          | None \<Rightarrow> None)) (\<lambda>pending.
     case pending of
       None \<Rightarrow>
         seq Date_now (\<lambda>now.
         seq (AgentRun_updateOne r (\<lambda>d. ar_status d = Persisting)
                (\<lambda>d. d\<lparr>ar_status := Failed, ar_error := Some \<lparr>pe_code = ''WORKSPACE_ERROR'',
                   pe_message = ''Agent worker stopped before snapshot persistence completed'',
                   pe_details = None\<rparr>, ar_completedAt := Some now\<rparr>)) (\<lambda>_.
         ret ()))
     | Some (i, d) \<Rightarrow>
         seq (completeRunWithSnapshot i (\<lambda>d. d)) (\<lambda>status.
         seq (find_fileCount run (sn_artifactId d)) (\<lambda>n. emit_completed i n status)))))"

text \<open>A completed run whose completion event was never written gets it.\<close>

definition ensure_completed_event :: "(process, js_error, unit) comp" where
  "ensure_completed_event =
     seq (reads p_runId) (\<lambda>r. seq (reads p_run) (\<lambda>run.
     seq (find_doc (\<lambda>w. list_ex (\<lambda>e. ev_runId e = r \<and> ev_type e = RunCompleted) (w_events w))) (\<lambda>found.
     case (found, ar_resultSnapshotId run) of
       (False, Some s) \<Rightarrow>
         seq (find_doc (\<lambda>w. map_option sn_artifactId (w_snapshots w s))) (\<lambda>artifactId.
         seq (case artifactId of Some a \<Rightarrow> find_fileCount run a | None \<Rightarrow> ret 0) (\<lambda>n.
         emit_completed s n (ar_status run)))
     | _ \<Rightarrow> ret ())))"

text \<open>The \<open>onEvent\<close> callback: the phase of an event drives the status, then the event is written.\<close>

definition payload_phase :: "payload option \<Rightarrow> string option" where
  "payload_phase pl = (case pl of Some (PhasePayload ph _) \<Rightarrow> Some ph | _ \<Rightarrow> None)"

definition payload_attempt :: "payload option \<Rightarrow> nat" where
  "payload_attempt pl = (case pl of Some (PhasePayload _ (Some n)) \<Rightarrow> n | _ \<Rightarrow> 0)"

definition run_onEvent :: "worker_event \<Rightarrow> (process, js_error, unit) comp" where
  "run_onEvent e =
     (let phase = payload_phase (we_payload e)
      in seq (if phase = Some ''planning'' then transitionRun Running Planning (\<lambda>d. d)
              else if phase = Some ''generating''
              then seq (reads p_run) (\<lambda>run.
                   transitionRun (if ar_status run = Planning then Planning else Repairing) Generating (\<lambda>d. d))
              else if phase = Some ''validating'' then transitionRun Generating Validating (\<lambda>d. d)
              else if phase = Some ''repairing''
              then transitionRun Validating Repairing (\<lambda>d. d\<lparr>ar_attempt := payload_attempt (we_payload e)\<rparr>)
              else ret ()) (\<lambda>_.
         emit (we_type e) (we_message e) (we_payload e)))"

definition execution_assert :: "execution_guard option \<Rightarrow> (('z) world_scheme, js_error, unit) comp" where
  "execution_assert execution = (case execution of Some g \<Rightarrow> assertHeld g | None \<Rightarrow> ret ())"

definition scope_of :: "object_id \<Rightarrow> agent_run \<Rightarrow> sandbox_scope" where
  "scope_of r run = \<lparr>sc_workspaceId = the (ar_workspaceId run), sc_projectId = ar_projectId run,
     sc_branchId = the (ar_branchId run), sc_requestedByUserId = ar_userId run, sc_runId = r,
     sc_attempt = 0\<rparr>"

text \<open>
  From the base of the run to a validated project. The schema of runs requires the workspace and
  branch ids that the source asserts to be present here.
\<close>

definition read_base :: "services \<Rightarrow> agent_run \<Rightarrow>
    (process, js_error, object_id option \<times> (project_file list \<times> package_json) option) comp" where
  "read_base sv run =
     seq (find_base_snapshot run) (\<lambda>base.
     case base of
       None \<Rightarrow> ret (None, None)
     | Some (i, d) \<Rightarrow>
         (case ar_workspaceId run of
            None \<Rightarrow> throw missing_ownership
          | Some ws \<Rightarrow>
              seq (sv_readOwnedBundle sv (sn_artifactId d) ws (ar_projectId run) KProjectSnapshot)
                (\<lambda>b. ret (Some i, Some b))))"

definition generate_project :: "services \<Rightarrow> model_client \<Rightarrow>
    (process, js_error, object_id option \<times> validated_output) comp" where
  "generate_project sv client =
     seq (reads p_runId) (\<lambda>r. seq (reads p_run) (\<lambda>run.
     seq (loadAgentContext (h_collate (sv_host sv)) (sv_readOwnedBundle sv) run (sv_contextCharLimit sv)) (\<lambda>context.
     seq (read_base sv run) (\<lambda>(baseId, baseBundle).
     seq (runAgentGenerationWithValidation (sv_host sv)
            \<lparr>gi_context = context,
             gi_baseFiles = resolveProjectBaseFiles (map_option (\<lambda>b. domainFiles sv (fst b)) baseBundle),
             gi_basePackageJson = map_option snd baseBundle, gi_generatedByRunId = Some r,
             gi_modelClient = client, gi_onEvent = run_onEvent, gi_validator = sv_validator sv,
             gi_runId = r, gi_sandboxScope = Some (scope_of r run),
             gi_maxRepairAttempts = ar_maxRepairAttempts run\<rparr>) (\<lambda>generation.
     ret (baseId, generation))))))"

definition push_chat_message :: "object_id \<Rightarrow> agent_run \<Rightarrow> string \<Rightarrow> (('z) world_scheme, js_error, unit) comp" where
  "push_chat_message c run text_of = (\<lambda>w. (Inr (),
     case w_chats w c of
       Some d \<Rightarrow> if ct_userId d = ar_userId run \<and> ct_projectId d = Some (ar_projectId run)
         then w\<lparr>w_chats := (w_chats w)(c \<mapsto> d\<lparr>ct_messages := ct_messages d @
                [\<lparr>ch_id = fresh_id w, ch_role = RoleAssistant, ch_content = text_of, ch_codeBlocks = [],
                  ch_createdAt = w_now w\<rparr>]\<rparr>),
                w_nextId := w_nextId w + 1\<rparr>
         else w
     | None \<Rightarrow> w))"

text \<open>The chat message is best effort: its failure is only logged.\<close>

definition append_chat :: "object_id \<Rightarrow> validated_output \<Rightarrow> (process, js_error, unit) comp" where
  "append_chat snapshotId generation =
     seq (reads p_run) (\<lambda>run.
     case ar_chatId run of
       None \<Rightarrow> ret ()
     | Some c \<Rightarrow> catch (db_op (push_chat_message c run
           (go_summary generation @ [newline, newline] @ ''Snapshot: '' @ snapshotId))) (\<lambda>_. ret ()))"

definition completion_event_failed :: js_error where
  "completion_event_failed =
     coded_error ''COMPLETION_EVENT_FAILED'' ''Failed to persist run completion event''"

definition run_to_completion :: "services \<Rightarrow> model_client \<Rightarrow> execution_guard option \<Rightarrow>
    (process, js_error, unit) comp" where
  "run_to_completion sv client execution =
     seq Date_now (\<lambda>now.
     seq (transitionRun Queued Running (\<lambda>d. d\<lparr>ar_startedAt := Some now\<rparr>)) (\<lambda>_.
     seq (emit RunStarted ''Agent run started'' None) (\<lambda>_.
     seq (generate_project sv client) (\<lambda>(baseId, generation).
     seq (execution_assert execution) (\<lambda>_.
     seq (transitionRun Validating Persisting (\<lambda>d. d)) (\<lambda>_.
     seq (reads p_runId) (\<lambda>r. seq (reads p_run) (\<lambda>run.
     seq (createRunSnapshot sv r run
            \<lparr>pi_files = go_files generation, pi_packageJson = go_packageJson generation,
             pi_summary = go_summary generation, pi_parentSnapshotId = baseId,
             pi_validation = go_validation generation\<rparr>) (\<lambda>snapshot.
     seq (completeRunWithSnapshot (fst snapshot) (\<lambda>d. d\<lparr>ar_usage := go_usage generation\<rparr>)) (\<lambda>status.
     seq (append_chat (fst snapshot) generation) (\<lambda>_.
     catch (emit_completed (fst snapshot) (length (go_files generation)) status)
       (\<lambda>_. throw completion_event_failed))))))))))))"

definition failed_update :: "public_error \<Rightarrow> object_id option \<Rightarrow> time \<Rightarrow> agent_run \<Rightarrow> agent_run" where
  "failed_update e candidate now d = d\<lparr>ar_status := Failed, ar_error := Some e,
     ar_validationCandidateId := (case candidate of Some c \<Rightarrow> Some c | None \<Rightarrow> ar_validationCandidateId d),
     ar_retryable := (candidate \<noteq> None), ar_completedAt := Some now\<rparr>"

definition delete_candidate :: "object_id \<Rightarrow> (('z) world_scheme, js_error, unit) comp" where
  "delete_candidate i = (\<lambda>w. (Inr (),
     case w_candidates w i of
       Some d \<Rightarrow> w\<lparr>w_candidates := (w_candidates w)(i := None),
                    w_candidateIndex := (w_candidateIndex w)(vc_sourceRunId d := None)\<rparr>
     | None \<Rightarrow> w))"

text \<open>
  The candidate an infrastructure failure leaves for a validation retry: the effective error, its
  public form and the id of the candidate if it could be stored.
\<close>

definition store_candidate :: "services \<Rightarrow> js_error \<Rightarrow>
    (process, js_error, public_error \<times> object_id option) comp" where
  "store_candidate sv e =
     (let public = publicAgentError e
      in case err_candidate e of
           Some (files, pkg, summary) \<Rightarrow>
             if pe_code public = ''VALIDATION_INFRA_ERROR''
             then seq (reads p_runId) (\<lambda>r. seq (reads p_run) (\<lambda>run.
                  catch
                    (seq (createRunCandidate sv r run
                            \<lparr>pi_files = files, pi_packageJson = pkg, pi_summary = summary\<rparr>) (\<lambda>c.
                     ret (public, Some (fst c))))
                    (\<lambda>e'. ret (publicAgentError e', None))))
             else ret (public, None)
         | None \<Rightarrow> ret (public, None))"

definition fail_run :: "services \<Rightarrow> js_error \<Rightarrow> (process, js_error, unit) comp" where
  "fail_run sv e =
     (if err_code e = Some ''RUN_CANCELLED'' then ret ()
      else if err_code e = Some ''COMPLETION_EVENT_FAILED'' then throw e
      else seq (reads p_runId) (\<lambda>r.
           seq (store_candidate sv e) (\<lambda>(public, candidate).
           seq Date_now (\<lambda>now.
           seq (AgentRun_updateOne r
                  (\<lambda>d. ar_status d \<noteq> Completed \<and> ar_status d \<noteq> Failed \<and> ar_status d \<noteq> Cancelled)
                  (failed_update public candidate now)) (\<lambda>modified.
           if \<not> modified
           then (case candidate of Some c \<Rightarrow> db_op (delete_candidate c) | None \<Rightarrow> ret ())
           else emit RunFailed (pe_message public) (Some (CodePayload (pe_code public))))))))"

definition processAgentRun :: "services \<Rightarrow> model_client \<Rightarrow> execution_guard option \<Rightarrow> agent_run_job \<Rightarrow>
    (process, js_error, unit) comp" where
  "processAgentRun sv client execution job =
     seq (AgentRun_findById (job_runId job)) (\<lambda>found.
     case found of
       None \<Rightarrow> throw (plain_error (''AgentRun not found: '' @ job_runId job))
     | Some run \<Rightarrow>
         seq (modify (\<lambda>w. w\<lparr>p_runId := job_runId job, p_run := run\<rparr>)) (\<lambda>_.
         if ar_status run = Persisting then resume_persisting
         else if ar_status run = Completed \<or> ar_status run = CompletedWithConflict
         then ensure_completed_event
         else catch (run_to_completion sv client execution) (fail_run sv)))"

section \<open>processValidationCandidate\<close>

definition candidate_error :: "string \<Rightarrow> string \<Rightarrow> js_error" where
  "candidate_error code msg = coded_error code msg"

definition find_candidate :: "agent_run \<Rightarrow>
    (('z) world_scheme, js_error, (object_id \<times> validation_candidate) option) comp" where
  "find_candidate run = find_doc (\<lambda>w.
     case ar_validationCandidateId run of
       None \<Rightarrow> None
     | Some c \<Rightarrow>
         (case w_candidates w c of
            None \<Rightarrow> None
          | Some d \<Rightarrow>
              if vc_userId d = ar_userId run \<and> Some (vc_workspaceId d) = ar_workspaceId run \<and>
                 vc_projectId d = ar_projectId run \<and> Some (vc_branchId d) = ar_branchId run \<and>
                 Some (vc_sourceRunId d) = ar_retryOfRunId run
              then Some (c, d) else None))"

definition retry_validation_error :: "validation_result \<Rightarrow> js_error" where
  "retry_validation_error v =
     (if v_category v = Some INFRA_ERROR then infra_error v
      else validation_error ''VALIDATION_FAILED'' ''Stored candidate failed validation'' v)"

definition validate_candidate :: "services \<Rightarrow> project_file list \<Rightarrow>
    (process, js_error, validation_result) comp" where
  "validate_candidate sv files =
     seq (reads p_runId) (\<lambda>r. seq (reads p_run) (\<lambda>run.
     seq (sv_validator sv
            \<lparr>vi_runId = r @ ''-retry'', vi_files = files, vi_sandboxScope = Some (scope_of r run)\<rparr>
            (\<lambda>progress. emit ValidationStep (vp_message progress) (Some (ProgressPayload progress)))) (\<lambda>v.
     if v_status v = VPassed \<and> v_verification v = Some Simulated then throw (not_verified_error v)
     else if v_status v \<noteq> VPassed then throw (retry_validation_error v)
     else ret v)))"

definition retry_to_completion :: "services \<Rightarrow> execution_guard option \<Rightarrow> (process, js_error, unit) comp" where
  "retry_to_completion sv execution =
     seq (reads p_run) (\<lambda>run.
     seq (find_candidate run) (\<lambda>found.
     case found of
       None \<Rightarrow> throw (candidate_error ''VALIDATION_CANDIDATE_NOT_FOUND'' ''Validation candidate is unavailable'')
     | Some (c, d) \<Rightarrow>
         seq Date_now (\<lambda>now.
         if vc_expiresAt d \<le> now
         then throw (candidate_error ''VALIDATION_CANDIDATE_EXPIRED'' ''Validation candidate has expired'')
         else
         seq (sv_readOwnedBundle sv (vc_artifactId d) (the (ar_workspaceId run)) (ar_projectId run)
                KValidationCandidate) (\<lambda>bundle.
         let files = domainFiles sv (fst bundle)
         in seq Date_now (\<lambda>started.
            seq (transitionRun Queued Running (\<lambda>d. d\<lparr>ar_startedAt := Some started\<rparr>)) (\<lambda>_.
            seq (emit RunStarted ''Validation retry started'' None) (\<lambda>_.
            seq (transitionRun Running Validating (\<lambda>d. d)) (\<lambda>_.
            seq (validate_candidate sv files) (\<lambda>v.
            seq (emit ValidationPassed ''Project validation passed'' (Some (ValidationPayload v))) (\<lambda>_.
            seq (execution_assert execution) (\<lambda>_.
            seq (transitionRun Validating Persisting (\<lambda>d. d)) (\<lambda>_.
            seq (reads p_runId) (\<lambda>r. seq (reads p_run) (\<lambda>run'.
            seq (createRunSnapshot sv r run'
                   \<lparr>pi_files = files, pi_packageJson = snd bundle, pi_summary = vc_summary d,
                    pi_parentSnapshotId = ar_baseSnapshotId run', pi_validation = v\<rparr>) (\<lambda>snapshot.
            seq (completeRunWithSnapshot (fst snapshot) (\<lambda>d. d\<lparr>ar_retryable := False\<rparr>)) (\<lambda>status.
            seq (db_op (delete_candidate c)) (\<lambda>_.
            emit_completed (fst snapshot) (length (fst bundle)) status)))))))))))))))))"

definition retryable_error :: "js_error \<Rightarrow> bool" where
  "retryable_error e =
     (let code = pe_code (publicAgentError e)
      in code = ''VALIDATION_INFRA_ERROR'' \<or> code = ''ARTIFACT_STORE_UNAVAILABLE'' \<or>
         (code = ''ARTIFACT_WRITE_FAILED'' \<and> err_artifact e \<and> err_retryable e))"

definition fail_retry :: "js_error \<Rightarrow> (process, js_error, unit) comp" where
  "fail_retry e =
     (if err_code e = Some ''RUN_CANCELLED'' then ret ()
      else let public = publicAgentError e
           in seq (reads p_runId) (\<lambda>r. seq Date_now (\<lambda>now.
              seq (AgentRun_updateOne r (\<lambda>d. \<not> isTerminalAgentRunStatus (ar_status d))
                     (\<lambda>d. d\<lparr>ar_status := Failed, ar_error := Some public,
                        ar_retryable := retryable_error e, ar_completedAt := Some now\<rparr>)) (\<lambda>_.
              emit RunFailed (pe_message public) (Some (CodePayload (pe_code public)))))))"

definition processValidationCandidate :: "services \<Rightarrow> execution_guard option \<Rightarrow> agent_run_job \<Rightarrow>
    (process, js_error, unit) comp" where
  "processValidationCandidate sv execution job =
     (case job_candidateId job of
        None \<Rightarrow> throw (plain_error ''Retry-validation job requires a candidate id'')
      | Some candidate \<Rightarrow>
          seq (AgentRun_findById (job_runId job)) (\<lambda>found.
          case found of
            None \<Rightarrow> ret ()
          | Some run \<Rightarrow>
              if ar_status run \<noteq> Queued then ret ()
              else if ar_validationCandidateId run \<noteq> Some candidate \<or> ar_retryOfRunId run = None
              then throw (plain_error ''Validation candidate not found'')
              else seq (modify (\<lambda>w. w\<lparr>p_runId := job_runId job, p_run := run\<rparr>)) (\<lambda>_.
                   catch (retry_to_completion sv execution) fail_retry)))"

section \<open>Everything the runtime does respects the agent order\<close>

definition services_respect :: "(process \<Rightarrow> process \<Rightarrow> bool) \<Rightarrow> services \<Rightarrow> bool" where
  "services_respect R sv \<longleftrightarrow>
     (\<forall>x. resp R (sv_writeBundle sv x)) \<and>
     (\<forall>a ws p k. resp R (sv_readOwnedBundle sv a ws p k)) \<and>
     (\<forall>vi progress. (\<forall>x. resp R (progress x)) \<longrightarrow> resp R (sv_validator sv vi progress))"

text \<open>
  The contract under which whole jobs are checked against a relation on the store: besides the
  steps of other processes it respects the updates of the local document, guarded status updates,
  events, and the other atomic operations of the orchestrator.
\<close>

definition verified_result :: "validation_result \<Rightarrow> bool" where
  "verified_result v \<longleftrightarrow> v_status v = VPassed \<and> v_verification v \<noteq> Some Simulated"

locale job_order = store_order R
  for R :: "process \<Rightarrow> process \<Rightarrow> bool" +
  assumes R_local: "R w (w\<lparr>p_run := d\<rparr>)" "R w (w\<lparr>p_runId := r, p_run := d\<rparr>)"
    and R_transition: "canTransitionAgentRun expected next \<Longrightarrow>
      resp R (AgentRun_updateOne r (\<lambda>d. ar_status d = expected) (\<lambda>d. (upd d)\<lparr>ar_status := next\<rparr>))"
    and R_fail: "(\<And>d. p d \<Longrightarrow> ar_status d \<noteq> Completed \<and> ar_status d \<noteq> Failed \<and> ar_status d \<noteq> Cancelled) \<Longrightarrow>
      (\<And>d. ar_status (upd d) = Failed) \<Longrightarrow> resp R (AgentRun_updateOne r p upd)"
    and R_emit: "resp R (emitAgentEvent r u pr t m pl)"
    and R_commit: "resp R (commitBranchHead b v s)"
    and R_active: "resp R (set_active_snapshot pr u s v)"
    and R_snapshot: "verified_result (sn_validation sd) \<Longrightarrow> resp R (upsert_snapshot sd)"
    and R_candidate: "resp R (upsert_candidate cd)"
    and R_delete: "resp R (delete_candidate c)"
    and R_chat: "resp R (push_chat_message ch run msg)"
    and R_execution: "resp R (execution_assert execution)"
begin

lemma transition: "resp R (transitionRun expected next upd)"
proof -
  have "returns (\<lambda>_. canTransitionAgentRun expected next)
      (lift_result (assertAgentRunTransition expected next) :: (process, js_error, unit) comp)"
    by (rule returns_lift) (auto simp: assertAgentRunTransition_def split: if_splits)
  then show ?thesis
    unfolding transitionRun_def
    by (rule resp_seq_with [OF resp_lift])
       (intro resp_seq resp_reads R_transition resp_if resp_find_run resp_throw resp_modify R_local)
qed

lemma emits: "resp R (emit t m pl)"
  unfolding emit_def by (intro resp_seq resp_reads R_emit resp_ret)

lemma emits_completed: "resp R (emit_completed s n st)"
  unfolding emit_completed_def by (intro resp_seq resp_reads emits)

lemma file_count: "resp R (find_fileCount run a)"
  unfolding find_fileCount_def by (rule resp_find_doc)

lemma resp_commit: "(\<And>n. resp R (f n)) \<Longrightarrow> (\<And>n. resp R (g n)) \<Longrightarrow> (\<And>n. resp R (h n)) \<Longrightarrow>
    resp R (case c of Advanced n \<Rightarrow> f n | AlreadyAdvanced n \<Rightarrow> g n | Conflict n \<Rightarrow> h n)"
  by (cases c) auto

lemmas steps = resp_seq resp_reads resp_ret resp_throw resp_if resp_option resp_prod resp_let
  resp_lift resp_catch resp_find_doc resp_find_run resp_Date_now resp_db_op transition emits
  emits_completed file_count

lemma complete: "resp R (completeRunWithSnapshot s upd)"
  unfolding completeRunWithSnapshot_def by (intro steps R_commit resp_commit R_active)

lemma resume: "resp R resume_persisting"
  unfolding resume_persisting_def by (intro steps complete R_fail) auto

lemma resp_bool: "resp R m \<Longrightarrow> resp R n \<Longrightarrow> resp R (case b of True \<Rightarrow> m | False \<Rightarrow> n)"
  by (cases b) auto

lemma ensure_completed: "resp R ensure_completed_event"
  unfolding ensure_completed_event_def by (intro steps resp_bool)

lemma events: "resp R (run_onEvent e)"
  unfolding run_onEvent_def by (intro steps)

lemma chat: "resp R (append_chat s g)"
  unfolding append_chat_def by (intro steps R_chat)

lemma artifact_match: "resp R (assertArtifactMatch f x scope k)"
  unfolding assertArtifactMatch_def manifest_exists_def by (intro steps)

lemma snapshot:
  assumes "services_respect R sv" "verified_result (pi_validation input)"
  shows "resp R (createRunSnapshot sv r run input)"
proof -
  have "resp R (sv_writeBundle sv x)" for x using assms by (simp add: services_respect_def)
  then show ?thesis
    unfolding createRunSnapshot_def check_preview_def
    by (intro steps artifact_match R_snapshot) (simp_all add: assms(2))
qed

lemma candidate:
  assumes "services_respect R sv"
  shows "resp R (createRunCandidate sv r run input)"
proof -
  have "resp R (sv_writeBundle sv x)" for x using assms by (simp add: services_respect_def)
  then show ?thesis
    unfolding createRunCandidate_def by (intro steps artifact_match R_candidate)
qed

lemma read_bundle: "services_respect R sv \<Longrightarrow> resp R (sv_readOwnedBundle sv a ws p k)"
  by (simp add: services_respect_def)

lemma generate: "services_respect R sv \<Longrightarrow> resp R (generate_project sv client)"
  unfolding generate_project_def loadAgentContext_def find_project_def find_chat_def
    find_base_snapshot_def require_def read_base_def
  by (intro steps read_bundle pipeline)
     (auto simp: callbacks_respect_def services_respect_def intro: events)

lemma generated: "returns (\<lambda>(i, g). verified_result (go_validation g)) (generate_project sv client)"
  unfolding generate_project_def
  by (rule returns_seq, rule returns_seq, rule returns_seq, rule returns_seq, rule returns_prod,
      rule returns_seq_with [OF generation_verified])
     (auto simp: verified_output_def verified_result_def intro: returns_ret)

lemma to_completion:
  assumes "services_respect R sv"
  shows "resp R (run_to_completion sv client execution)"
  unfolding run_to_completion_def
  by (rule resp_seq, rule resp_Date_now, rule resp_seq, rule transition, rule resp_seq, rule emits,
      rule resp_seq_with [OF generate [OF assms] generated])
     (auto intro!: steps snapshot complete chat R_execution assms)

lemma failing: "services_respect R sv \<Longrightarrow> resp R (fail_run sv e)"
  unfolding fail_run_def store_candidate_def
  by (intro steps candidate R_fail R_delete) (auto simp: failed_update_def)

lemma process_run: "services_respect R sv \<Longrightarrow> resp R (processAgentRun sv client execution job)"
  unfolding processAgentRun_def
  by (intro steps resp_modify R_local resume ensure_completed to_completion failing)

lemma validate: "services_respect R sv \<Longrightarrow> (\<And>x. resp R (progress x)) \<Longrightarrow>
    resp R (sv_validator sv vi progress)"
  by (simp add: services_respect_def)

lemma candidate_verified: "returns verified_result (validate_candidate sv files)"
  unfolding validate_candidate_def
  by (intro returns_intros) (auto simp: verified_result_def)

lemma after_validation:
  assumes "services_respect R sv" "\<And>v. verified_result v \<Longrightarrow> resp R (k v)"
  shows "resp R (seq (validate_candidate sv files) k)"
proof -
  have "resp R (validate_candidate sv files)"
    unfolding validate_candidate_def by (intro steps validate assms(1))
  then show ?thesis using candidate_verified assms(2) by (rule resp_seq_with)
qed

lemma retry_to_completion:
  assumes "services_respect R sv"
  shows "resp R (retry_to_completion sv execution)"
proof -
  have find: "resp R (find_candidate run)" for run unfolding find_candidate_def by (intro steps)
  show ?thesis
    unfolding retry_to_completion_def
    by (rule resp_seq, rule resp_reads, rule resp_seq, rule find)
       (intro resp_option resp_prod resp_throw resp_if resp_let resp_seq [OF resp_Date_now]
          resp_seq [OF read_bundle [OF assms]] resp_seq [OF transition] resp_seq [OF emits]
          resp_seq [OF R_execution] resp_seq [OF resp_reads] after_validation [OF assms]
          resp_seq [OF snapshot [OF assms]] resp_seq [OF complete]
          resp_seq [OF resp_db_op [OF R_delete]] emits_completed; simp)
qed

lemma failing_retry: "resp R (fail_retry e)"
  unfolding fail_retry_def
  by (intro steps R_fail) (auto simp: terminal_iff)

lemma process_retry:
  "services_respect R sv \<Longrightarrow> resp R (processValidationCandidate sv execution job)"
  unfolding processValidationCandidate_def
  by (intro steps resp_modify R_local retry_to_completion failing_retry)

end

section \<open>The relations of the development are respected\<close>

text \<open>Atomic operations of the orchestrator that touch neither runs, branches, snapshots, events nor leases.\<close>

definition untouched :: "process \<Rightarrow> process \<Rightarrow> bool" where
  "untouched w w' \<longleftrightarrow> w_runs w' = w_runs w \<and> w_branches w' = w_branches w \<and>
     w_snapshots w' = w_snapshots w \<and> w_snapshotIndex w' = w_snapshotIndex w \<and>
     w_events w' = w_events w \<and> w_leases w' = w_leases w \<and> w_now w' = w_now w"

lemma untouched_ops:
  "resp untouched (set_active_snapshot pr u s v)" "resp untouched (upsert_candidate cd)"
  "resp untouched (delete_candidate c)" "resp untouched (push_chat_message ch run msg)"
  by (auto simp: resp_def untouched_def set_active_snapshot_def upsert_candidate_def
      delete_candidate_def push_chat_message_def Let_def split: option.splits)

lemma untouched_orders: "untouched w w' \<Longrightarrow> agent_order w w'" "untouched w w' \<Longrightarrow> log_order w w'"
  "untouched w w' \<Longrightarrow> lease_order r w w'"
  by (simp_all add: untouched_def)

lemma resp_weaken: "resp P m \<Longrightarrow> (\<And>s t. P s t \<Longrightarrow> Q s t) \<Longrightarrow> resp Q m"
  by (auto simp: resp_def)

lemma map_le_extend: "m i = None \<Longrightarrow> m \<subseteq>\<^sub>m m(i \<mapsto> x)"
  by (auto simp: map_le_def)

lemma upsert_snapshot_agent: "resp agent_order (upsert_snapshot sd)"
  unfolding resp_def
proof
  fix w
  show "agent_order w (snd (upsert_snapshot sd w))"
    by (auto simp: upsert_snapshot_def Let_def agent_order_def runs_kept_def heads_kept_def
        intro: map_le_extend split: option.splits)
qed

lemma untouched_snapshot:
  "resp log_order (upsert_snapshot sd)" "resp (lease_order r) (upsert_snapshot sd)"
  by (auto simp: resp_def upsert_snapshot_def Let_def split: option.splits)

lemma set_run_events: "resp log_order (set_run r p f)" "resp (lease_order v) (set_run r p f)"
  by (auto simp: resp_def set_run_def split: option.split)

lemma execution_order: "resp agent_order (execution_assert execution)"
  "resp log_order (execution_assert execution)" "resp (lease_order r) (execution_assert execution)"
proof -
  have "resp log_order (assertHeld g)" for g
    unfolding assertHeld_def throwIfAborted_def
    by (intro log.resp_seq log.resp_rules log.resp_find_doc log.resp_modify) simp_all
  then show "resp agent_order (execution_assert execution)"
    "resp log_order (execution_assert execution)" "resp (lease_order r) (execution_assert execution)"
    using assertHeld_order assertHeld_lease_order
    by (auto simp: execution_assert_def agent.resp_ret log.resp_ret lease.resp_ret split: option.split)
qed

interpretation job: job_order "agent_order :: process \<Rightarrow> process \<Rightarrow> bool"
proof unfold_locales
  show "canTransitionAgentRun e n \<Longrightarrow> resp agent_order
      (AgentRun_updateOne r (\<lambda>d. ar_status d = e) (\<lambda>d. (upd d)\<lparr>ar_status := n\<rparr>))" for e n r upd
    by (rule updateOne_order) (use settled_stuck in blast)
  show "resp agent_order (AgentRun_updateOne r p upd)"
    if "\<And>d. p d \<Longrightarrow> ar_status d \<noteq> Completed \<and> ar_status d \<noteq> Failed \<and> ar_status d \<noteq> Cancelled" for r p upd
    by (rule updateOne_order) (use that in \<open>auto simp: settled_def\<close>)
qed (auto intro: emit_order commit_order upsert_snapshot_agent execution_order
      resp_weaken [OF untouched_ops(1) untouched_orders(1)] resp_weaken [OF untouched_ops(2) untouched_orders(1)]
      resp_weaken [OF untouched_ops(3) untouched_orders(1)] resp_weaken [OF untouched_ops(4) untouched_orders(1)])

lemma set_run_at: "resp log_order (AgentRun_updateOne r p f)" "resp (lease_order v) (AgentRun_updateOne r p f)"
  unfolding AgentRun_updateOne_def
  by (intro log.resp_db_op lease.resp_db_op set_run_events)+

text \<open>Moving a branch head changes branches only.\<close>

definition branches_only :: "('z) world_scheme \<Rightarrow> ('z) world_scheme \<Rightarrow> bool" where
  "branches_only w w' \<longleftrightarrow> w_events w' = w_events w \<and> w_leases w' = w_leases w \<and> w_now w' = w_now w \<and>
     w_snapshots w' = w_snapshots w"

definition head_update where
  "head_update b v s = (\<lambda>w. case w_branches w b of
     None \<Rightarrow> (Inr None, w)
   | Some d \<Rightarrow> if br_status d = BranchActive \<and> br_headVersion d = v
       then let d' = d\<lparr>br_headSnapshotId := Some s, br_headVersion := br_headVersion d + 1\<rparr>
            in (Inr (Some d'), w\<lparr>w_branches := (w_branches w)(b \<mapsto> d')\<rparr>)
       else (Inr None, w))"

lemma head_update_only: "resp branches_only (head_update b v s)"
  by (auto simp: resp_def head_update_def branches_only_def Let_def split: option.split)

lemma setBranchHead_update: "setBranchHead b v s = db_op (head_update b v s)"
  by (simp add: setBranchHead_def head_update_def)

context store_order
begin

lemma commit_respects:
  assumes "\<And>w w'. branches_only w w' \<Longrightarrow> R w w'"
  shows "resp R (commitBranchHead b v s)"
proof -
  have "resp R (head_update b v s)" by (rule resp_weaken [OF head_update_only assms])
  then show ?thesis
    unfolding commitBranchHead_def setBranchHead_update
    by (intro resp_seq resp_option resp_find_doc resp_rules resp_db_op)
qed

end

lemma commit_other: "resp log_order (commitBranchHead b v s)" "resp (lease_order r) (commitBranchHead b v s)"
  by (rule log.commit_respects lease.commit_respects, simp add: branches_only_def)+

lemma emit_lease: "resp (lease_order v) (emitAgentEvent r u p t m pl)"
proof -
  have "resp (lease_order v) (insert_event e)" for e :: agent_event
    by (auto simp: resp_def insert_event_def Let_def)
  then show ?thesis
    unfolding emitAgentEvent_def getNextSequence_def find_latest_sequence_def publish_def
    by (intro lease.resp_seq lease.resp_db_op lease.resp_find_doc lease.resp_ret lease.resp_modify)
       simp_all
qed

interpretation job_log: job_order "log_order :: process \<Rightarrow> process \<Rightarrow> bool"
  by unfold_locales
     (auto intro: emit_log set_run_at commit_other untouched_snapshot execution_order
      resp_weaken [OF untouched_ops(1) untouched_orders(2)] resp_weaken [OF untouched_ops(2) untouched_orders(2)]
      resp_weaken [OF untouched_ops(3) untouched_orders(2)] resp_weaken [OF untouched_ops(4) untouched_orders(2)])

interpretation job_lease: job_order "lease_order r :: process \<Rightarrow> process \<Rightarrow> bool" for r
  by unfold_locales
     (auto intro: emit_lease set_run_at commit_other untouched_snapshot execution_order
      resp_weaken [OF untouched_ops(1) untouched_orders(3)] resp_weaken [OF untouched_ops(2) untouched_orders(3)]
      resp_weaken [OF untouched_ops(3) untouched_orders(3)] resp_weaken [OF untouched_ops(4) untouched_orders(3)])

text \<open>Snapshots exist only for projects whose validation passed and was not simulated.\<close>

definition only_verified :: "('z) world_scheme \<Rightarrow> bool" where
  "only_verified w \<longleftrightarrow> (\<forall>i d. w_snapshots w i = Some d \<longrightarrow> verified_result (sn_validation d))"

definition verified_order :: "('z) world_scheme \<Rightarrow> ('z) world_scheme \<Rightarrow> bool" where
  "verified_order w w' \<longleftrightarrow> (only_verified w \<longrightarrow> only_verified w')"

lemma verified_order_same [simp]: "w_snapshots w' = w_snapshots w \<Longrightarrow> verified_order w w'"
  by (simp add: verified_order_def only_verified_def)

interpretation verified: store_order "verified_order :: ('z) world_scheme \<Rightarrow> 'z world_scheme \<Rightarrow> bool"
proof unfold_locales
  show "verified_order w (env_apply e w)" for w :: "'z world_scheme" and e
    by (cases e) (auto split: option.split)
  show "verified_order w u" if "verified_order w v" "verified_order v u" for w v u :: "'z world_scheme"
    using that unfolding verified_order_def by blast
qed simp_all

definition snapshots_same :: "('z) world_scheme \<Rightarrow> ('z) world_scheme \<Rightarrow> bool" where
  "snapshots_same w w' \<longleftrightarrow> w_snapshots w' = w_snapshots w"

interpretation same: store_order "snapshots_same :: ('z) world_scheme \<Rightarrow> 'z world_scheme \<Rightarrow> bool"
proof unfold_locales
  show "snapshots_same w (env_apply e w)" for w :: "'z world_scheme" and e
    by (cases e) (auto simp: snapshots_same_def split: option.split)
qed (simp_all add: snapshots_same_def)

lemma same_ops: "resp snapshots_same (AgentRun_updateOne r p f)"
  "resp snapshots_same (commitBranchHead b v s)"
  "resp snapshots_same (execution_assert execution)"
proof -
  have "resp snapshots_same (set_run r p f)"
    by (auto simp: resp_def set_run_def snapshots_same_def split: option.split)
  then show "resp snapshots_same (AgentRun_updateOne r p f)"
    unfolding AgentRun_updateOne_def by (rule same.resp_db_op)
  show "resp snapshots_same (commitBranchHead b v s)"
    by (rule same.commit_respects) (simp add: branches_only_def snapshots_same_def)
  show "resp snapshots_same (execution_assert execution)"
    unfolding execution_assert_def assertHeld_def throwIfAborted_def
    by (intro same.resp_seq same.resp_rules same.resp_find_doc same.resp_modify)
       (simp_all add: snapshots_same_def)
qed

lemma emit_same: "resp snapshots_same (emitAgentEvent r u p t m pl)"
proof -
  have "resp snapshots_same (insert_event e)" for e :: agent_event
    by (auto simp: resp_def insert_event_def Let_def snapshots_same_def)
  then show ?thesis
    unfolding emitAgentEvent_def getNextSequence_def find_latest_sequence_def publish_def
    by (intro same.resp_seq same.resp_db_op same.resp_find_doc same.resp_ret same.resp_modify)
       (simp_all add: snapshots_same_def)
qed

interpretation job_verified: job_order "verified_order :: process \<Rightarrow> process \<Rightarrow> bool"
proof -
  have same: "snapshots_same w w' \<Longrightarrow> verified_order w w'" for w w' :: process
    by (simp add: snapshots_same_def)
  have un: "untouched w w' \<Longrightarrow> verified_order w w'" for w w' :: process
    by (simp add: untouched_def)
  show "job_order (verified_order :: process \<Rightarrow> process \<Rightarrow> bool)"
  proof unfold_locales
    show "resp verified_order (upsert_snapshot sd)" if "verified_result (sn_validation sd)" for sd
      using that by (auto simp: resp_def upsert_snapshot_def Let_def verified_order_def
          only_verified_def split: option.split)
  qed (auto intro: resp_weaken [OF same_ops(1) same] resp_weaken [OF same_ops(2) same]
      resp_weaken [OF same_ops(3) same] resp_weaken [OF emit_same same]
      resp_weaken [OF untouched_ops(1) un] resp_weaken [OF untouched_ops(2) un]
      resp_weaken [OF untouched_ops(3) un] resp_weaken [OF untouched_ops(4) un])
qed

end
