(* ===== verification/Worker.thy ===== *)
theory Worker
  imports Orchestrator
begin

text \<open>
  \<open>agent/createWorker.ts\<close>: the processor of a queued job, which takes the branch lease, requeues
  a run that waited for the branch on the current head, and runs the job under the lease. The
  delaying of a job is BullMQ's and an argument.
\<close>

section \<open>createAgentJobProcessor\<close>

datatype job_name = AgentRunJobName | RetryValidationJobName | OtherJobName string

record worker_job =
  wj_name :: job_name
  wj_data :: agent_run_job
  wj_moveToDelayed :: "(time \<Rightarrow> (process, js_error, unit) comp) option"

record worker_dependencies =
  wd_services :: services
  wd_modelClient :: model_client
  wd_resolveModelClient :: "(object_id \<Rightarrow> (process, js_error, model_client) comp) option"
  wd_branchRetryDelayMs :: "int option"

definition delayed_error :: js_error where
  "delayed_error = coded_error ''DelayedError'' ''bullmq:movedToDelayed''"

definition markRunWaiting :: "object_id \<Rightarrow> (('z) world_scheme, js_error, unit) comp" where
  "markRunWaiting r =
     seq (AgentRun_updateOne r (\<lambda>d. ar_status d = Queued \<or> ar_status d = WaitingForCapacity)
            (\<lambda>d. d\<lparr>ar_status := WaitingForCapacity\<rparr>)) (\<lambda>_. ret ())"

definition wait_for_branch :: "worker_dependencies \<Rightarrow> worker_job \<Rightarrow> (process, js_error, unit) comp" where
  "wait_for_branch deps job =
     seq (markRunWaiting (job_runId (wj_data job))) (\<lambda>_.
     case wj_moveToDelayed job of
       None \<Rightarrow> throw (plain_error ''BullMQ job cannot be delayed'')
     | Some move \<Rightarrow>
         seq Date_now (\<lambda>now.
         seq (move (now + (case wd_branchRetryDelayMs deps of Some d \<Rightarrow> d | None \<Rightarrow> 2000))) (\<lambda>_.
         throw delayed_error)))"

definition set_lease_base :: "object_id option \<Rightarrow> object_id \<Rightarrow> nat \<Rightarrow>
    (('z) world_scheme, js_error, unit) comp" where
  "set_lease_base b r v = (\<lambda>w. (Inr (),
     case b of
       None \<Rightarrow> w
     | Some b \<Rightarrow>
         (case w_leases w b of
            Some l \<Rightarrow> if el_runId l = r
              then w\<lparr>w_leases := (w_leases w)(b \<mapsto> l\<lparr>el_baseHeadVersion := v\<rparr>)\<rparr> else w
          | None \<Rightarrow> w)))"

text \<open>
  A run that waited is rebased on the head of its branch. The answer tells whether the job goes on.
\<close>

definition requeue_waiting :: "execution_guard \<Rightarrow> object_id \<Rightarrow> (process, js_error, bool) comp" where
  "requeue_waiting g r =
     seq (find_doc (\<lambda>w. Option.bind (w_runs w r) ar_branchId)) (\<lambda>branchId.
     seq (find_doc (\<lambda>w. Option.bind branchId (w_branches w))) (\<lambda>branch.
     case branch of
       None \<Rightarrow> seq (releaseExecution g) (\<lambda>_.
         throw (plain_error (''ProjectBranch not found for Run '' @ r)))
     | Some d \<Rightarrow>
         seq (AgentRun_updateOne r (\<lambda>x. ar_status x = WaitingForCapacity)
                (\<lambda>x. (x\<lparr>ar_baseSnapshotId := br_headSnapshotId d,
                        ar_baseHeadVersion := Some (br_headVersion d),
                        ar_baseSnapshotRevision := br_headVersion d\<rparr>)\<lparr>ar_status := Queued\<rparr>)) (\<lambda>rebased.
         if \<not> rebased then seq (releaseExecution g) (\<lambda>_. ret False)
         else seq (db_op (set_lease_base branchId r (br_headVersion d))) (\<lambda>_. ret True))))"

definition requeue :: "execution_guard \<Rightarrow> worker_job \<Rightarrow> agent_run_status \<Rightarrow> (process, js_error, bool) comp" where
  "requeue g job initialStatus =
     (let r = job_runId (wj_data job)
      in if initialStatus = WaitingForCapacity \<and> wj_name job = AgentRunJobName
         then requeue_waiting g r
         else if initialStatus = WaitingForCapacity
         then seq (AgentRun_updateOne r (\<lambda>d. ar_status d = WaitingForCapacity)
                     (\<lambda>d. d\<lparr>ar_status := Queued\<rparr>)) (\<lambda>_. ret True)
         else ret True)"

definition run_job :: "worker_dependencies \<Rightarrow> execution_guard \<Rightarrow> worker_job \<Rightarrow> agent_run_status \<Rightarrow>
    (process, js_error, unit) comp" where
  "run_job deps g job initialStatus =
     (if wj_name job = RetryValidationJobName
      then processValidationCandidate (wd_services deps) (Some g) (wj_data job)
      else seq (case wd_resolveModelClient deps of
                  Some f \<Rightarrow> if initialStatus \<noteq> Persisting then f (job_runId (wj_data job))
                            else ret (wd_modelClient deps)
                | None \<Rightarrow> ret (wd_modelClient deps)) (\<lambda>client.
           processAgentRun (wd_services deps) client (Some g) (wj_data job)))"

definition agentJobProcessor :: "worker_dependencies \<Rightarrow> worker_job \<Rightarrow> (process, js_error, unit) comp" where
  "agentJobProcessor deps job =
     (if wj_name job \<noteq> AgentRunJobName \<and> wj_name job \<noteq> RetryValidationJobName
      then throw (plain_error (''Unsupported job name: '' @
             (case wj_name job of OtherJobName n \<Rightarrow> n | _ \<Rightarrow> [])))
      else seq (find_doc (\<lambda>w. map_option ar_status (w_runs w (job_runId (wj_data job))))) (\<lambda>initial.
           case initial of
             None \<Rightarrow> ret ()
           | Some initialStatus \<Rightarrow>
               if isTerminalAgentRunStatus initialStatus then ret ()
               else seq (acquireBranchExecution (job_runId (wj_data job)) DEFAULT_TTL_MS) (\<lambda>execution.
                    case execution of
                      None \<Rightarrow> wait_for_branch deps job
                    | Some g \<Rightarrow>
                        seq (requeue g job initialStatus) (\<lambda>go.
                        if \<not> go then ret ()
                        else finally_do (run_job deps g job initialStatus) (releaseExecution g)))))"

section \<open>A whole job respects the relations\<close>

definition dependencies_respect :: "(process \<Rightarrow> process \<Rightarrow> bool) \<Rightarrow> worker_dependencies \<Rightarrow> worker_job \<Rightarrow> bool" where
  "dependencies_respect R deps job \<longleftrightarrow> services_respect R (wd_services deps) \<and>
     (\<forall>f r. wd_resolveModelClient deps = Some f \<longrightarrow> resp R (f r)) \<and>
     (\<forall>f t. wj_moveToDelayed job = Some f \<longrightarrow> resp R (f t))"

text \<open>The job contract with what the worker adds: waiting, the lease, and its base version.
  \<open>me\<close> is the run of the job.\<close>

locale worker_order = job_order R
  for R :: "process \<Rightarrow> process \<Rightarrow> bool" +
  fixes me :: object_id
  assumes R_wait: "resp R (markRunWaiting r)"
    and R_acquire: "resp R (acquireBranchExecution me ttl)"
    and R_release: "eg_runId g = me \<Longrightarrow> resp R (releaseExecution g)"
    and R_base: "resp R (set_lease_base b r v)"
begin

lemma waiting: "dependencies_respect R deps job \<Longrightarrow> resp R (wait_for_branch deps job)"
  unfolding wait_for_branch_def by (intro steps R_wait) (auto simp: dependencies_respect_def)

lemma to_queued: "resp R (AgentRun_updateOne r (\<lambda>d. ar_status d = WaitingForCapacity)
    (\<lambda>d. (upd d)\<lparr>ar_status := Queued\<rparr>))"
  by (rule R_transition) (simp add: canTransitionAgentRun_def)

lemma requeued: "eg_runId g = me \<Longrightarrow> resp R (requeue g job st)"
  unfolding requeue_def requeue_waiting_def
  by (intro steps R_release R_base to_queued; assumption)

lemma running: "dependencies_respect R deps job \<Longrightarrow> resp R (run_job deps g job st)"
  unfolding run_job_def by (intro steps process_retry process_run) (auto simp: dependencies_respect_def)

lemma acquired: "returns (\<lambda>x. \<forall>g. x = Some g \<longrightarrow> eg_runId g = r) (acquireBranchExecution r ttl)"
  unfolding returns_def using acquire_result by blast

lemma whole_job:
  assumes "dependencies_respect R deps job" "job_runId (wj_data job) = me"
  shows "resp R (agentJobProcessor deps job)"
proof -
  have "resp R (seq (acquireBranchExecution me DEFAULT_TTL_MS) (\<lambda>execution.
      case execution of None \<Rightarrow> wait_for_branch deps job
      | Some g \<Rightarrow> seq (requeue g job st) (\<lambda>go. if \<not> go then ret ()
          else finally_do (run_job deps g job st) (releaseExecution g))))" for st
    by (rule resp_seq_with [OF R_acquire acquired])
       (intro resp_option waiting assms(1) resp_seq requeued resp_if resp_ret resp_finally running
          R_release; simp)
  then show ?thesis
    unfolding agentJobProcessor_def assms(2)
    by (intro resp_if resp_throw resp_seq [OF resp_find_doc] resp_option resp_ret)
qed

end


lemma base_leases: "resp agent_order (set_lease_base b r v)" "resp log_order (set_lease_base b r v)"
  "resp verified_order (set_lease_base b r v)" "resp (lease_order me) (set_lease_base b r v)"
  by (auto simp: resp_def set_lease_base_def intro: lease_order_extend split: option.split)



lemma leases_only:
  assumes "\<And>w w' :: process. w_events w' = w_events w \<Longrightarrow> w_snapshots w' = w_snapshots w \<Longrightarrow>
      w_runs w' = w_runs w \<Longrightarrow> R w w'"
  shows "resp R (upsert_lease b r now doc)" "resp R (delete_lease g)"
    "resp R (modify (\<lambda>w. w\<lparr>w_aborted := x, w_lost := y\<rparr>))"
  by (auto simp: resp_def upsert_lease_def delete_lease_def modify_def Let_def
      intro!: assms split: option.split)

interpretation worker_log: worker_order "log_order :: process \<Rightarrow> process \<Rightarrow> bool" me for me
proof unfold_locales
  have ops: "resp log_order (upsert_lease b r now doc :: (process, _, _) comp)"
    "resp log_order (delete_lease g :: (process, _, _) comp)"
    "resp log_order (modify (\<lambda>w :: process. w\<lparr>w_aborted := x, w_lost := y\<rparr>))" for b r now doc g x y
    by (rule leases_only, simp)+
  show "resp log_order (markRunWaiting r :: (process, _, _) comp)" for r
    unfolding markRunWaiting_def by (intro log.resp_seq set_run_at log.resp_ret)
  show "resp log_order (acquireBranchExecution me ttl :: (process, _, _) comp)" for ttl
    unfolding acquireBranchExecution_def take_lease_def
    by (intro log.resp_seq log.resp_find_run log.resp_option log.resp_prod log.resp_Date_now
        log.resp_catch log.resp_db_op ops log.resp_rules)
  show "resp log_order (releaseExecution g :: (process, _, _) comp)" for g
    unfolding releaseExecution_def by (intro log.resp_db_op ops)
qed (auto intro: base_leases)

interpretation worker_verified: worker_order "verified_order :: process \<Rightarrow> process \<Rightarrow> bool" me for me
proof unfold_locales
  have ops: "resp verified_order (upsert_lease b r now doc :: (process, _, _) comp)"
    "resp verified_order (delete_lease g :: (process, _, _) comp)"
    "resp verified_order (modify (\<lambda>w :: process. w\<lparr>w_aborted := x, w_lost := y\<rparr>))" for b r now doc g x y
    by (rule leases_only, simp)+
  show "resp verified_order (markRunWaiting r :: (process, _, _) comp)" for r
    unfolding markRunWaiting_def
    by (intro verified.resp_seq resp_weaken [OF same_ops(1)] verified.resp_ret)
       (simp add: snapshots_same_def)
  show "resp verified_order (acquireBranchExecution me ttl :: (process, _, _) comp)" for ttl
    unfolding acquireBranchExecution_def take_lease_def
    by (intro verified.resp_seq verified.resp_find_run verified.resp_option verified.resp_prod
        verified.resp_Date_now verified.resp_catch verified.resp_db_op ops
        verified.resp_rules)
  show "resp verified_order (releaseExecution g :: (process, _, _) comp)" for g
    unfolding releaseExecution_def by (intro verified.resp_db_op ops)
qed (auto intro: base_leases)

section \<open>What a status update and a completion have done\<close>

lemma transitionRun_result:
  assumes "transitionRun expected next upd w = (Inr (), w')"
  shows "\<exists>d. w_runs w' (p_runId w) = Some ((upd d)\<lparr>ar_status := next\<rparr>) \<and> ar_status d = expected \<and>
    canTransitionAgentRun expected next"
proof -
  have can: "canTransitionAgentRun expected next"
    using assms by (auto simp: transitionRun_def assertAgentRunTransition_def lift_result_def seq_def
        split: if_splits)
  then obtain m w1 where m: "AgentRun_updateOne (p_runId w) (\<lambda>d. ar_status d = expected)
      (\<lambda>d. (upd d)\<lparr>ar_status := next\<rparr>) w = (Inr True, w1)" "w_runs w' = w_runs w1"
    using assms
    by (auto simp: transitionRun_def assertAgentRunTransition_def lift_result_def reads_def throw_def
        modify_def elim!: seq_elim split: if_splits)
  from m(1) obtain w0 where "set_run (p_runId w) (\<lambda>d. ar_status d = expected)
      (\<lambda>d. (upd d)\<lparr>ar_status := next\<rparr>) w0 = (Inr True, w1)"
    unfolding AgentRun_updateOne_def by (rule db_op_Inr)
  then show ?thesis using can m(2) by (auto simp: set_run_def split: option.splits if_splits)
qed

text \<open>The local document names the same run throughout.\<close>

definition same_run :: "process \<Rightarrow> process \<Rightarrow> bool" where
  "same_run w w' \<longleftrightarrow> p_runId w' = p_runId w"

interpretation same_run: store_order same_run
proof unfold_locales
  show "same_run w (env_apply e w)" for w :: process and e
    by (cases e) (auto simp: same_run_def split: option.split)
qed (simp_all add: same_run_def)

lemma same_run_ops: "resp same_run (AgentRun_updateOne r p f)" "resp same_run (commitBranchHead b v s)"
proof -
  have ops: "resp same_run (set_run r p f)" "resp same_run (head_update b v s)"
    by (auto simp: resp_def set_run_def head_update_def same_run_def Let_def split: option.split)
  show "resp same_run (AgentRun_updateOne r p f)"
    unfolding AgentRun_updateOne_def by (intro same_run.resp_db_op ops)
  show "resp same_run (commitBranchHead b v s)"
    unfolding commitBranchHead_def setBranchHead_update
    by (intro same_run.resp_seq same_run.resp_db_op ops same_run.resp_option
        same_run.resp_find_doc same_run.resp_rules)
qed

lemma complete_result:
  assumes "completeRunWithSnapshot s upd w = (Inr st, w')"
    and upd: "\<And>d. ar_resultSnapshotId (upd d) = ar_resultSnapshotId d"
  shows "\<exists>d. w_runs w' (p_runId w) = Some d \<and> ar_status d = st \<and> ar_resultSnapshotId d = Some s \<and>
    (st = Completed \<or> st = CompletedWithConflict)"
proof -
  from assms(1) obtain b base c w1 w2 where
    c: "commitBranchHead b base s w = (Inr c, w1)"
    and t: "transitionRun Persisting (case c of Conflict _ \<Rightarrow> CompletedWithConflict | _ \<Rightarrow> Completed)
        (\<lambda>d. upd (d\<lparr>ar_resultSnapshotId := Some s, ar_completedAt := Some (w_now w1)\<rparr>)) w1 = (Inr (), w2)"
    and st: "st = (case c of Conflict _ \<Rightarrow> CompletedWithConflict | _ \<Rightarrow> Completed)"
    and rest: "(case c of Advanced v \<Rightarrow>
        seq (find_doc (\<lambda>w. map_option br_name (w_branches w b))) (\<lambda>name.
          if name = Some MAIN_BRANCH_NAME
          then db_op (set_active_snapshot (ar_projectId (p_run w)) (ar_userId (p_run w)) s v)
          else ret ()) | _ \<Rightarrow> ret ()) w2 = (Inr (), w')"
    unfolding completeRunWithSnapshot_def Let_def
    by (auto simp: reads_def ret_def throw_def Date_now_def elim!: seq_elim split: option.splits)
  have r: "p_runId w1 = p_runId w"
    using respD [OF same_run_ops(2) c] by (simp add: same_run_def)
  from transitionRun_result [OF t] obtain d where
    d: "w_runs w2 (p_runId w) = Some d" "ar_status d = st" "ar_resultSnapshotId d = Some s"
    unfolding r st using upd by auto
  show ?thesis
  proof (cases c)
    case (Advanced v)
    have "resp agent_order (seq (find_doc (\<lambda>w. map_option br_name (w_branches w b))) (\<lambda>name.
          if name = Some MAIN_BRANCH_NAME
          then db_op (set_active_snapshot (ar_projectId (p_run w)) (ar_userId (p_run w)) s v)
          else ret ()) :: (process, _, _) comp)"
      by (intro job.steps job.R_active)
    then have "agent_order w2 w'" using rest Advanced by (auto dest: respD)
    moreover have "st = Completed" using st Advanced by simp
    ultimately show ?thesis using d by (fastforce simp: agent_order_def runs_kept_def settled_def)
  next
    case (AlreadyAdvanced v)
    then show ?thesis using rest d st by (auto simp: ret_def)
  next
    case (Conflict v)
    then show ?thesis using rest d st by (auto simp: ret_def)
  qed
qed

section \<open>Properties\<close>


text \<open>C4: One job of the worker keeps the events of every run numbered 1, 2, ..., n in the order
  they were written, and never removes one, under the same adversity.\<close>

theorem job_keeps_numbering:
  assumes "dependencies_respect log_order deps job" "numbered w"
  shows "numbered (snd (agentJobProcessor deps job w)) \<and>
    (\<exists>new. w_events (snd (agentJobProcessor deps job w)) = w_events w @ new)"
proof -
  have "log_order w (snd (agentJobProcessor deps job w))"
    using worker_log.whole_job [OF assms(1) refl] by (simp add: resp_def)
  then show ?thesis using assms(2) by (simp add: log_order_def)
qed

text \<open>C2: No job of the worker ever stores a snapshot whose validation did not pass or was
  simulated: if all snapshots are verified before, they are after, whatever the validator answers.\<close>

theorem job_stores_only_verified:
  assumes "dependencies_respect verified_order deps job" "only_verified w"
  shows "only_verified (snd (agentJobProcessor deps job w))"
proof -
  have "verified_order w (snd (agentJobProcessor deps job w))"
    using worker_verified.whole_job [OF assms(1) refl] by (simp add: resp_def)
  then show ?thesis using assms(2) by (simp add: verified_order_def)
qed


text \<open>C7: When \<open>completeRunWithSnapshot\<close> answers, the run of the process is stored with the status
  it answers, which is one of the two completed ones, and with the given snapshot as its result,
  whatever happened in between.\<close>

theorem completion_is_stored:
  assumes "completeRunWithSnapshot s upd w = (Inr st, w')"
    and "\<And>d. ar_resultSnapshotId (upd d) = ar_resultSnapshotId d"
  shows "\<exists>d. w_runs w' (p_runId w) = Some d \<and> ar_status d = st \<and> ar_resultSnapshotId d = Some s \<and>
    (st = Completed \<or> st = CompletedWithConflict)"
  using assms by (rule complete_result)

section \<open>A concrete worker\<close>

definition demo_services :: services where
  "demo_services = \<lparr>sv_host = demo_host, sv_isValidObjectId = (\<lambda>_. True), sv_contextCharLimit = 1000,
     sv_writeBundle = (\<lambda>_. ret ''a''), sv_readOwnedBundle = (\<lambda>_ _ _ _. ret ([], sample_package)),
     sv_validator = (\<lambda>vi progress. ret (demo_result VPassed))\<rparr>"

definition demo_dependencies :: worker_dependencies where
  "demo_dependencies = \<lparr>wd_services = demo_services, wd_modelClient = demo_client,
     wd_resolveModelClient = None, wd_branchRetryDelayMs = None\<rparr>"

definition demo_job :: worker_job where
  "demo_job = \<lparr>wj_name = AgentRunJobName,
     wj_data = \<lparr>job_runId = ''r1'', job_kind_of = None, job_candidateId = None\<rparr>,
     wj_moveToDelayed = None\<rparr>"

definition demo_process :: "agent_run_status \<Rightarrow> slot list \<Rightarrow> process" where
  "demo_process st sl = world.extend (sample_world\<lparr>w_runs := [''r1'' \<mapsto> sample_run ''b'' st],
     w_sched := sl\<rparr>) \<lparr>p_runId = [], p_run = sample_run ''b'' st\<rparr>"

lemma demo_respects:
  assumes "\<And>w :: process. R w w"
  shows "dependencies_respect R demo_dependencies demo_job"
  using assms
  by (auto simp: dependencies_respect_def services_respect_def demo_dependencies_def demo_job_def
      demo_services_def resp_def ret_def)


lemma demo_process_ok: "numbered (demo_process st sl)" "only_verified (demo_process st sl)"
  by (auto simp: numbered_def event_sequences_def only_verified_def demo_process_def sample_world_def
      empty_world_def world.defs intro: exI [of _ 0])

theorem job_keeps_numbering_witness:
  "numbered (snd (agentJobProcessor demo_dependencies demo_job
     (demo_process Queued [([EnvEvent ''r1'' RunCancelled], NoFault)])))"
  using job_keeps_numbering [OF demo_respects demo_process_ok(1)] by (simp add: log.R_refl)

theorem job_stores_only_verified_witness:
  "only_verified (snd (agentJobProcessor demo_dependencies demo_job (demo_process Queued [])))"
  using job_stores_only_verified [OF demo_respects demo_process_ok(2)] by (simp add: verified.R_refl)


theorem completion_is_stored_witness:
  "\<exists>w'. completeRunWithSnapshot ''s2'' (\<lambda>d. d) ((demo_process Persisting [])\<lparr>p_runId := ''r1''\<rparr>)
       = (Inr Completed, w') \<and>
     (\<exists>d. w_runs w' ''r1'' = Some d \<and> ar_status d = Completed \<and> ar_resultSnapshotId d = Some ''s2'')"
proof -
  obtain w' where c: "completeRunWithSnapshot ''s2'' (\<lambda>d. d)
      ((demo_process Persisting [])\<lparr>p_runId := ''r1''\<rparr>) = (Inr Completed, w')"
    by (simp add: completeRunWithSnapshot_def commitBranchHead_def setBranchHead_def transitionRun_def
        assertAgentRunTransition_def canTransitionAgentRun_def AgentRun_updateOne_def set_run_def
        find_doc_def db_op_def seq_def ret_def reads_def modify_def lift_result_def Date_now_def
        demo_process_def sample_world_def sample_branch_def sample_run_def empty_world_def Let_def
        world.defs set_active_snapshot_def MAIN_BRANCH_NAME_def)
  from completion_is_stored [OF c] c show ?thesis by (auto simp: demo_process_def)
qed

end
