(* ===== verification/Triples.thy ===== *)
theory Triples
  imports World
begin

text \<open>
  Pre- and postconditions for programs of awaited calls, with the steps of other processes in
  between. A condition that holds before a call must be stable under those steps; a claim about
  fewer of them restricts the schedule with \<open>calm\<close>.
\<close>

section \<open>Restricted schedules\<close>

definition calm :: "(env_step \<Rightarrow> bool) \<Rightarrow> ('z) world_scheme \<Rightarrow> bool" where
  "calm ok w \<longleftrightarrow> (\<forall>sl \<in> set (w_sched w). \<forall>e \<in> set (fst sl). ok e)"

abbreviation any_step :: "env_step \<Rightarrow> bool" where
  "any_step \<equiv> (\<lambda>_. True)"

lemma calm_any [simp]: "calm any_step w"
  by (simp add: calm_def)

lemma calm_empty [simp]: "w_sched w = [] \<Longrightarrow> calm ok w"
  by (simp add: calm_def)

lemma calm_same: "w_sched w' = w_sched w \<Longrightarrow> calm ok w' = calm ok w"
  by (simp add: calm_def)

lemma env_apply_sched [simp]: "w_sched (env_apply e w) = w_sched w"
  by (cases e) (auto split: option.split)

lemma env_fold_sched [simp]: "w_sched (fold env_apply es w) = w_sched w"
  by (induction es arbitrary: w) auto

lemma calm_tl: "calm ok w \<Longrightarrow> calm ok (w\<lparr>w_sched := tl (w_sched w)\<rparr>)"
  by (cases "w_sched w") (auto simp: calm_def)

lemma calm_next: "calm ok w \<Longrightarrow> e \<in> set (fst (next_slot (w_sched w))) \<Longrightarrow> ok e"
  by (cases "w_sched w") (auto simp: calm_def)

definition stable :: "(env_step \<Rightarrow> bool) \<Rightarrow> (('z) world_scheme \<Rightarrow> bool) \<Rightarrow> bool" where
  "stable ok P \<longleftrightarrow> (\<forall>w e. ok e \<longrightarrow> P w \<longrightarrow> P (env_apply e w)) \<and> (\<forall>w sl. P w \<longrightarrow> P (w\<lparr>w_sched := sl\<rparr>))"

lemma stable_True [simp]: "stable ok (\<lambda>_. True)"
  by (simp add: stable_def)

lemma stable_pure [simp]: "stable ok (\<lambda>_. b)"
  by (simp add: stable_def)

lemma stable_conj: "stable ok P \<Longrightarrow> stable ok Q \<Longrightarrow> stable ok (\<lambda>w. P w \<and> Q w)"
  by (simp add: stable_def)

text \<open>The store in which an awaited call runs: after the steps of its slot.\<close>

definition at_call :: "('z) world_scheme \<Rightarrow> ('z) world_scheme" where
  "at_call w = fold env_apply (fst (next_slot (w_sched w))) (w\<lparr>w_sched := tl (w_sched w)\<rparr>)"

lemma stable_fold:
  "stable ok P \<Longrightarrow> (\<And>e. e \<in> set es \<Longrightarrow> ok e) \<Longrightarrow> P w \<Longrightarrow> P (fold env_apply es w)"
  by (induction es arbitrary: w) (auto simp: stable_def)

lemma stable_at_call: "stable ok P \<Longrightarrow> calm ok w \<Longrightarrow> P w \<Longrightarrow> P (at_call w)"
  unfolding at_call_def
  by (rule stable_fold, assumption, erule (1) calm_next) (simp add: stable_def)

lemma calm_at_call: "calm ok w \<Longrightarrow> calm ok (at_call w)"
  using calm_tl [of ok w] by (simp add: at_call_def calm_def)

lemma db_op_at_call: "db_op f w = (case snd (next_slot (w_sched w)) of
    NoFault \<Rightarrow> f (at_call w) | FailAfter \<Rightarrow> (Inl db_error, snd (f (at_call w)))
  | _ \<Rightarrow> (Inl db_error, at_call w))"
  unfolding db_op_def at_call_def Let_def by (simp split: fault.split)

lemma fs_op_at_call: "fs_op f w = (case snd (next_slot (w_sched w)) of
    NoFault \<Rightarrow> f (at_call w) | FailBefore \<Rightarrow> (Inl (fs_error ''EIO''), at_call w)
  | FailAfter \<Rightarrow> (Inl (fs_error ''EIO''), snd (f (at_call w)))
  | FailCode c \<Rightarrow> (Inl (fs_error c), at_call w))"
  unfolding fs_op_def at_call_def Let_def by (simp split: fault.split)

text \<open>Without a schedule nothing happens around a call.\<close>

lemma at_call_idle [simp]: "w_sched w = [] \<Longrightarrow> at_call w = w"
  by (simp add: at_call_def)

lemma fs_op_idle [monad_simps]: "w_sched w = [] \<Longrightarrow> fs_op f w = f w"
  by (simp add: fs_op_at_call)

lemma db_op_idle [monad_simps]: "w_sched w = [] \<Longrightarrow> db_op f w = f w"
  by (simp add: db_op_at_call)

section \<open>Triples\<close>

definition triple :: "(env_step \<Rightarrow> bool) \<Rightarrow> (('z) world_scheme \<Rightarrow> bool) \<Rightarrow> (('z) world_scheme, 'e, 'a) comp \<Rightarrow>
    ('a \<Rightarrow> ('z) world_scheme \<Rightarrow> bool) \<Rightarrow> ('e \<Rightarrow> ('z) world_scheme \<Rightarrow> bool) \<Rightarrow> bool" where
  "triple ok P m Q E \<longleftrightarrow> (\<forall>w. calm ok w \<longrightarrow> P w \<longrightarrow>
     (case m w of (Inr a, w') \<Rightarrow> Q a w' \<and> calm ok w' | (Inl e, w') \<Rightarrow> E e w' \<and> calm ok w'))"

lemma tripleI:
  assumes "\<And>w a w'. calm ok w \<Longrightarrow> P w \<Longrightarrow> m w = (Inr a, w') \<Longrightarrow> Q a w' \<and> calm ok w'"
    and "\<And>w e w'. calm ok w \<Longrightarrow> P w \<Longrightarrow> m w = (Inl e, w') \<Longrightarrow> E e w' \<and> calm ok w'"
  shows "triple ok P m Q E"
  unfolding triple_def
proof (intro allI impI)
  fix w assume w: "calm ok w" "P w"
  show "case m w of (Inr a, w') \<Rightarrow> Q a w' \<and> calm ok w' | (Inl e, w') \<Rightarrow> E e w' \<and> calm ok w'"
  proof (cases "m w")
    case (Pair r t)
    then show ?thesis using assms(1) [OF w] assms(2) [OF w] by (cases r) simp_all
  qed
qed

lemma triple_val: "triple ok P m Q E \<Longrightarrow> calm ok w \<Longrightarrow> P w \<Longrightarrow> m w = (Inr a, w') \<Longrightarrow> Q a w' \<and> calm ok w'"
  by (fastforce simp: triple_def)

lemma triple_exn: "triple ok P m Q E \<Longrightarrow> calm ok w \<Longrightarrow> P w \<Longrightarrow> m w = (Inl e, w') \<Longrightarrow> E e w' \<and> calm ok w'"
  by (fastforce simp: triple_def)

lemma triple_pre: "triple ok P m Q E \<Longrightarrow> (\<And>w. P' w \<Longrightarrow> P w) \<Longrightarrow> triple ok P' m Q E"
  by (auto simp: triple_def)

lemma triple_post:
  "triple ok P m Q E \<Longrightarrow> (\<And>a w. Q a w \<Longrightarrow> Q' a w) \<Longrightarrow> (\<And>e w. E e w \<Longrightarrow> E' e w) \<Longrightarrow> triple ok P m Q' E'"
  unfolding triple_def by (force split: prod.split sum.split)

lemma triple_weak:
  "triple ok P m Q E \<Longrightarrow> (\<And>w. P' w \<Longrightarrow> P w) \<Longrightarrow> (\<And>a w. Q a w \<Longrightarrow> Q' a w) \<Longrightarrow>
   (\<And>e w. E e w \<Longrightarrow> E' e w) \<Longrightarrow> triple ok P' m Q' E'"
  by (rule triple_post, erule triple_pre) blast+

lemma triple_ret: "(\<And>w. P w \<Longrightarrow> Q a w) \<Longrightarrow> triple ok P (ret a) Q E"
  by (simp add: triple_def ret_def)

lemma triple_throw: "(\<And>w. P w \<Longrightarrow> E e w) \<Longrightarrow> triple ok P (throw e) Q E"
  by (simp add: triple_def throw_def)

lemma triple_reads: "(\<And>w. P w \<Longrightarrow> Q (f w) w) \<Longrightarrow> triple ok P (reads f) Q E"
  by (simp add: triple_def reads_def)

lemma triple_lift:
  "(\<And>a w. r = Inr a \<Longrightarrow> P w \<Longrightarrow> Q a w) \<Longrightarrow> (\<And>e w. r = Inl e \<Longrightarrow> P w \<Longrightarrow> E e w) \<Longrightarrow>
   triple ok P (lift_result r) Q E"
  by (cases r) (auto simp: triple_def lift_result_def)

lemma triple_seq:
  assumes "triple ok P m Q E" "\<And>a. triple ok (Q a) (k a) R E"
  shows "triple ok P (seq m k) R E"
proof (rule tripleI)
  fix w b w' assume w: "calm ok w" "P w" and run: "seq m k w = (Inr b, w')"
  from run show "R b w' \<and> calm ok w'"
  proof (cases rule: seq_elim)
    case (val a t)
    with w have "Q a t \<and> calm ok t" using triple_val [OF assms(1)] by blast
    with val show ?thesis using triple_val [OF assms(2)] by blast
  qed simp
next
  fix w e w' assume w: "calm ok w" "P w" and run: "seq m k w = (Inl e, w')"
  from run show "E e w' \<and> calm ok w'"
  proof (cases rule: seq_elim)
    case (exn e')
    with w triple_exn [OF assms(1)] show ?thesis by auto
  next
    case (val a t)
    with w have "Q a t \<and> calm ok t" using triple_val [OF assms(1)] by blast
    with val show ?thesis using triple_exn [OF assms(2)] by blast
  qed
qed

lemma triple_catch:
  assumes "triple ok P m Q X" "\<And>e. triple ok (X e) (h e) Q E"
  shows "triple ok P (catch m h) Q E"
proof (rule tripleI)
  fix w a w' assume w: "calm ok w" "P w" and run: "catch m h w = (Inr a, w')"
  from run show "Q a w' \<and> calm ok w'"
  proof (cases rule: catch_elim)
    case (val b)
    with w triple_val [OF assms(1)] show ?thesis by auto
  next
    case (exn e t)
    with w have "X e t \<and> calm ok t" using triple_exn [OF assms(1)] by blast
    with exn show ?thesis using triple_val [OF assms(2)] by blast
  qed
next
  fix w e w' assume w: "calm ok w" "P w" and run: "catch m h w = (Inl e, w')"
  from run show "E e w' \<and> calm ok w'"
  proof (cases rule: catch_elim)
    case (exn e' t)
    with w have "X e' t \<and> calm ok t" using triple_exn [OF assms(1)] by blast
    with exn show ?thesis using triple_exn [OF assms(2)] by blast
  qed simp
qed

text \<open>\<open>finally\<close>: its own exception replaces the outcome, otherwise the outcome stands.\<close>

lemma triple_finally:
  assumes "triple ok P m Q X" and "\<And>a. triple ok (Q a) f (\<lambda>_. R a) E"
    and "\<And>e. triple ok (X e) f (\<lambda>_. E e) E"
  shows "triple ok P (finally_do m f) R E"
proof -
  have "case finally_do m f w of (Inr a, w') \<Rightarrow> R a w' \<and> calm ok w' | (Inl e, w') \<Rightarrow> E e w' \<and> calm ok w'"
    if w: "calm ok w" "P w" for w
  proof (cases "m w")
    case (Pair q t)
    show ?thesis
    proof (cases q)
      case (Inl e)
      with Pair w have t: "calm ok t" "X e t" using triple_exn [OF assms(1)] by auto
      show ?thesis
      proof (cases "f t")
        case p: (Pair p t')
        then show ?thesis using Pair Inl triple_val [OF assms(3) t] triple_exn [OF assms(3) t]
          by (cases p) (simp_all add: finally_do_def)
      qed
    next
      case (Inr a)
      with Pair w have t: "calm ok t" "Q a t" using triple_val [OF assms(1)] by auto
      show ?thesis
      proof (cases "f t")
        case p: (Pair p t')
        then show ?thesis using Pair Inr triple_val [OF assms(2) t] triple_exn [OF assms(2) t]
          by (cases p) (simp_all add: finally_do_def)
      qed
    qed
  qed
  then show ?thesis by (simp add: triple_def)
qed

lemma triple_if:
  "(b \<Longrightarrow> triple ok P m Q E) \<Longrightarrow> (\<not> b \<Longrightarrow> triple ok P n Q E) \<Longrightarrow> triple ok P (if b then m else n) Q E"
  by simp

lemma triple_option:
  "(x = None \<Longrightarrow> triple ok P m Q E) \<Longrightarrow> (\<And>y. x = Some y \<Longrightarrow> triple ok P (k y) Q E) \<Longrightarrow>
   triple ok P (case x of None \<Rightarrow> m | Some y \<Rightarrow> k y) Q E"
  by (cases x) auto

lemma triple_prod: "(\<And>y z. x = (y, z) \<Longrightarrow> triple ok P (k y z) Q E) \<Longrightarrow> triple ok P (case x of (y, z) \<Rightarrow> k y z) Q E"
  by (cases x) auto

lemma triple_assume: "(\<And>w. P w \<Longrightarrow> b) \<Longrightarrow> (b \<Longrightarrow> triple ok P m Q E) \<Longrightarrow> triple ok P m Q E"
  by (auto simp: triple_def)

text \<open>An awaited call: its precondition is stable, and it may fail before or after its effect.\<close>

definition atomic_triple :: "(('z) world_scheme \<Rightarrow> bool) \<Rightarrow> (('z) world_scheme, 'e, 'a) comp \<Rightarrow>
    ('a \<Rightarrow> ('z) world_scheme \<Rightarrow> bool) \<Rightarrow> ('e \<Rightarrow> ('z) world_scheme \<Rightarrow> bool) \<Rightarrow> (('z) world_scheme \<Rightarrow> bool) \<Rightarrow> bool" where
  "atomic_triple P f Q E F \<longleftrightarrow> (\<forall>w. P w \<longrightarrow> F (snd (f w)) \<and> w_sched (snd (f w)) = w_sched w \<and>
     (case fst (f w) of Inr a \<Rightarrow> Q a (snd (f w)) | Inl e \<Rightarrow> E e (snd (f w))))"

lemma triple_fs_op:
  assumes "stable ok P" "atomic_triple P f Q E F"
    and "\<And>c w. P w \<Longrightarrow> E (fs_error c) w" "\<And>w. F w \<Longrightarrow> E (fs_error ''EIO'') w"
  shows "triple ok P (fs_op f) Q E"
proof -
  have "case fs_op f w of (Inr a, w') \<Rightarrow> Q a w' \<and> calm ok w' | (Inl e, w') \<Rightarrow> E e w' \<and> calm ok w'"
    if w: "calm ok w" "P w" for w
  proof -
    from assms(1) w have P: "P (at_call w)" "calm ok (at_call w)"
      using stable_at_call calm_at_call by blast+
    have f: "F (snd (f (at_call w)))" "calm ok (snd (f (at_call w)))"
      "case fst (f (at_call w)) of Inr a \<Rightarrow> Q a (snd (f (at_call w))) | Inl e \<Rightarrow> E e (snd (f (at_call w)))"
      using assms(2) P calm_same [of "snd (f (at_call w))" "at_call w" ok]
      by (auto simp: atomic_triple_def)
    show ?thesis
      using f assms(3) [OF P(1)] assms(4) [OF f(1)] P(2)
      by (cases "f (at_call w)") (auto simp: fs_op_at_call split: fault.split sum.splits)
  qed
  then show ?thesis by (simp add: triple_def)
qed

lemma triple_db_op:
  assumes "stable ok P" "atomic_triple P f Q E F"
    and "\<And>w. P w \<Longrightarrow> E db_error w" "\<And>w. F w \<Longrightarrow> E db_error w"
  shows "triple ok P (db_op f) Q E"
proof -
  have "case db_op f w of (Inr a, w') \<Rightarrow> Q a w' \<and> calm ok w' | (Inl e, w') \<Rightarrow> E e w' \<and> calm ok w'"
    if w: "calm ok w" "P w" for w
  proof -
    from assms(1) w have P: "P (at_call w)" "calm ok (at_call w)"
      using stable_at_call calm_at_call by blast+
    have f: "F (snd (f (at_call w)))" "calm ok (snd (f (at_call w)))"
      "case fst (f (at_call w)) of Inr a \<Rightarrow> Q a (snd (f (at_call w))) | Inl e \<Rightarrow> E e (snd (f (at_call w)))"
      using assms(2) P calm_same [of "snd (f (at_call w))" "at_call w" ok]
      by (auto simp: atomic_triple_def)
    show ?thesis
      using f assms(3) [OF P(1)] assms(4) [OF f(1)] P(2)
      by (cases "f (at_call w)") (auto simp: db_op_at_call split: fault.split sum.splits)
  qed
  then show ?thesis by (simp add: triple_def)
qed

lemma triple_find_doc:
  "stable ok P \<Longrightarrow> (\<And>w. P w \<Longrightarrow> Q (f w) w) \<Longrightarrow> (\<And>w. P w \<Longrightarrow> E db_error w) \<Longrightarrow>
   triple ok P (find_doc f) Q E"
  unfolding find_doc_def
  by (rule triple_db_op [where F = P]) (auto simp: atomic_triple_def reads_def)

text \<open>What the effects of a program leave alone can be carried along.\<close>

lemma triple_frame:
  assumes "triple ok P m Q E" "resp R m" "\<And>w w'. R w w' \<Longrightarrow> I w \<Longrightarrow> I w'"
  shows "triple ok (\<lambda>w. P w \<and> I w) m (\<lambda>a w. Q a w \<and> I w) E"
proof (rule tripleI)
  fix w a w' assume w: "calm ok w" "P w \<and> I w" and run: "m w = (Inr a, w')"
  show "(Q a w' \<and> I w') \<and> calm ok w'"
    using triple_val [OF assms(1) w(1) _ run] w(2) assms(3) [OF respD [OF assms(2) run]] by blast
next
  fix w e w' assume w: "calm ok w" "P w \<and> I w" and run: "m w = (Inl e, w')"
  show "E e w' \<and> calm ok w'" using triple_exn [OF assms(1) w(1) _ run] w(2) by blast
qed

lemma triple_trivial: "triple any_step P m (\<lambda>_ _. True) (\<lambda>_ _. True)"
  unfolding triple_def by (auto split: prod.split sum.split)

lemma triple_keeps:
  assumes "resp R m" "\<And>w w'. R w w' \<Longrightarrow> I w \<Longrightarrow> I w'"
  shows "triple any_step I m (\<lambda>_. I) (\<lambda>_ _. True)"
  using triple_frame [OF triple_trivial [of "\<lambda>_. True"] assms] by simp

section \<open>One condition kept throughout\<close>

definition maintains :: "(env_step \<Rightarrow> bool) \<Rightarrow> (('z) world_scheme \<Rightarrow> bool) \<Rightarrow> (('z) world_scheme, 'e, 'a) comp \<Rightarrow> bool" where
  "maintains ok I m \<longleftrightarrow> triple ok I m (\<lambda>_. I) (\<lambda>_. I)"

lemma maintainsD: "maintains ok I m \<Longrightarrow> calm ok w \<Longrightarrow> I w \<Longrightarrow> m w = (r, w') \<Longrightarrow> I w' \<and> calm ok w'"
  unfolding maintains_def by (cases r) (blast dest: triple_val triple_exn)+

lemma maintainsI:
  assumes "\<And>w. calm ok w \<Longrightarrow> I w \<Longrightarrow> I (snd (m w)) \<and> calm ok (snd (m w))"
  shows "maintains ok I m"
  unfolding maintains_def triple_def
proof (intro allI impI)
  fix w assume "calm ok w" "I w"
  then show "case m w of (Inr a, w') \<Rightarrow> I w' \<and> calm ok w' | (Inl e, w') \<Rightarrow> I w' \<and> calm ok w'"
    using assms [of w] by (cases "m w"; cases "fst (m w)") auto
qed

lemma maintains_ret: "maintains ok I (ret a)"
  unfolding maintains_def by (rule triple_ret)

lemma maintains_throw: "maintains ok I (throw e)"
  unfolding maintains_def by (rule triple_throw)

lemma maintains_reads: "maintains ok I (reads f)"
  unfolding maintains_def by (rule triple_reads)

lemma maintains_lift: "maintains ok I (lift_result r)"
  unfolding maintains_def by (rule triple_lift)

lemma maintains_seq: "maintains ok I m \<Longrightarrow> (\<And>a. maintains ok I (k a)) \<Longrightarrow> maintains ok I (seq m k)"
  unfolding maintains_def by (rule triple_seq)

lemma maintains_catch: "maintains ok I m \<Longrightarrow> (\<And>e. maintains ok I (h e)) \<Longrightarrow> maintains ok I (catch m h)"
  unfolding maintains_def by (rule triple_catch)

lemma maintains_finally: "maintains ok I m \<Longrightarrow> maintains ok I f \<Longrightarrow> maintains ok I (finally_do m f)"
  unfolding maintains_def by (rule triple_finally)

lemma maintains_if: "(b \<Longrightarrow> maintains ok I m) \<Longrightarrow> (\<not> b \<Longrightarrow> maintains ok I n) \<Longrightarrow> maintains ok I (if b then m else n)"
  by simp

lemma maintains_option:
  "(x = None \<Longrightarrow> maintains ok I m) \<Longrightarrow> (\<And>y. x = Some y \<Longrightarrow> maintains ok I (k y)) \<Longrightarrow>
   maintains ok I (case x of None \<Rightarrow> m | Some y \<Rightarrow> k y)"
  by (cases x) auto

lemma maintains_find: "stable ok I \<Longrightarrow> maintains ok I (find_doc f)"
  unfolding maintains_def by (rule triple_find_doc)

lemma maintains_db_op:
  assumes "stable ok I" "\<And>w. I w \<Longrightarrow> I (snd (f w)) \<and> w_sched (snd (f w)) = w_sched w"
  shows "maintains ok I (db_op f)"
  unfolding maintains_def
  by (rule triple_db_op [where F = I]) (use assms in \<open>auto simp: atomic_triple_def split: sum.split\<close>)

lemmas maintains_rules = maintains_ret maintains_throw maintains_reads maintains_lift maintains_if maintains_option

end
