(* ===== verification/Config.thy ===== *)
theory Config
  imports SandboxTypes Bundle
begin

text \<open>
  The configuration read from the environment at start-up: \<open>artifacts/config.ts\<close>,
  \<open>sandbox/config.ts\<close> and \<open>agent/config.ts\<close>. The environment is a partial map from names to
  texts. Numbers are exact; \<open>Number\<close> and \<open>parseInt\<close> round above 2^53 only.
\<close>

type_synonym environment = "string \<rightharpoonup> string"

section \<open>Readers of one variable\<close>

definition not_positive :: "string \<Rightarrow> js_error" where
  "not_positive name = plain_error (name @ '' must be a positive safe integer'')"

text \<open>\<open>positive\<close> of the artifact and the sandbox configuration.\<close>

definition positive :: "string option \<Rightarrow> int \<Rightarrow> string \<Rightarrow> js_error + int" where
  "positive value fallback name = (case value of
     None \<Rightarrow> Inr fallback
   | Some v \<Rightarrow>
       if v = [] \<or> \<not> list_all is_digit v \<or> hd v = CHR ''0'' then Inl (not_positive name)
       else if \<not> isSafeInteger (digits_value v) then Inl (not_positive name)
       else Inr (digits_value v))"

definition boolean_env :: "string option \<Rightarrow> bool \<Rightarrow> string \<Rightarrow> js_error + bool" where
  "boolean_env value fallback name = (case value of
     None \<Rightarrow> Inr fallback
   | Some v \<Rightarrow> if v \<noteq> ''true'' \<and> v \<noteq> ''false''
       then Inl (plain_error (name @ '' must be \"true\" or \"false\"'')) else Inr (v = ''true''))"

definition images :: "string option \<Rightarrow> js_error + string list" where
  "images value = (case value of
     None \<Rightarrow> Inr [''node:22'']
   | Some v \<Rightarrow> let parsed = map trim (split_on CHR '','' v) in
       if parsed = [] \<or> [] \<in> set parsed
       then Inl (plain_error ''SANDBOX_ALLOWED_BUILD_IMAGES must contain non-empty image names'')
       else Inr parsed)"

definition optional_env :: "string option \<Rightarrow> string option" where
  "optional_env value = (case value of None \<Rightarrow> None | Some v \<Rightarrow> if trim v = [] then None else Some (trim v))"

text \<open>\<open>value || fallback\<close>.\<close>

definition or_default :: "string option \<Rightarrow> string \<Rightarrow> string" where
  "or_default value fallback = (case value of None \<Rightarrow> fallback | Some v \<Rightarrow> if v = [] then fallback else v)"

section \<open>artifacts/config.ts\<close>

record artifact_config =
  ac_root :: string
  ac_limits :: artifact_limits
  ac_writingTimeoutMs :: int
  ac_orphanRetentionMs :: int

definition getArtifactConfig :: "environment \<Rightarrow> js_error + artifact_config" where
  "getArtifactConfig env =
     (let driver = (case env ''ARTIFACT_STORE_DRIVER'' of None \<Rightarrow> ''shared-filesystem'' | Some d \<Rightarrow> d);
          folder = (case env ''ARTIFACT_STORE_ROOT'' of None \<Rightarrow> ''/var/lib/open-v0/artifacts'' | Some r \<Rightarrow> trim r)
      in and_then (check (driver = ''shared-filesystem'')
           (plain_error ''ARTIFACT_STORE_DRIVER must be \"shared-filesystem\"'')) (\<lambda>_.
         and_then (check (folder \<noteq> []) (plain_error ''ARTIFACT_STORE_ROOT must be a non-empty path'')) (\<lambda>_.
         and_then (positive (env ''ARTIFACT_MAX_BUNDLE_BYTES'') (50 * 1024 * 1024) ''ARTIFACT_MAX_BUNDLE_BYTES'') (\<lambda>uncompressed.
         and_then (positive (env ''ARTIFACT_MAX_COMPRESSED_BYTES'') (20 * 1024 * 1024) ''ARTIFACT_MAX_COMPRESSED_BYTES'') (\<lambda>compressed.
         and_then (positive (env ''ARTIFACT_MAX_FILES'') 5000 ''ARTIFACT_MAX_FILES'') (\<lambda>files.
         and_then (positive (env ''ARTIFACT_WRITING_TIMEOUT_MS'') (5 * 60 * 1000) ''ARTIFACT_WRITING_TIMEOUT_MS'') (\<lambda>writing.
         and_then (positive (env ''ARTIFACT_ORPHAN_RETENTION_MS'') (24 * 60 * 60 * 1000) ''ARTIFACT_ORPHAN_RETENTION_MS'') (\<lambda>retention.
         Inr \<lparr>ac_root = folder, ac_limits = \<lparr>maxCompressedBytes = compressed, maxUncompressedBytes = uncompressed, maxFiles = files\<rparr>,
              ac_writingTimeoutMs = writing, ac_orphanRetentionMs = retention\<rparr>))))))))"

section \<open>sandbox/config.ts\<close>

record command_timeouts =
  cto_install :: int
  cto_typeCheck :: int
  cto_build :: int

record daytona_config =
  dy_apiKey :: "string option"
  dy_jwtToken :: "string option"
  dy_organizationId :: "string option"
  dy_apiUrl :: "string option"
  dy_target :: "string option"

record sandbox_config =
  sx_provider :: string
  sx_localEnabled :: bool
  sx_localRoot :: string
  sx_daytona :: daytona_config
  sx_allowedBuildImages :: "string list"
  sx_quotaLockTtlMs :: int
  sx_quotaLockWaitMs :: int
  sx_readinessTimeoutMs :: int
  sx_leaseSeconds :: int
  sx_autoDeleteSeconds :: int
  sx_orphanGraceMs :: int
  sx_reconcileIntervalMs :: int
  sx_heartbeatIntervalMs :: int
  sx_heartbeatTimeoutMs :: int
  sx_commandTimeouts :: command_timeouts

definition sandbox_provider_env :: "environment \<Rightarrow> string" where
  "sandbox_provider_env env = (case env ''SANDBOX_PROVIDER'' of None \<Rightarrow> ''fake''
     | Some v \<Rightarrow> if trim v = [] then ''fake'' else trim v)"

definition check_daytona :: "string \<Rightarrow> daytona_config \<Rightarrow> js_error + unit" where
  "check_daytona provider d =
     and_then (check (\<not> (provider = ''daytona'' \<and> dy_jwtToken d \<noteq> None \<and> dy_organizationId d = None))
       (plain_error ''DAYTONA_ORGANIZATION_ID is required with DAYTONA_JWT_TOKEN'')) (\<lambda>_.
     check (\<not> (provider = ''daytona'' \<and> dy_apiKey d = None \<and>
         \<not> (dy_jwtToken d \<noteq> None \<and> dy_organizationId d \<noteq> None)))
       (plain_error ''DaytonaProvider requires DAYTONA_API_KEY or DAYTONA_JWT_TOKEN with DAYTONA_ORGANIZATION_ID''))"

definition getSandboxConfig :: "environment \<Rightarrow> js_error + sandbox_config" where
  "getSandboxConfig env =
     (let provider = sandbox_provider_env env;
          daytona = \<lparr>dy_apiKey = optional_env (env ''DAYTONA_API_KEY''), dy_jwtToken = optional_env (env ''DAYTONA_JWT_TOKEN''),
            dy_organizationId = optional_env (env ''DAYTONA_ORGANIZATION_ID''), dy_apiUrl = optional_env (env ''DAYTONA_API_URL''),
            dy_target = optional_env (env ''DAYTONA_TARGET'')\<rparr>
      in and_then (boolean_env (env ''SANDBOX_LOCAL_ENABLED'') False ''SANDBOX_LOCAL_ENABLED'') (\<lambda>localEnabled.
         and_then (check (\<not> (env ''NODE_ENV'' = Some ''production'' \<and> (provider = ''local'' \<or> localEnabled)))
           (plain_error ''LocalProcessProvider cannot be enabled in production'')) (\<lambda>_.
         and_then (check_daytona provider daytona) (\<lambda>_.
         and_then (positive (env ''SANDBOX_HEARTBEAT_INTERVAL_MS'') 10000 ''SANDBOX_HEARTBEAT_INTERVAL_MS'') (\<lambda>interval.
         and_then (positive (env ''SANDBOX_HEARTBEAT_TIMEOUT_MS'') 45000 ''SANDBOX_HEARTBEAT_TIMEOUT_MS'') (\<lambda>timeout.
         and_then (check (interval < timeout)
           (plain_error ''SANDBOX_HEARTBEAT_TIMEOUT_MS must be greater than SANDBOX_HEARTBEAT_INTERVAL_MS'')) (\<lambda>_.
         and_then (images (env ''SANDBOX_ALLOWED_BUILD_IMAGES'')) (\<lambda>allowed.
         and_then (positive (env ''SANDBOX_QUOTA_LOCK_TTL_MS'') 5000 ''SANDBOX_QUOTA_LOCK_TTL_MS'') (\<lambda>ttl.
         and_then (positive (env ''SANDBOX_QUOTA_LOCK_WAIT_MS'') 2000 ''SANDBOX_QUOTA_LOCK_WAIT_MS'') (\<lambda>wait.
         and_then (positive (env ''SANDBOX_READINESS_TIMEOUT_MS'') 60000 ''SANDBOX_READINESS_TIMEOUT_MS'') (\<lambda>readiness.
         and_then (positive (env ''SANDBOX_LEASE_SECONDS'') 900 ''SANDBOX_LEASE_SECONDS'') (\<lambda>lease.
         and_then (positive (env ''SANDBOX_AUTO_DELETE_SECONDS'') 1800 ''SANDBOX_AUTO_DELETE_SECONDS'') (\<lambda>autoDelete.
         and_then (positive (env ''SANDBOX_ORPHAN_GRACE_MS'') 300000 ''SANDBOX_ORPHAN_GRACE_MS'') (\<lambda>grace.
         and_then (positive (env ''SANDBOX_RECONCILE_INTERVAL_MS'') 30000 ''SANDBOX_RECONCILE_INTERVAL_MS'') (\<lambda>reconcile.
         and_then (positive (env ''SANDBOX_INSTALL_TIMEOUT_MS'') 180000 ''SANDBOX_INSTALL_TIMEOUT_MS'') (\<lambda>install.
         and_then (positive (env ''SANDBOX_TYPE_CHECK_TIMEOUT_MS'') 60000 ''SANDBOX_TYPE_CHECK_TIMEOUT_MS'') (\<lambda>typeCheck.
         and_then (positive (env ''SANDBOX_BUILD_TIMEOUT_MS'') 120000 ''SANDBOX_BUILD_TIMEOUT_MS'') (\<lambda>build.
         Inr \<lparr>sx_provider = provider, sx_localEnabled = localEnabled,
              sx_localRoot = or_default (env ''SANDBOX_LOCAL_ROOT'') ''/tmp/open-v0-sandboxes'', sx_daytona = daytona,
              sx_allowedBuildImages = allowed, sx_quotaLockTtlMs = ttl, sx_quotaLockWaitMs = wait,
              sx_readinessTimeoutMs = readiness, sx_leaseSeconds = lease, sx_autoDeleteSeconds = autoDelete,
              sx_orphanGraceMs = grace, sx_reconcileIntervalMs = reconcile, sx_heartbeatIntervalMs = interval,
              sx_heartbeatTimeoutMs = timeout, sx_commandTimeouts =
                \<lparr>cto_install = install, cto_typeCheck = typeCheck, cto_build = build\<rparr>\<rparr>))))))))))))))))))"

section \<open>agent/config.ts\<close>

record validation_config =
  vg_structureTimeoutMs :: int
  vg_cacheHitTimeoutMs :: int
  vg_installTimeoutMs :: int
  vg_typeCheckTimeoutMs :: int
  vg_buildTimeoutMs :: int
  vg_roundTimeoutMs :: int
  vg_infrastructureRetryDelaysMs :: "int list"
  vg_npmCacheRoot :: string
  vg_dependencyCacheRoot :: string
  vg_cacheRetentionMs :: int
  vg_cacheMaxBytes :: int
  vg_maxOutputChars :: int

datatype validation_executor = LegacyExecutor | SandboxExecutor

record agent_config =
  ag_redisUrl :: string
  ag_queueName :: string
  ag_model :: string
  ag_validationExecutor :: validation_executor
  ag_maxRepairAttempts :: int
  ag_workspaceRoot :: string
  ag_contextCharLimit :: int
  ag_commandTimeoutMs :: int
  ag_maxValidationOutputChars :: int
  ag_validation :: validation_config

text \<open>\<open>Number.parseInt(text, 10)\<close>: blanks, a sign, the longest run of digits; \<open>None\<close> is \<open>NaN\<close>.\<close>

definition parse_int :: "string \<Rightarrow> int option" where
  "parse_int s =
     (let t = dropWhile is_space s;
          negative = (t \<noteq> [] \<and> hd t = CHR ''-'');
          digits = takeWhile is_digit (if t \<noteq> [] \<and> (hd t = CHR ''-'' \<or> hd t = CHR ''+'') then tl t else t)
      in if digits = [] then None else Some (if negative then - digits_value digits else digits_value digits))"

definition numberFromEnv :: "string option \<Rightarrow> int \<Rightarrow> int" where
  "numberFromEnv value fallback = (case value of
     None \<Rightarrow> fallback
   | Some v \<Rightarrow> if v = [] then fallback
       else (case parse_int v of Some n \<Rightarrow> if 0 < n then n else fallback | None \<Rightarrow> fallback))"

definition numberListFromEnv :: "string option \<Rightarrow> int list \<Rightarrow> int list" where
  "numberListFromEnv value fallback = (case value of
     None \<Rightarrow> fallback
   | Some v \<Rightarrow> if v = [] then fallback
       else let parsed = map (\<lambda>item. parse_int (trim item)) (split_on CHR '','' v) in
         if parsed \<noteq> [] \<and> list_all (\<lambda>n. case n of Some k \<Rightarrow> 0 < k | None \<Rightarrow> False) parsed
         then map the parsed else fallback)"

definition validationExecutorFromEnv :: "string option \<Rightarrow> js_error + validation_executor" where
  "validationExecutorFromEnv value =
     (if value = None \<or> value = Some [] \<or> value = Some ''legacy'' then Inr LegacyExecutor
      else if value = Some ''sandbox'' then Inr SandboxExecutor
      else Inl (plain_error ''AGENT_VALIDATION_EXECUTOR must be \"legacy\" or \"sandbox\"''))"

definition getAgentConfig :: "environment \<Rightarrow> js_error + agent_config" where
  "getAgentConfig env =
     (let legacyCommandTimeoutMs = numberFromEnv (env ''AGENT_COMMAND_TIMEOUT_MS'') 120000;
          maxOutputChars = numberFromEnv (env ''AGENT_MAX_VALIDATION_OUTPUT_CHARS'') 12000
      in and_then (validationExecutorFromEnv (env ''AGENT_VALIDATION_EXECUTOR'')) (\<lambda>executor.
         Inr \<lparr>ag_redisUrl = or_default (env ''REDIS_URL'') ''redis://localhost:6379'',
              ag_queueName = or_default (env ''AGENT_QUEUE_NAME'') ''v0-agent-runs'',
              ag_model = or_default (env ''AGENT_MODEL'') (or_default (env ''DEEPSEEK_MODEL'') ''deepseek-v4-flash''),
              ag_validationExecutor = executor,
              ag_maxRepairAttempts = numberFromEnv (env ''AGENT_MAX_REPAIR_ATTEMPTS'') 2,
              ag_workspaceRoot = or_default (env ''AGENT_WORKSPACE_ROOT'') ''/tmp/v0-agent-runs'',
              ag_contextCharLimit = numberFromEnv (env ''AGENT_CONTEXT_CHAR_LIMIT'') 120000,
              ag_commandTimeoutMs = legacyCommandTimeoutMs,
              ag_maxValidationOutputChars = maxOutputChars,
              ag_validation = \<lparr>vg_structureTimeoutMs = numberFromEnv (env ''AGENT_VALIDATION_STRUCTURE_TIMEOUT_MS'') 5000,
                vg_cacheHitTimeoutMs = numberFromEnv (env ''AGENT_VALIDATION_CACHE_HIT_TIMEOUT_MS'') 15000,
                vg_installTimeoutMs = numberFromEnv (env ''AGENT_VALIDATION_INSTALL_TIMEOUT_MS'') 180000,
                vg_typeCheckTimeoutMs = numberFromEnv (env ''AGENT_VALIDATION_TYPE_CHECK_TIMEOUT_MS'') 60000,
                vg_buildTimeoutMs = numberFromEnv (env ''AGENT_VALIDATION_BUILD_TIMEOUT_MS'') legacyCommandTimeoutMs,
                vg_roundTimeoutMs = numberFromEnv (env ''AGENT_VALIDATION_ROUND_TIMEOUT_MS'') 300000,
                vg_infrastructureRetryDelaysMs = numberListFromEnv (env ''AGENT_VALIDATION_INFRA_RETRY_DELAYS_MS'') [5000, 15000],
                vg_npmCacheRoot = or_default (env ''AGENT_VALIDATION_NPM_CACHE_ROOT'') ''/var/cache/v0-agent/npm'',
                vg_dependencyCacheRoot = or_default (env ''AGENT_VALIDATION_DEPENDENCY_CACHE_ROOT'') ''/var/cache/v0-agent/dependencies'',
                vg_cacheRetentionMs = numberFromEnv (env ''AGENT_VALIDATION_CACHE_RETENTION_MS'') (7 * 24 * 60 * 60 * 1000),
                vg_cacheMaxBytes = numberFromEnv (env ''AGENT_VALIDATION_CACHE_MAX_BYTES'') (10 * 1024 * 1024 * 1024),
                vg_maxOutputChars = maxOutputChars\<rparr>\<rparr>))"

section \<open>What a configuration that was read satisfies\<close>

definition valid_sandbox_config :: "sandbox_config \<Rightarrow> bool" where
  "valid_sandbox_config c \<longleftrightarrow> sx_provider c \<noteq> [] \<and> sx_allowedBuildImages c \<noteq> [] \<and> [] \<notin> set (sx_allowedBuildImages c) \<and>
     list_all (\<lambda>n. 0 < n \<and> n \<le> MAX_SAFE_INTEGER) [sx_quotaLockTtlMs c, sx_quotaLockWaitMs c, sx_readinessTimeoutMs c,
       sx_leaseSeconds c, sx_autoDeleteSeconds c, sx_orphanGraceMs c, sx_reconcileIntervalMs c, sx_heartbeatIntervalMs c,
       sx_heartbeatTimeoutMs c, cto_install (sx_commandTimeouts c), cto_typeCheck (sx_commandTimeouts c),
       cto_build (sx_commandTimeouts c)] \<and>
     sx_heartbeatIntervalMs c < sx_heartbeatTimeoutMs c \<and>
     (sx_provider c = ''daytona'' \<longrightarrow> dy_apiKey (sx_daytona c) \<noteq> None \<or>
        dy_jwtToken (sx_daytona c) \<noteq> None \<and> dy_organizationId (sx_daytona c) \<noteq> None)"

definition valid_agent_config :: "agent_config \<Rightarrow> bool" where
  "valid_agent_config c \<longleftrightarrow> (let v = ag_validation c in
     list_all (\<lambda>n. 0 < n) ([ag_maxRepairAttempts c, ag_contextCharLimit c, ag_commandTimeoutMs c,
       ag_maxValidationOutputChars c, vg_structureTimeoutMs v, vg_cacheHitTimeoutMs v, vg_installTimeoutMs v,
       vg_typeCheckTimeoutMs v, vg_buildTimeoutMs v, vg_roundTimeoutMs v, vg_cacheRetentionMs v, vg_cacheMaxBytes v,
       vg_maxOutputChars v] @ vg_infrastructureRetryDelaysMs v) \<and>
     vg_infrastructureRetryDelaysMs v \<noteq> [] \<and> ag_queueName c \<noteq> [] \<and> ag_model c \<noteq> [])"

lemma digit_int: "is_digit c \<Longrightarrow> 48 \<le> (of_char c :: int)"
proof -
  assume "is_digit c"
  then have "48 \<le> (of_char c :: nat)" by (simp add: is_digit_def Let_def)
  moreover have "(of_char c :: int) = int (of_char c)" by (simp only: of_nat_of_char)
  ultimately show ?thesis by linarith
qed

lemma digits_value_from: "list_all is_digit s \<Longrightarrow> 0 < n \<Longrightarrow> 0 < foldl (\<lambda>n c. 10 * n + (of_char c - 48)) (n :: int) s"
proof (induction s arbitrary: n)
  case (Cons c s)
  then show ?case using digit_int [of c] by simp
qed simp

lemma digits_value_positive:
  assumes "list_all is_digit s" "s \<noteq> []" "hd s \<noteq> CHR ''0''"
  shows "0 < digits_value s"
proof (cases s)
  case (Cons c t)
  have "(of_char c :: int) \<noteq> of_char (CHR ''0'')" using assms Cons by (simp only: of_char_eq_iff) simp
  moreover have "48 \<le> (of_char c :: int)" using assms Cons digit_int by simp
  ultimately have "0 < (of_char c :: int) - 48" by simp
  then show ?thesis using assms Cons by (auto simp: digits_value_def intro: digits_value_from)
qed (use assms in simp)

lemma positive_range: "positive v d name = Inr n \<Longrightarrow> 0 < d \<Longrightarrow> d \<le> MAX_SAFE_INTEGER \<Longrightarrow> 0 < n \<and> n \<le> MAX_SAFE_INTEGER"
proof -
  assume *: "positive v d name = Inr n" "0 < d" "d \<le> MAX_SAFE_INTEGER"
  show ?thesis
  proof (cases v)
    case None with * show ?thesis by (simp add: positive_def)
  next
    case (Some s)
    with * have s: "s \<noteq> []" "list_all is_digit s" "hd s \<noteq> CHR ''0''" "n = digits_value s" "isSafeInteger n"
      by (auto simp: positive_def split: if_splits)
    then show ?thesis using digits_value_positive by (auto simp: isSafeInteger_def)
  qed
qed

lemma images_ok: "images v = Inr xs \<Longrightarrow> xs \<noteq> [] \<and> [] \<notin> set xs"
  by (auto simp: images_def Let_def split: option.splits if_splits)

lemma numberFromEnv_positive [intro]: "0 < d \<Longrightarrow> 0 < numberFromEnv v d"
  by (auto simp: numberFromEnv_def split: option.splits)

lemma numberListFromEnv_positive:
  "d \<noteq> [] \<Longrightarrow> numberListFromEnv v d \<noteq> []"
  "list_all (\<lambda>n. 0 < n) d \<Longrightarrow> list_all (\<lambda>n. 0 < n) (numberListFromEnv v d)"
  by (auto simp: numberListFromEnv_def Let_def list_all_iff split: option.splits)

lemma getArtifactConfig_valid:
  assumes "getArtifactConfig env = Inr c"
  shows "validateLimits (ac_limits c) = Inr () \<and> 0 < ac_writingTimeoutMs c \<and> 0 < ac_orphanRetentionMs c \<and> ac_root c \<noteq> []"
proof -
  obtain u k n w r where
    p: "positive (env ''ARTIFACT_MAX_BUNDLE_BYTES'') (50 * 1024 * 1024) ''ARTIFACT_MAX_BUNDLE_BYTES'' = Inr u"
      "positive (env ''ARTIFACT_MAX_COMPRESSED_BYTES'') (20 * 1024 * 1024) ''ARTIFACT_MAX_COMPRESSED_BYTES'' = Inr k"
      "positive (env ''ARTIFACT_MAX_FILES'') 5000 ''ARTIFACT_MAX_FILES'' = Inr n"
      "positive (env ''ARTIFACT_WRITING_TIMEOUT_MS'') (5 * 60 * 1000) ''ARTIFACT_WRITING_TIMEOUT_MS'' = Inr w"
      "positive (env ''ARTIFACT_ORPHAN_RETENTION_MS'') (24 * 60 * 60 * 1000) ''ARTIFACT_ORPHAN_RETENTION_MS'' = Inr r"
    and c: "ac_limits c = \<lparr>maxCompressedBytes = k, maxUncompressedBytes = u, maxFiles = n\<rparr>"
      "ac_writingTimeoutMs c = w" "ac_orphanRetentionMs c = r" "ac_root c \<noteq> []"
    using assms by (auto simp: getArtifactConfig_def Let_def and_then_Inr)
  have "0 < u \<and> u \<le> MAX_SAFE_INTEGER" "0 < k \<and> k \<le> MAX_SAFE_INTEGER" "0 < n \<and> n \<le> MAX_SAFE_INTEGER"
    "0 < w" "0 < r"
    using p [THEN positive_range] by (simp_all add: MAX_SAFE_INTEGER_def)
  then show ?thesis using c
    by (simp add: validateLimits_def validateLimit_def and_then_Inr isSafeInteger_def)
qed

lemma or_default_non_empty [simp]: "d \<noteq> [] \<Longrightarrow> or_default v d \<noteq> []"
  by (simp add: or_default_def split: option.split)

lemma getAgentConfig_valid: "getAgentConfig env = Inr c \<Longrightarrow> valid_agent_config c"
  unfolding getAgentConfig_def Let_def and_then_Inr sum.inject
  by (elim exE conjE, hypsubst)
     (simp add: valid_agent_config_def numberFromEnv_positive numberListFromEnv_positive)

lemma sandbox_provider_given [simp]: "sandbox_provider_env env \<noteq> []"
  by (simp add: sandbox_provider_env_def split: option.split)

lemma check_daytona_ok:
  "check_daytona p d = Inr u \<Longrightarrow> p = ''daytona'' \<longrightarrow> dy_apiKey d \<noteq> None \<or> dy_jwtToken d \<noteq> None \<and> dy_organizationId d \<noteq> None"
  by (auto simp: check_daytona_def and_then_Inr)

lemma getSandboxConfig_valid:
  "getSandboxConfig env = Inr c \<Longrightarrow> valid_sandbox_config c \<and>
     (env ''NODE_ENV'' = Some ''production'' \<longrightarrow> sx_provider c \<noteq> ''local'' \<and> \<not> sx_localEnabled c)"
  unfolding getSandboxConfig_def Let_def and_then_Inr sum.inject check_Inr
  by (elim exE conjE, hypsubst, (drule positive_range, simp, simp add: MAX_SAFE_INTEGER_def)+,
      drule images_ok, drule check_daytona_ok, simp add: valid_sandbox_config_def)

text \<open>C25: A configuration the server starts with is well formed: every duration, size and count of the
  three configurations is positive, those of the artifact store and the sandboxes are safe integers within
  the limits the bundle codec accepts, a heartbeat times out later than it is due, the image list has no
  empty name, Daytona has credentials, and in production neither the local provider nor its switch is on.\<close>

theorem config_valid:
  assumes "getSandboxConfig env = Inr c" "getArtifactConfig env = Inr a" "getAgentConfig env = Inr g"
  shows "valid_sandbox_config c \<and>
     (env ''NODE_ENV'' = Some ''production'' \<longrightarrow> sx_provider c \<noteq> ''local'' \<and> \<not> sx_localEnabled c) \<and>
     validateLimits (ac_limits a) = Inr () \<and> 0 < ac_writingTimeoutMs a \<and> 0 < ac_orphanRetentionMs a \<and>
     ac_root a \<noteq> [] \<and> valid_agent_config g"
  using getSandboxConfig_valid [OF assms(1)] getArtifactConfig_valid [OF assms(2)] getAgentConfig_valid [OF assms(3)]
  by blast

definition succeeds :: "'e + 'a \<Rightarrow> bool" where
  "succeeds r = (case r of Inl _ \<Rightarrow> False | Inr _ \<Rightarrow> True)"

lemma succeeds_iff: "succeeds r \<longleftrightarrow> (\<exists>x. r = Inr x)"
  by (simp add: succeeds_def split: sum.split)

definition production_env :: environment where
  "production_env = [''NODE_ENV'' \<mapsto> ''production'', ''SANDBOX_PROVIDER'' \<mapsto> '' daytona '',
     ''DAYTONA_API_KEY'' \<mapsto> ''key'', ''SANDBOX_ALLOWED_BUILD_IMAGES'' \<mapsto> ''node:22, node:20'',
     ''SANDBOX_LEASE_SECONDS'' \<mapsto> ''600'', ''AGENT_MAX_REPAIR_ATTEMPTS'' \<mapsto> ''0'']"

lemma config_valid_witness:
  "\<exists>c a g. getSandboxConfig production_env = Inr c \<and> getArtifactConfig production_env = Inr a \<and>
     getAgentConfig production_env = Inr g \<and> valid_sandbox_config c \<and> sx_provider c \<noteq> ''local'' \<and>
     valid_agent_config g"
proof -
  have s: "succeeds (getSandboxConfig production_env)" by code_simp
  have a: "succeeds (getArtifactConfig production_env)" by code_simp
  have "succeeds (getAgentConfig production_env)" by code_simp
  with s a obtain c a g where x: "getSandboxConfig production_env = Inr c" "getArtifactConfig production_env = Inr a"
    "getAgentConfig production_env = Inr g" by (auto simp: succeeds_iff)
  have "production_env ''NODE_ENV'' = Some ''production''" by code_simp
  then show ?thesis using config_valid [OF x] x by blast
qed

end
