(* ===== verification/SandboxPolicy.thy ===== *)
theory SandboxPolicy
  imports FileOps Config
begin

text \<open>
  The policy of the sandbox layer: paths inside a sandbox (\<open>sandbox/path.ts\<close>) and which providers,
  specifications and commands are allowed (\<open>sandbox/policy.ts\<close>). \<open>path.resolve\<close> and
  \<open>path.relative\<close> are written out over the segments of a path; the working directory of the process
  is a parameter.
\<close>

section \<open>node's path functions\<close>

definition path_segs :: "string \<Rightarrow> string list" where
  "path_segs p = filter (\<lambda>s. s \<noteq> []) (split_on CHR ''/'' p)"

text \<open>The arguments of \<open>resolve\<close> are read from the right until the path is absolute.\<close>

fun resolved_path :: "string \<Rightarrow> string list \<Rightarrow> string \<Rightarrow> string" where
  "resolved_path cwd [] acc = cwd @ ''/'' @ acc"
| "resolved_path cwd (p # ps) acc =
     (if p = [] then resolved_path cwd ps acc
      else if posix_isAbsolute p then p @ ''/'' @ acc
      else resolved_path cwd ps (p @ ''/'' @ acc))"

definition node_resolve :: "string \<Rightarrow> string list \<Rightarrow> string" where
  "node_resolve cwd ps =
     CHR ''/'' # join_with ''/'' (norm_segs False [] (split_on CHR ''/'' (resolved_path cwd (rev ps) [])))"

fun strip_common :: "string list \<Rightarrow> string list \<Rightarrow> string list \<times> string list" where
  "strip_common (a # as) (b # bs) = (if a = b then strip_common as bs else (a # as, b # bs))"
| "strip_common as bs = (as, bs)"

definition node_relative :: "string \<Rightarrow> string \<Rightarrow> string \<Rightarrow> string" where
  "node_relative cwd a b =
     (case strip_common (path_segs (node_resolve cwd [a])) (path_segs (node_resolve cwd [b])) of
        (up, down) \<Rightarrow> join_with ''/'' (replicate (length up) ''..'' @ down))"

section \<open>sandbox/path.ts\<close>

definition denied :: "string \<Rightarrow> js_error" where
  "denied msg = sandbox_error ''SANDBOX_POLICY_DENIED'' msg False"

definition drive_prefix :: "string \<Rightarrow> bool" where
  "drive_prefix s \<longleftrightarrow> (case s of c # d # _ \<Rightarrow> is_alpha c \<and> d = CHR '':'' | _ \<Rightarrow> False)"

definition unsafe_segment :: "string \<Rightarrow> bool" where
  "unsafe_segment s \<longleftrightarrow> s = [] \<or> s = ''.'' \<or> s = ''..''"

definition normalizeSandboxRelativePath :: "string \<Rightarrow> js_error + string" where
  "normalizeSandboxRelativePath candidate =
     and_then (check (CHR 0x00 \<notin> set candidate) (denied ''Sandbox path contains a NUL byte'')) (\<lambda>_.
     let normalized = replace_char backslash CHR ''/'' candidate
     in and_then (check (\<not> (normalized = [] \<or> starts_with ''/'' normalized \<or> drive_prefix normalized))
          (denied ''Sandbox path must be relative'')) (\<lambda>_.
        let segments = split_on CHR ''/'' normalized
        in and_then (check (\<not> list_ex unsafe_segment segments)
             (denied ''Sandbox path contains an unsafe segment'')) (\<lambda>_.
           Inr (join_with ''/'' segments))))"

definition resolveSandboxPath :: "string \<Rightarrow> string \<Rightarrow> string \<Rightarrow> js_error + string" where
  "resolveSandboxPath cwd root' candidate =
     (let canonicalRoot = node_resolve cwd [root']
      in and_then (normalizeSandboxRelativePath candidate) (\<lambda>normalized.
         let resolved = node_resolve cwd [canonicalRoot, normalized];
             relative = node_relative cwd canonicalRoot resolved
         in and_then (check (\<not> (relative = [] \<or> relative = ''..'' \<or> starts_with ''../'' relative \<or>
                posix_isAbsolute relative)) (denied ''Sandbox path escapes its root'')) (\<lambda>_.
            Inr resolved)))"

section \<open>sandbox/policy.ts\<close>

datatype build_command_name = CmdInstall | CmdTypeCheck | CmdBuild

definition PLATFORM_MAX_OUTPUT_BYTES :: int where
  "PLATFORM_MAX_OUTPUT_BYTES = 1024 * 1024"

definition assertProviderAllowed :: "sandbox_config \<Rightarrow> string \<Rightarrow> bool \<Rightarrow> js_error + unit" where
  "assertProviderAllowed config provider production =
     and_then (check (provider \<noteq> []) (denied ''Sandbox provider is required'')) (\<lambda>_.
     check (\<not> (provider = ''local'' \<and> (production \<or> \<not> sx_localEnabled config)))
       (denied ''LocalProcessProvider is not allowed''))"

definition assertSpecAllowed :: "sandbox_config \<Rightarrow> sandbox_spec \<Rightarrow> js_error + unit" where
  "assertSpecAllowed config spec =
     and_then (check (sp_image spec \<in> set (sx_allowedBuildImages config))
       (denied ''Sandbox runtime image is not allowed'')) (\<lambda>_.
     and_then (check (sp_workingDirectory spec = ''/workspace'')
       (denied ''Sandbox working directory is not allowed'')) (\<lambda>_.
     and_then (check (0 < rp_cpu (sp_resources spec) \<and> positiveSafeInteger (rp_memoryMiB (sp_resources spec)) \<and>
         positiveSafeInteger (rp_diskMiB (sp_resources spec))) (denied ''Sandbox resource profile is invalid'')) (\<lambda>_.
     check (positiveSafeInteger (lf_leaseSeconds (sp_lifecycle spec)) \<and>
         positiveSafeInteger (lf_autoDeleteSeconds (sp_lifecycle spec))) (denied ''Sandbox lifecycle is invalid''))))"

definition requiredCapabilities :: "sandbox_spec \<Rightarrow> string list" where
  "requiredCapabilities spec = [''files'', ''processes'', ''lifecycle''] @
     (if so_purpose (sp_ownership spec) = PreviewSandbox then [''preview''] else []) @
     (if np_defaultAction (sp_networkPolicy spec) = DenyAll \<or> np_allowedDomains (sp_networkPolicy spec) \<noteq> [] \<or>
         np_allowedCidrs (sp_networkPolicy spec) \<noteq> [] then [''networkPolicy''] else [])"

definition buildCommand :: "sandbox_config \<Rightarrow> build_command_name \<Rightarrow> bool \<Rightarrow> int \<Rightarrow> js_error + sandbox_command" where
  "buildCommand config name hasPackageLock limit =
     and_then (check (positiveSafeInteger limit) (denied ''Command output limit must be a positive safe integer'')) (\<lambda>_.
     Inr \<lparr>sc_executable = ''npm'',
       sc_args = (case name of CmdInstall \<Rightarrow> [if hasPackageLock then ''ci'' else ''install'']
         | CmdBuild \<Rightarrow> [''run'', ''build'', ''--'', ''--base=./''] | CmdTypeCheck \<Rightarrow> [''run'', ''type-check'']),
       sc_cwd = ''/workspace'', sc_env = [(''CI'', ''true'')],
       sc_timeoutMs = (case name of CmdInstall \<Rightarrow> cto_install (sx_commandTimeouts config)
         | CmdTypeCheck \<Rightarrow> cto_typeCheck (sx_commandTimeouts config) | CmdBuild \<Rightarrow> cto_build (sx_commandTimeouts config)),
       sc_maxOutputBytes = min limit PLATFORM_MAX_OUTPUT_BYTES\<rparr>)"

section \<open>Lemmas\<close>

lemma split_on_append: "split_on c (a @ c # b) = split_on c a @ split_on c b"
  by (induction a) (auto split: list.splits)

lemma norm_segs_skip: "norm_segs up acc (filter (\<lambda>s. s \<noteq> []) ws) = norm_segs up acc ws"
  by (induction up acc ws rule: norm_segs.induct) (auto split: list.splits)

lemma norm_segs_absolute: "''..'' \<notin> set acc \<Longrightarrow> ''..'' \<notin> set (norm_segs False acc ws)"
  by (induction False acc ws rule: norm_segs.induct) (auto split: list.splits if_splits)

definition plain_seg :: "string \<Rightarrow> bool" where
  "plain_seg s \<longleftrightarrow> \<not> unsafe_segment s \<and> CHR ''/'' \<notin> set s"

definition resolved_segs :: "string \<Rightarrow> string \<Rightarrow> string list" where
  "resolved_segs cwd p = norm_segs False [] (split_on CHR ''/'' (resolved_path cwd [p] []))"

lemma norm_segs_plain:
  assumes "s \<in> set (norm_segs False [] ws)" "\<And>w. w \<in> set ws \<Longrightarrow> CHR ''/'' \<notin> set w"
  shows "plain_seg s"
  using norm_segs_elem [OF assms(1)] norm_segs_absolute [of "[]" ws] assms
  by (auto simp: plain_seg_def unsafe_segment_def)

lemma resolved_plain: "s \<in> set (resolved_segs cwd p) \<Longrightarrow> plain_seg s"
  unfolding resolved_segs_def by (erule norm_segs_plain) (rule split_on_sep)

lemma resolve_one: "node_resolve cwd [p] = CHR ''/'' # join_with ''/'' (resolved_segs cwd p)"
  by (simp add: node_resolve_def resolved_segs_def)

lemma split_segs:
  "(\<And>s. s \<in> set segs \<Longrightarrow> plain_seg s) \<Longrightarrow>
     split_on CHR ''/'' (CHR ''/'' # join_with ''/'' segs) = [] # (if segs = [] then [[]] else segs)"
  using split_join [of segs "CHR ''/''"] by (auto simp: plain_seg_def)

lemma norm_plain:
  "(\<And>s. s \<in> set segs \<Longrightarrow> plain_seg s) \<Longrightarrow> norm_segs False [] (segs @ [[]]) = segs"
  using norm_segs_id [of segs False "[]" "[[]]"] by (simp add: plain_seg_def unsafe_segment_def)

lemma resolve_path:
  assumes "\<And>s. s \<in> set segs \<Longrightarrow> plain_seg s"
  shows "resolved_segs cwd (CHR ''/'' # join_with ''/'' segs) = segs"
proof -
  let ?p = "CHR ''/'' # join_with ''/'' segs"
  have "resolved_path cwd [?p] [] = ?p @ CHR ''/'' # []" by (simp add: posix_isAbsolute_def)
  then have "split_on CHR ''/'' (resolved_path cwd [?p] []) = ([] # (if segs = [] then [[]] else segs)) @ [[]]"
    using split_segs [OF assms] split_on_append [of "CHR ''/''" ?p "[]"] by simp
  then show ?thesis using norm_plain [OF assms] by (auto simp: resolved_segs_def)
qed

text \<open>Resolving a relative path of plain segments against an absolute one appends the segments.\<close>

lemma resolve_under:
  assumes "\<And>s. s \<in> set segs \<Longrightarrow> plain_seg s" "\<And>s. s \<in> set qs \<Longrightarrow> plain_seg s" "qs \<noteq> []"
  shows "node_resolve cwd [CHR ''/'' # join_with ''/'' segs, join_with ''/'' qs] =
    CHR ''/'' # join_with ''/'' (segs @ qs)"
proof -
  let ?p = "CHR ''/'' # join_with ''/'' segs" and ?q = "join_with ''/'' qs"
  have split: "split_on CHR ''/'' ?q = qs" using assms(2,3) by (intro split_join) (auto simp: plain_seg_def)
  have q: "?q \<noteq> []" "\<not> posix_isAbsolute ?q"
  proof -
    obtain x xs where "qs = x # xs" using assms(3) by (cases qs) auto
    moreover from this have "x \<noteq> []" "CHR ''/'' \<notin> set x"
      using assms(2) by (auto simp: plain_seg_def unsafe_segment_def)
    ultimately show "?q \<noteq> []" "\<not> posix_isAbsolute ?q"
      by (cases x; cases xs; auto simp: posix_isAbsolute_def)+
  qed
  have "resolved_path cwd [?q, ?p] [] = ?p @ CHR ''/'' # (?q @ CHR ''/'' # [])"
    using q by (simp add: posix_isAbsolute_def)
  then have "split_on CHR ''/'' (resolved_path cwd [?q, ?p] []) =
      ([] # (if segs = [] then [[]] else segs)) @ qs @ [[]]"
    by (simp only: split_on_append split split_segs [OF assms(1)]) simp
  moreover have "norm_segs False [] ((segs @ qs) @ [[]]) = segs @ qs"
    using assms by (intro norm_plain) auto
  ultimately show ?thesis by (cases "segs = []") (simp_all add: node_resolve_def)
qed

lemma strip_prefix: "strip_common segs (segs @ qs) = ([], qs)"
  by (induction segs) (cases qs; simp)+

lemma path_segs_plain:
  "(\<And>s. s \<in> set segs \<Longrightarrow> plain_seg s) \<Longrightarrow> path_segs (CHR ''/'' # join_with ''/'' segs) = segs"
  using split_segs [of segs] by (auto simp: path_segs_def plain_seg_def unsafe_segment_def)

lemma relative_under:
  assumes "\<And>s. s \<in> set segs \<Longrightarrow> plain_seg s" "\<And>s. s \<in> set qs \<Longrightarrow> plain_seg s"
  shows "node_relative cwd (CHR ''/'' # join_with ''/'' segs) (CHR ''/'' # join_with ''/'' (segs @ qs)) =
    join_with ''/'' qs"
proof -
  have "resolved_segs cwd (CHR ''/'' # join_with ''/'' segs) = segs"
    "resolved_segs cwd (CHR ''/'' # join_with ''/'' (segs @ qs)) = segs @ qs"
    "path_segs (CHR ''/'' # join_with ''/'' segs) = segs"
    "path_segs (CHR ''/'' # join_with ''/'' (segs @ qs)) = segs @ qs"
    using assms by (auto intro!: resolve_path path_segs_plain)
  then show ?thesis by (simp add: node_relative_def resolve_one strip_prefix)
qed

text \<open>Every accepted relative path is its own list of plain segments.\<close>

lemma normalize_accepts:
  "normalizeSandboxRelativePath p = Inr q \<longleftrightarrow>
     q = replace_char backslash CHR ''/'' p \<and> CHR 0x00 \<notin> set p \<and> \<not> drive_prefix q \<and>
     (\<forall>s \<in> set (split_on CHR ''/'' q). \<not> unsafe_segment s)"
proof -
  have "unsafe_segment (hd (split_on CHR ''/'' q))" if "q = [] \<or> starts_with ''/'' q" for q
    using that by (cases q) (auto simp: unsafe_segment_def)
  then have "\<not> (q = [] \<or> starts_with ''/'' q)" if "\<forall>s \<in> set (split_on CHR ''/'' q). \<not> unsafe_segment s" for q
    using that by (metis hd_in_set split_on_not_Nil)
  then show ?thesis
    by (simp only: normalizeSandboxRelativePath_def and_then_Inr Let_def list_ex_iff check_Inr join_split) auto
qed

lemma resolve_accepts:
  assumes "normalizeSandboxRelativePath p = Inr q"
  shows "resolveSandboxPath cwd d p =
    Inr (CHR ''/'' # join_with ''/'' (resolved_segs cwd d @ split_on CHR ''/'' q))"
proof -
  define segs qs where "segs = resolved_segs cwd d" and "qs = split_on CHR ''/'' q"
  have plain: "\<And>s. s \<in> set segs \<Longrightarrow> plain_seg s" "\<And>s. s \<in> set qs \<Longrightarrow> plain_seg s"
    unfolding segs_def by (rule resolved_plain)
      (use assms split_on_sep in \<open>auto simp: plain_seg_def normalize_accepts qs_def\<close>)
  have q: "q = join_with ''/'' qs" "qs \<noteq> []" by (simp_all add: qs_def)
  have rel: "node_relative cwd (CHR ''/'' # join_with ''/'' segs) (CHR ''/'' # join_with ''/'' (segs @ qs)) = q"
    using relative_under [OF plain] q by simp
  have res: "node_resolve cwd [CHR ''/'' # join_with ''/'' segs, q] = CHR ''/'' # join_with ''/'' (segs @ qs)"
    using resolve_under [OF plain q(2)] q(1) by simp
  have "hd qs \<in> set qs" using q(2) by simp
  moreover have "hd qs = hd (split_on CHR ''/'' q)" by (simp add: qs_def)
  ultimately have "q \<noteq> []" "q \<noteq> ''..''" "\<not> starts_with ''../'' q" "\<not> posix_isAbsolute q"
    using plain(2) [of "hd qs"]
    by (auto simp: plain_seg_def unsafe_segment_def posix_isAbsolute_def)
  then show ?thesis
    using assms by (simp add: resolveSandboxPath_def resolve_one segs_def [symmetric] Let_def res rel qs_def [symmetric])
qed

text \<open>C26: A sandbox path is confined to its root, for every working directory, root and candidate: resolving
  succeeds exactly when the candidate, with backslashes as slashes, is a relative path without drive letter
  or NUL whose segments are neither empty nor dots, and the answer is then the root extended by those
  segments, so the last check for escapes never fires.\<close>

theorem path_confined:
  "resolveSandboxPath cwd d p = Inr r \<longleftrightarrow>
     (\<exists>q. q = replace_char backslash CHR ''/'' p \<and> CHR 0x00 \<notin> set p \<and> \<not> drive_prefix q \<and>
        (\<forall>s \<in> set (split_on CHR ''/'' q). s \<noteq> [] \<and> s \<noteq> ''.'' \<and> s \<noteq> ''..'') \<and>
        path_segs r = path_segs (node_resolve cwd [d]) @ split_on CHR ''/'' q \<and>
        r = CHR ''/'' # join_with ''/'' (path_segs r))"
proof -
  have segs: "path_segs (node_resolve cwd [d]) = resolved_segs cwd d"
    unfolding resolve_one by (rule path_segs_plain) (rule resolved_plain)
  have here: "path_segs (CHR ''/'' # join_with ''/'' (resolved_segs cwd d @ split_on CHR ''/'' q)) =
      resolved_segs cwd d @ split_on CHR ''/'' q" if "normalizeSandboxRelativePath p = Inr q" for q
    using that resolved_plain split_on_sep
    by (intro path_segs_plain) (auto simp: plain_seg_def normalize_accepts)
  have "resolveSandboxPath cwd d p = Inr r \<longleftrightarrow> (\<exists>q. normalizeSandboxRelativePath p = Inr q \<and>
      path_segs r = resolved_segs cwd d @ split_on CHR ''/'' q \<and> r = CHR ''/'' # join_with ''/'' (path_segs r))"
  proof (cases "normalizeSandboxRelativePath p")
    case (Inl e)
    then show ?thesis by (simp add: resolveSandboxPath_def Let_def)
  next
    case (Inr q)
    then show ?thesis using resolve_accepts [OF Inr] here [OF Inr] by auto
  qed
  then show ?thesis by (simp add: segs normalize_accepts unsafe_segment_def conj_assoc)
qed

lemma path_confined_witness:
  "resolveSandboxPath ''/srv'' ''work/../space'' (''src'' @ backslash # ''a.ts'') = Inr ''/srv/space/src/a.ts'' \<and>
   resolveSandboxPath ''/srv'' ''space'' ''../a.ts'' \<noteq> Inr ''/srv/a.ts''"
proof
  have "path_segs (node_resolve ''/srv'' [''work/../space'']) = [''srv'', ''space'']" by code_simp
  moreover have "path_segs ''/srv/space/src/a.ts'' = [''srv'', ''space'', ''src'', ''a.ts'']" by code_simp
  moreover have "CHR 0x00 \<noteq> backslash" "\<not> drive_prefix ''src/a.ts''" "split_on CHR ''/'' ''src/a.ts'' = [''src'', ''a.ts'']"
    "replace_char backslash CHR ''/'' (''src'' @ backslash # ''a.ts'') = ''src/a.ts''" by code_simp+
  ultimately show "resolveSandboxPath ''/srv'' ''work/../space'' (''src'' @ backslash # ''a.ts'') = Inr ''/srv/space/src/a.ts''"
    by (simp add: path_confined)
  show "resolveSandboxPath ''/srv'' ''space'' ''../a.ts'' \<noteq> Inr ''/srv/a.ts''"
    by (simp add: path_confined) code_simp
qed

end
