(* ===== verification/SandboxQuota.thy ===== *)
theory SandboxQuota
  imports Triples Branches SandboxPolicy
begin

text \<open>
  The leases of sandboxes and their quota: the repository of lease documents
  (\<open>sandbox/SandboxRepository.ts\<close>), the lock of a workspace in Redis
  (\<open>sandbox/WorkspaceQuotaLock.ts\<close>) and the scheduler that reserves under it
  (\<open>sandbox/QuotaScheduler.ts\<close>). Every call of the database or of Redis is a step of the store's
  schedule; calls the source starts together with \<open>Promise.all\<close> are made one after the other.
\<close>

type_synonym lease_doc = "object_id \<times> sandbox_lease"

section \<open>sandbox/SandboxRepository.ts\<close>

text \<open>The part of a lease that a reservation fixes; the rest is set to fixed values.\<close>

definition canonicalReservation :: "sandbox_lease \<Rightarrow> sandbox_lease" where
  "canonicalReservation l = l\<lparr>sl_externalId := None, sl_state := SReserved, sl_reservedAt := 0, sl_readyAt := None,
     sl_lastHeartbeatAt := None, sl_expiresAt := 0, sl_terminatedAt := None, sl_error := None, sl_updatedAt := 0\<rparr>"

definition sameReservation :: "sandbox_lease \<Rightarrow> sandbox_lease \<Rightarrow> bool" where
  "sameReservation existing input \<longleftrightarrow> canonicalReservation existing = canonicalReservation input"

definition lease_find :: "(sandbox_lease \<Rightarrow> bool) \<Rightarrow> ('z) world_scheme \<Rightarrow> lease_doc option" where
  "lease_find p w = map_option (\<lambda>i. (i, the (w_sandboxLeases w i)))
     (find (\<lambda>i. case w_sandboxLeases w i of None \<Rightarrow> False | Some l \<Rightarrow> p l) (w_sandboxIds w))"

definition repo_findById :: "object_id \<Rightarrow> (('z) world_scheme, js_error, lease_doc option) comp" where
  "repo_findById i = find_doc (\<lambda>w. map_option (Pair i) (w_sandboxLeases w i))"

definition findByProvisioningKey :: "string \<Rightarrow> (('z) world_scheme, js_error, lease_doc option) comp" where
  "findByProvisioningKey key = find_doc (lease_find (\<lambda>l. sl_provisioningKey l = key))"

definition findByProviderRef :: "string \<Rightarrow> string \<Rightarrow> (('z) world_scheme, js_error, lease_doc option) comp" where
  "findByProviderRef provider externalId =
     find_doc (lease_find (\<lambda>l. sl_provider l = provider \<and> sl_externalId l = Some externalId))"

text \<open>\<open>create\<close>: the validators of the schema, then the insertion, which the unique indexes may refuse.\<close>

definition insert_lease :: "sandbox_lease \<Rightarrow> (('z) world_scheme, js_error, lease_doc) comp" where
  "insert_lease l = (\<lambda>w.
     let i = fresh_id w; d = l\<lparr>sl_updatedAt := w_now w\<rparr>
     in if w_sandboxLeases w i \<noteq> None \<or> \<not> index_free (w_sandboxIds w) (w_sandboxLeases w) i d
        then (Inl duplicate_key, w)
        else (Inr (i, d), w\<lparr>w_sandboxLeases := (w_sandboxLeases w)(i \<mapsto> d),
               w_sandboxIds := w_sandboxIds w @ [i], w_nextId := w_nextId w + 1\<rparr>))"

definition create_lease :: "sandbox_lease \<Rightarrow> (('z) world_scheme, js_error, lease_doc) comp" where
  "create_lease l = (if valid_lease l then db_op (insert_lease l)
     else throw (plain_error ''SandboxLease validation failed''))"

definition reuseOrReject :: "lease_doc \<Rightarrow> sandbox_lease \<Rightarrow> (('z) world_scheme, js_error, lease_doc) comp" where
  "reuseOrReject existing input =
     (if sameReservation (snd existing) input then ret existing
      else throw (sandbox_error ''SANDBOX_OWNERSHIP_MISMATCH''
        ''Provisioning key belongs to a different Sandbox reservation'' False))"

definition createReserved :: "sandbox_lease \<Rightarrow> (('z) world_scheme, js_error, lease_doc) comp" where
  "createReserved input =
     seq (findByProvisioningKey (sl_provisioningKey input)) (\<lambda>existing.
     case existing of
       Some d \<Rightarrow> reuseOrReject d input
     | None \<Rightarrow>
         catch (create_lease (input\<lparr>sl_state := SReserved\<rparr>)) (\<lambda>e.
           if \<not> isDuplicateKey e then throw e
           else seq (findByProvisioningKey (sl_provisioningKey input)) (\<lambda>concurrent.
                case concurrent of None \<Rightarrow> throw e | Some d \<Rightarrow> reuseOrReject d input)))"

text \<open>\<open>findOneAndUpdate\<close> on one lease, with the unique indexes; the answer is the document after it.\<close>

definition set_lease :: "object_id \<Rightarrow> (sandbox_lease \<Rightarrow> bool) \<Rightarrow> (sandbox_lease \<Rightarrow> sandbox_lease) \<Rightarrow>
    (('z) world_scheme, js_error, lease_doc option) comp" where
  "set_lease i p f = (\<lambda>w. case w_sandboxLeases w i of
     None \<Rightarrow> (Inr None, w)
   | Some l \<Rightarrow>
       if \<not> p l then (Inr None, w)
       else let d = (f l)\<lparr>sl_updatedAt := w_now w\<rparr>
            in if index_free (w_sandboxIds w) (w_sandboxLeases w) i d
               then (Inr (Some (i, d)), w\<lparr>w_sandboxLeases := (w_sandboxLeases w)(i \<mapsto> d)\<rparr>)
               else (Inl duplicate_key, w))"

definition update_lease where
  "update_lease i p f = db_op (set_lease i p f)"

definition claimProvisioning :: "object_id \<Rightarrow> time \<Rightarrow> time \<Rightarrow> (('z) world_scheme, js_error, lease_doc option) comp" where
  "claimProvisioning i expectedUpdatedAt claimedAt =
     update_lease i (\<lambda>l. sl_state l = SProvisioning \<and> sl_updatedAt l = expectedUpdatedAt)
       (\<lambda>l. l\<lparr>sl_lastHeartbeatAt := Some claimedAt\<rparr>)"

definition heartbeatRunning :: "object_id \<Rightarrow> string \<Rightarrow> string \<Rightarrow> time \<Rightarrow>
    (('z) world_scheme, js_error, lease_doc option) comp" where
  "heartbeatRunning i provider externalId heartbeatAt =
     update_lease i (\<lambda>l. sl_state l = SRunning \<and> sl_provider l = provider \<and> sl_externalId l = Some externalId)
       (\<lambda>l. l\<lparr>sl_lastHeartbeatAt := Some heartbeatAt\<rparr>)"

definition claimStaleRunning :: "object_id \<Rightarrow> string \<Rightarrow> string \<Rightarrow> time \<Rightarrow>
    (('z) world_scheme, js_error, lease_doc option) comp" where
  "claimStaleRunning i provider externalId heartbeatCutoff =
     update_lease i (\<lambda>l. sl_state l = SRunning \<and> sl_provider l = provider \<and> sl_externalId l = Some externalId \<and>
         (case sl_lastHeartbeatAt l of None \<Rightarrow> False | Some t \<Rightarrow> t \<le> heartbeatCutoff))
       (\<lambda>l. l\<lparr>sl_state := STerminating\<rparr>)"

fun state_text :: "sandbox_state \<Rightarrow> string" where
  "state_text SReserved = ''reserved''"
| "state_text SProvisioning = ''provisioning''"
| "state_text SReady = ''ready''"
| "state_text SRunning = ''running''"
| "state_text STerminating = ''terminating''"
| "state_text STerminated = ''terminated''"
| "state_text SFailed = ''failed''"
| "state_text SLost = ''lost''"

definition transition :: "object_id \<Rightarrow> sandbox_state list \<Rightarrow> sandbox_state \<Rightarrow> (sandbox_lease \<Rightarrow> sandbox_lease) \<Rightarrow>
    (('z) world_scheme, js_error, lease_doc option) comp" where
  "transition i sources target set_fields =
     (if sources = [] \<or> list_ex (\<lambda>s. target \<notin> set (SANDBOX_ALLOWED_TRANSITIONS s)) sources
      then throw (sandbox_error ''SANDBOX_INVALID_STATE'' (''Invalid Sandbox transition to '' @ state_text target) False)
      else update_lease i (\<lambda>l. sl_state l \<in> set sources) (\<lambda>l. (set_fields l)\<lparr>sl_state := target\<rparr>))"

definition bindExternalId :: "object_id \<Rightarrow> string \<Rightarrow> string \<Rightarrow> (('z) world_scheme, js_error, lease_doc option) comp" where
  "bindExternalId i provider externalId =
     update_lease i (\<lambda>l. sl_state l = SProvisioning \<and> sl_provider l = provider \<and> sl_externalId l = None)
       (\<lambda>l. l\<lparr>sl_externalId := Some externalId\<rparr>)"

definition clearExternalId :: "object_id \<Rightarrow> string \<Rightarrow> string \<Rightarrow> (('z) world_scheme, js_error, lease_doc option) comp" where
  "clearExternalId i provider externalId =
     update_lease i (\<lambda>l. sl_state l = SProvisioning \<and> sl_provider l = provider \<and> sl_externalId l = Some externalId)
       (\<lambda>l. l\<lparr>sl_externalId := None\<rparr>)"

text \<open>The leases in insertion order; a cursor is read as a whole.\<close>

definition lease_list :: "('z) world_scheme \<Rightarrow> lease_doc list" where
  "lease_list w = List.map_filter (\<lambda>i. map_option (Pair i) (w_sandboxLeases w i)) (w_sandboxIds w)"

definition expires_le :: "lease_doc \<Rightarrow> lease_doc \<Rightarrow> bool" where
  "expires_le a b \<longleftrightarrow> sl_expiresAt (snd a) < sl_expiresAt (snd b) \<or>
     (sl_expiresAt (snd a) = sl_expiresAt (snd b) \<and> text_le (fst a) (fst b))"

definition findExpired :: "sandbox_state \<Rightarrow> time \<Rightarrow> nat \<Rightarrow> (('z) world_scheme, js_error, lease_doc list) comp" where
  "findExpired state before limit = find_doc (\<lambda>w. take limit (sort_by expires_le
     (filter (\<lambda>d. sl_state (snd d) = state \<and> sl_expiresAt (snd d) \<le> before) (lease_list w))))"

section \<open>sandbox/WorkspaceQuotaLock.ts\<close>

record quota_lock =
  ql_ttlMs :: nat
  ql_waitMs :: int
  ql_uuid :: "nat \<Rightarrow> string"

text \<open>A guard is the key and the token; the flag \<open>lost\<close> of the closure is \<open>w_quotaLost\<close>.\<close>

definition unavailable :: "string \<Rightarrow> js_error" where
  "unavailable msg = sandbox_error ''SANDBOX_SCHEDULER_UNAVAILABLE'' msg True"

definition redis_call :: "string \<Rightarrow> (('z) world_scheme, js_error, 'a) comp \<Rightarrow> (('z) world_scheme, js_error, 'a) comp" where
  "redis_call action f = catch (db_op f) (\<lambda>_. throw (unavailable (''Workspace quota lock '' @ action @ '' failed'')))"

text \<open>\<open>SET key token PX ttl NX\<close>, \<open>GET key\<close> and the release script; an expired entry is absent.\<close>

definition redis_set_nx :: "string \<Rightarrow> string \<Rightarrow> nat \<Rightarrow> (('z) world_scheme, js_error, bool) comp" where
  "redis_set_nx key token ttl = (\<lambda>w.
     if lock_free (w_now w) (w_locks w key)
     then (Inr True, w\<lparr>w_locks := (w_locks w)(key \<mapsto> (token, w_now w + int ttl))\<rparr>) else (Inr False, w))"

definition live_token :: "string \<Rightarrow> ('z) world_scheme \<Rightarrow> string option" where
  "live_token key w = (if lock_free (w_now w) (w_locks w key) then None else map_option fst (w_locks w key))"

definition release_script :: "string \<Rightarrow> string \<Rightarrow> (('z) world_scheme, js_error, unit) comp" where
  "release_script key token = (\<lambda>w. (Inr (),
     if live_token key w = Some token then w\<lparr>w_locks := (w_locks w)(key := None)\<rparr> else w))"

text \<open>Time never goes back.\<close>

definition time_order :: "('z) world_scheme \<Rightarrow> 'z world_scheme \<Rightarrow> bool" where
  "time_order w w' \<longleftrightarrow> w_now w \<le> w_now w'"

lemma env_time: "w_now w \<le> w_now (env_apply e w)"
  by (cases e) (auto split: option.split)

interpretation time: store_order "time_order :: ('z) world_scheme \<Rightarrow> 'z world_scheme \<Rightarrow> bool"
  by unfold_locales (auto simp: time_order_def env_time)

lemma redis_call_order:
  assumes "store_order R" "resp R f" shows "resp R (redis_call action f)"
proof -
  have order: "effect_order R" using assms(1) by (rule store_order.axioms)
  show ?thesis
    unfolding redis_call_def
    by (intro effect_order.resp_catch [OF order] store_order.resp_db_op [OF assms] effect_order.resp_throw [OF order])
qed

text \<open>The loop that takes the lock; each pass in vain lets at least a millisecond pass.\<close>

lemma seq_run_cong [fundef_cong]:
  "s = s' \<Longrightarrow> m s' = m' s' \<Longrightarrow> (\<And>a t. m' s' = (Inr a, t) \<Longrightarrow> k a t = k' a t) \<Longrightarrow> seq m k s = seq m' k' s'"
  by (cases "m' s'") (auto simp: seq_def split: sum.split)

function acquire_loop :: "string \<Rightarrow> string \<Rightarrow> nat \<Rightarrow> time \<Rightarrow> (('z) world_scheme, js_error, bool) comp" where
  "acquire_loop key token ttl deadline w =
     (if deadline < w_now w then (Inr False, w)
      else seq (redis_call ''acquire'' (redis_set_nx key token ttl)) (\<lambda>ok t.
           if ok then (Inr True, t)
           else seq (reads (\<lambda>w. min 25 (max 1 (deadline - w_now w)))) (\<lambda>ms.
                seq (sleep_ms ms) (\<lambda>_ u. acquire_loop key token ttl deadline u)) t) w)"
  by pat_completeness auto

termination
proof (relation "measure (\<lambda>(key, token, ttl, deadline, w). nat (deadline + 1 - w_now w))")
  fix key token ttl and deadline :: time and w :: "'a world_scheme" and ok t ms t1 u t2
  assume "\<not> deadline < w_now w" and call: "redis_call ''acquire'' (redis_set_nx key token ttl) w = (Inr ok, t)"
    and ms: "reads (\<lambda>w. min 25 (max 1 (deadline - w_now w))) t = (Inr ms, t1)"
    and sleep: "sleep_ms ms t1 = (Inr u, t2)"
  have "resp time_order (redis_call ''acquire'' (redis_set_nx key token ttl) :: ('a world_scheme, js_error, bool) comp)"
    by (rule redis_call_order [OF time.store_order_axioms])
       (auto simp: resp_def redis_set_nx_def time_order_def)
  then have "w_now w \<le> w_now t" using call by (auto dest: respD simp: time_order_def)
  moreover have "t1 = t" "ms = min 25 (max 1 (deadline - w_now t))" using ms by (auto simp: reads_def)
  moreover have "w_now t2 = w_now t1 + int (nat ms)" using sleep by (auto simp: sleep_ms_def modify_def)
  ultimately show "((key, token, ttl, deadline, t2), (key, token, ttl, deadline, w)) \<in>
      measure (\<lambda>(key, token, ttl, deadline, w). nat (deadline + 1 - w_now w))"
    using \<open>\<not> deadline < w_now w\<close> by auto
qed simp

declare acquire_loop.simps [simp del]

record quota_guard =
  qg_key :: string
  qg_token :: string

definition assertQuotaHeld :: "quota_guard \<Rightarrow> (('z) world_scheme, js_error, unit) comp" where
  "assertQuotaHeld g =
     seq (reads w_quotaLost) (\<lambda>lost.
     if lost then throw (unavailable ''Workspace quota lock was lost'')
     else seq (redis_call ''verify'' (reads (live_token (qg_key g)))) (\<lambda>current.
       if current \<noteq> Some (qg_token g)
       then seq (modify (\<lambda>w. w\<lparr>w_quotaLost := True\<rparr>)) (\<lambda>_. throw (unavailable ''Workspace quota lock was lost''))
       else ret ()))"

definition sandbox_errors_only :: "(('z) world_scheme, js_error, 'a) comp \<Rightarrow> (('z) world_scheme, js_error, 'a) comp" where
  "sandbox_errors_only m = catch m (\<lambda>e. if isSandboxError e then throw e
     else throw (unavailable ''Workspace quota scheduler is unavailable''))"

definition release_lock :: "quota_guard \<Rightarrow> (('z) world_scheme, js_error, unit) comp" where
  "release_lock g = catch (db_op (release_script (qg_key g) (qg_token g))) (\<lambda>_. ret ())"

definition quota_key :: "object_id \<Rightarrow> string" where
  "quota_key workspaceId = ''sandbox-quota:'' @ workspaceId"

definition with_token :: "quota_lock \<Rightarrow> string \<Rightarrow> (quota_guard \<Rightarrow> (('z) world_scheme, js_error, 'a) comp) \<Rightarrow> string \<Rightarrow>
    (('z) world_scheme, js_error, 'a) comp" where
  "with_token lk key callback token =
     seq Date_now (\<lambda>start.
     seq (sandbox_errors_only (acquire_loop key token (ql_ttlMs lk) (start + ql_waitMs lk))) (\<lambda>acquired.
     if \<not> acquired then throw (unavailable ''Workspace quota lock timed out'')
     else let g = \<lparr>qg_key = key, qg_token = token\<rparr>
          in finally_do
               (sandbox_errors_only (seq (modify (\<lambda>w. w\<lparr>w_quotaLost := False\<rparr>)) (\<lambda>_. callback g)))
               (release_lock g)))"

definition withLock :: "quota_lock \<Rightarrow> object_id \<Rightarrow> (quota_guard \<Rightarrow> (('z) world_scheme, js_error, 'a) comp) \<Rightarrow>
    (('z) world_scheme, js_error, 'a) comp" where
  "withLock lk workspaceId callback =
     seq (fresh_text (ql_uuid lk)) (with_token lk (quota_key workspaceId) callback)"

section \<open>sandbox/QuotaScheduler.ts\<close>

record reservation_request =
  rq_workspaceId :: object_id
  rq_projectId :: object_id
  rq_branchId :: object_id
  rq_requestedByUserId :: object_id
  rq_runId :: "object_id option"
  rq_snapshotId :: "object_id option"
  rq_sourceArtifact :: "string \<times> source_kind"
  rq_purpose :: sandbox_purpose
  rq_provider :: string
  rq_provisioningKey :: string
  rq_spec :: lease_spec
  rq_resourceProfile :: resource_profile
  rq_expiresAt :: time

definition reservation_record :: "reservation_request \<Rightarrow> time \<Rightarrow> sandbox_lease" where
  "reservation_record rq now = \<lparr>sl_workspaceId = rq_workspaceId rq, sl_projectId = rq_projectId rq,
     sl_branchId = rq_branchId rq, sl_requestedByUserId = rq_requestedByUserId rq, sl_runId = rq_runId rq,
     sl_snapshotId = rq_snapshotId rq, sl_sourceArtifact = rq_sourceArtifact rq, sl_purpose = rq_purpose rq,
     sl_provider = rq_provider rq, sl_provisioningKey = rq_provisioningKey rq, sl_externalId = None,
     sl_state = SReserved, sl_spec = rq_spec rq, sl_resourceProfile = rq_resourceProfile rq, sl_reservedAt = now,
     sl_readyAt = None, sl_lastHeartbeatAt = None, sl_expiresAt = rq_expiresAt rq, sl_terminatedAt = None,
     sl_error = None, sl_updatedAt = 0\<rparr>"

definition assertRequestShape :: "reservation_request \<Rightarrow> js_error + unit" where
  "assertRequestShape rq =
     check (\<not> ((rq_purpose rq = BuildSandbox \<and> rq_runId rq = None) \<or>
        (rq_purpose rq = PreviewSandbox \<and>
          (rq_snapshotId rq = None \<or> snd (rq_sourceArtifact rq) \<noteq> SourceSnapshot))))
       (denied ''Sandbox reservation does not match its purpose'')"

text \<open>A sum over the leases that occupy resources.\<close>

definition lease_sum :: "(sandbox_lease \<Rightarrow> 'a::comm_monoid_add) \<Rightarrow> ('z) world_scheme \<Rightarrow> 'a" where
  "lease_sum f w = sum_list (map (\<lambda>i. case w_sandboxLeases w i of None \<Rightarrow> 0
     | Some l \<Rightarrow> if occupying l then f l else 0) (w_sandboxIds w))"

definition project_count :: "object_id \<Rightarrow> sandbox_purpose \<Rightarrow> ('z) world_scheme \<Rightarrow> nat" where
  "project_count p purpose = lease_sum (\<lambda>l. if sl_projectId l = p \<and> sl_purpose l = purpose then 1 else 0)"

definition workspace_count :: "object_id \<Rightarrow> sandbox_purpose \<Rightarrow> ('z) world_scheme \<Rightarrow> nat" where
  "workspace_count ws purpose = lease_sum (\<lambda>l. if sl_workspaceId l = ws \<and> sl_purpose l = purpose then 1 else 0)"

definition workspace_cpu :: "object_id \<Rightarrow> ('z) world_scheme \<Rightarrow> rat" where
  "workspace_cpu ws = lease_sum (\<lambda>l. if sl_workspaceId l = ws then rp_cpu (sl_resourceProfile l) else 0)"

definition workspace_memory :: "object_id \<Rightarrow> ('z) world_scheme \<Rightarrow> int" where
  "workspace_memory ws = lease_sum (\<lambda>l. if sl_workspaceId l = ws then rp_memoryMiB (sl_resourceProfile l) else 0)"

definition workspace_disk :: "object_id \<Rightarrow> ('z) world_scheme \<Rightarrow> int" where
  "workspace_disk ws = lease_sum (\<lambda>l. if sl_workspaceId l = ws then rp_diskMiB (sl_resourceProfile l) else 0)"

record workspace_usage =
  us_count :: nat
  us_cpu :: rat
  us_memoryMiB :: int
  us_diskMiB :: int

definition usage_of :: "object_id \<Rightarrow> sandbox_purpose \<Rightarrow> ('z) world_scheme \<Rightarrow> workspace_usage" where
  "usage_of ws purpose w = \<lparr>us_count = workspace_count ws purpose w, us_cpu = workspace_cpu ws w,
     us_memoryMiB = workspace_memory ws w, us_diskMiB = workspace_disk ws w\<rparr>"

fun project_limit :: "project \<Rightarrow> sandbox_purpose \<Rightarrow> nat" where
  "project_limit p BuildSandbox = pr_maxConcurrentBuilds p"
| "project_limit p PreviewSandbox = pr_maxRunningPreviews p"

fun workspace_limit :: "workspace \<Rightarrow> sandbox_purpose \<Rightarrow> nat" where
  "workspace_limit k BuildSandbox = xl_maxConcurrentBuilds (wk_executionLimits k)"
| "workspace_limit k PreviewSandbox = xl_maxRunningPreviews (wk_executionLimits k)"

definition exceeds_quota :: "reservation_request \<Rightarrow> project \<Rightarrow> workspace \<Rightarrow> nat \<Rightarrow> workspace_usage \<Rightarrow> bool" where
  "exceeds_quota rq p k projectCount u \<longleftrightarrow>
     project_limit p (rq_purpose rq) < projectCount + 1 \<or>
     workspace_limit k (rq_purpose rq) < us_count u + 1 \<or>
     xl_maxCpu (wk_executionLimits k) < us_cpu u + rp_cpu (rq_resourceProfile rq) \<or>
     xl_maxMemoryMiB (wk_executionLimits k) < us_memoryMiB u + rp_memoryMiB (rq_resourceProfile rq) \<or>
     xl_maxDiskMiB (wk_executionLimits k) < us_diskMiB u + rp_diskMiB (rq_resourceProfile rq)"

definition scope_accessible :: "reservation_request \<Rightarrow> workspace \<Rightarrow> project \<Rightarrow> project_branch \<Rightarrow> bool \<Rightarrow> bool" where
  "scope_accessible rq k p b member \<longleftrightarrow>
     wk_active k \<and> pr_workspaceId p = Some (rq_workspaceId rq) \<and> br_status b = BranchActive \<and>
     br_workspaceId b = rq_workspaceId rq \<and> br_projectId b = rq_projectId rq \<and>
     (member \<or> pr_userId p = rq_requestedByUserId rq)"

definition branch_busy :: js_error where
  "branch_busy = sandbox_error ''SANDBOX_BRANCH_BUSY'' ''Branch already has an active Build Sandbox'' False"

text \<open>The documents the scope check reads.\<close>

definition read_scope :: "reservation_request \<Rightarrow> (('z) world_scheme, js_error, workspace \<times> project) comp" where
  "read_scope rq =
     seq (find_doc (\<lambda>w. w_workspaces w (rq_workspaceId rq))) (\<lambda>workspace.
     seq (find_doc (\<lambda>w. w_projects w (rq_projectId rq))) (\<lambda>project.
     seq (find_doc (\<lambda>w. w_branches w (rq_branchId rq))) (\<lambda>branch.
     seq (find_doc (\<lambda>w. (rq_workspaceId rq, rq_requestedByUserId rq) \<in> set (w_members w))) (\<lambda>membership.
     (case (workspace, project, branch) of
        (Some k, Some p, Some b) \<Rightarrow>
          if scope_accessible rq k p b membership then ret (k, p)
          else throw (denied ''Sandbox reservation scope is not accessible'')
      | _ \<Rightarrow> throw (denied ''Sandbox reservation scope is not accessible''))))))"

definition reserve_new :: "quota_guard \<Rightarrow> reservation_request \<Rightarrow> sandbox_lease \<Rightarrow> workspace \<Rightarrow> project \<Rightarrow>
    (('z) world_scheme, js_error, lease_doc) comp" where
  "reserve_new g rq rec k p =
     seq (if rq_purpose rq = BuildSandbox
          then seq (find_doc (lease_find (\<lambda>l. sl_branchId l = rq_branchId rq \<and> sl_purpose l = BuildSandbox \<and> occupying l)))
                 (\<lambda>busy. if busy \<noteq> None then throw branch_busy else ret ())
          else ret ()) (\<lambda>_.
     seq (find_doc (project_count (rq_projectId rq) (rq_purpose rq))) (\<lambda>projectCount.
     seq (find_doc (usage_of (rq_workspaceId rq) (rq_purpose rq))) (\<lambda>u.
     if exceeds_quota rq p k projectCount u
     then throw (sandbox_error ''SANDBOX_QUOTA_EXCEEDED'' ''Sandbox reservation exceeds configured quota'' False)
     else seq (assertQuotaHeld g) (\<lambda>_.
          catch (createReserved rec) (\<lambda>e. if isDuplicateKey e then throw branch_busy else throw e)))))"

definition reserve_locked :: "reservation_request \<Rightarrow> quota_guard \<Rightarrow> (('z) world_scheme, js_error, lease_doc) comp" where
  "reserve_locked rq g =
     seq (lift_result (assertRequestShape rq)) (\<lambda>_.
     seq Date_now (\<lambda>now.
     seq (read_scope rq) (\<lambda>(k, p).
     seq (findByProvisioningKey (rq_provisioningKey rq)) (\<lambda>existing.
     if existing \<noteq> None then createReserved (reservation_record rq now)
     else reserve_new g rq (reservation_record rq now) k p))))"

definition reserve :: "quota_lock \<Rightarrow> reservation_request \<Rightarrow> (('z) world_scheme, js_error, lease_doc) comp" where
  "reserve lk rq = withLock lk (rq_workspaceId rq) (reserve_locked rq)"

section \<open>The life of a lease\<close>

text \<open>What a lease keeps from its reservation on, and the states that can follow a state.\<close>

definition lease_identity :: "sandbox_lease \<Rightarrow> sandbox_lease \<times> time \<times> time" where
  "lease_identity l = (canonicalReservation l, sl_reservedAt l, sl_expiresAt l)"

definition state_reaches :: "sandbox_state \<Rightarrow> sandbox_state \<Rightarrow> bool" where
  "state_reaches = (\<lambda>s t. t \<in> set (SANDBOX_ALLOWED_TRANSITIONS s))\<^sup>*\<^sup>*"

definition lease_step :: "sandbox_lease \<Rightarrow> sandbox_lease \<Rightarrow> bool" where
  "lease_step l l' \<longleftrightarrow> lease_identity l' = lease_identity l \<and> state_reaches (sl_state l) (sl_state l')"

definition leases_kept :: "('z) world_scheme \<Rightarrow> 'z world_scheme \<Rightarrow> bool" where
  "leases_kept w w' \<longleftrightarrow> (\<forall>i l. w_sandboxLeases w i = Some l \<longrightarrow>
     (\<exists>l'. w_sandboxLeases w' i = Some l' \<and> lease_step l l'))"

definition leases_wf :: "('z) world_scheme \<Rightarrow> bool" where
  "leases_wf w \<longleftrightarrow> distinct (w_sandboxIds w) \<and> dom (w_sandboxLeases w) = set (w_sandboxIds w) \<and>
     (\<forall>i l. w_sandboxLeases w i = Some l \<longrightarrow> valid_lease l) \<and>
     (\<forall>i j k l. i \<noteq> j \<longrightarrow> w_sandboxLeases w i = Some k \<longrightarrow> w_sandboxLeases w j = Some l \<longrightarrow> \<not> lease_conflict k l)"

definition sandbox_order :: "('z) world_scheme \<Rightarrow> 'z world_scheme \<Rightarrow> bool" where
  "sandbox_order w w' \<longleftrightarrow> leases_kept w w' \<and> (leases_wf w \<longrightarrow> leases_wf w')"

lemma reaches_refl [simp]: "state_reaches s s"
  by (simp add: state_reaches_def)

lemma reaches_step: "t \<in> set (SANDBOX_ALLOWED_TRANSITIONS s) \<Longrightarrow> state_reaches s t"
  by (auto simp: state_reaches_def)

lemma reaches_trans: "state_reaches s t \<Longrightarrow> state_reaches t u \<Longrightarrow> state_reaches s u"
  by (simp add: state_reaches_def)

lemma terminated_final: "state_reaches STerminated t \<Longrightarrow> t = STerminated"
proof -
  assume "state_reaches STerminated t"
  then have "(\<lambda>s t. t \<in> set (SANDBOX_ALLOWED_TRANSITIONS s))\<^sup>*\<^sup>* STerminated t" by (simp add: state_reaches_def)
  then show ?thesis by (cases rule: converse_rtranclpE) auto
qed

lemma lease_step_refl [simp]: "lease_step l l"
  by (simp add: lease_step_def)

lemma lease_step_trans: "lease_step k l \<Longrightarrow> lease_step l m \<Longrightarrow> lease_step k m"
  by (auto simp: lease_step_def intro: reaches_trans)

lemma canonical_fields [simp]:
  "sl_resourceProfile (canonicalReservation l) = sl_resourceProfile l" "sl_spec (canonicalReservation l) = sl_spec l"
  "sl_workspaceId (canonicalReservation l) = sl_workspaceId l" "sl_projectId (canonicalReservation l) = sl_projectId l"
  "sl_branchId (canonicalReservation l) = sl_branchId l" "sl_purpose (canonicalReservation l) = sl_purpose l"
  "sl_provider (canonicalReservation l) = sl_provider l"
  "sl_provisioningKey (canonicalReservation l) = sl_provisioningKey l"
  "sl_sourceArtifact (canonicalReservation l) = sl_sourceArtifact l" "sl_runId (canonicalReservation l) = sl_runId l"
  by (simp_all add: canonicalReservation_def)

lemma identity_fields:
  assumes "lease_identity k = lease_identity l"
  shows "sl_resourceProfile k = sl_resourceProfile l" "sl_spec k = sl_spec l" "sl_workspaceId k = sl_workspaceId l"
    "sl_projectId k = sl_projectId l" "sl_branchId k = sl_branchId l" "sl_purpose k = sl_purpose l"
    "sl_provider k = sl_provider l" "sl_provisioningKey k = sl_provisioningKey l"
    "sl_sourceArtifact k = sl_sourceArtifact l" "sl_runId k = sl_runId l"
proof -
  have *: "canonicalReservation k = canonicalReservation l" using assms by (simp add: lease_identity_def)
  show "sl_resourceProfile k = sl_resourceProfile l" using arg_cong [OF *, of sl_resourceProfile] by simp
  show "sl_spec k = sl_spec l" using arg_cong [OF *, of sl_spec] by simp
  show "sl_workspaceId k = sl_workspaceId l" using arg_cong [OF *, of sl_workspaceId] by simp
  show "sl_projectId k = sl_projectId l" using arg_cong [OF *, of sl_projectId] by simp
  show "sl_branchId k = sl_branchId l" using arg_cong [OF *, of sl_branchId] by simp
  show "sl_purpose k = sl_purpose l" using arg_cong [OF *, of sl_purpose] by simp
  show "sl_provider k = sl_provider l" using arg_cong [OF *, of sl_provider] by simp
  show "sl_provisioningKey k = sl_provisioningKey l" using arg_cong [OF *, of sl_provisioningKey] by simp
  show "sl_sourceArtifact k = sl_sourceArtifact l" using arg_cong [OF *, of sl_sourceArtifact] by simp
  show "sl_runId k = sl_runId l" using arg_cong [OF *, of sl_runId] by simp
qed

lemma valid_lease_identity:
  assumes "lease_identity k = lease_identity l" shows "valid_lease k = valid_lease l"
  by (simp only: valid_lease_def identity_fields [OF assms])

lemma conflict_swap: "lease_conflict k l \<Longrightarrow> lease_conflict l k"
  unfolding lease_conflict_def by (elim disjE conjE) simp_all

lemma conflict_sym: "lease_conflict k l = lease_conflict l k"
  by (blast intro: conflict_swap)

lemma conflict_updated [simp]: "lease_conflict (k\<lparr>sl_updatedAt := t\<rparr>) l = lease_conflict k l"
  by (simp add: lease_conflict_def occupying_def)

lemma leases_wfI:
  "distinct (w_sandboxIds w) \<Longrightarrow> dom (w_sandboxLeases w) = set (w_sandboxIds w) \<Longrightarrow>
   (\<And>i l. w_sandboxLeases w i = Some l \<Longrightarrow> valid_lease l) \<Longrightarrow>
   (\<And>i j k l. i \<noteq> j \<Longrightarrow> w_sandboxLeases w i = Some k \<Longrightarrow> w_sandboxLeases w j = Some l \<Longrightarrow> \<not> lease_conflict k l) \<Longrightarrow>
   leases_wf w"
  by (simp add: leases_wf_def)

lemma leases_wfD:
  assumes "leases_wf w"
  shows "distinct (w_sandboxIds w)" "dom (w_sandboxLeases w) = set (w_sandboxIds w)"
    "\<And>i l. w_sandboxLeases w i = Some l \<Longrightarrow> valid_lease l"
    "\<And>i j k l. i \<noteq> j \<Longrightarrow> w_sandboxLeases w i = Some k \<Longrightarrow> w_sandboxLeases w j = Some l \<Longrightarrow> \<not> lease_conflict k l"
  using assms by (simp_all add: leases_wf_def)

lemma index_freeD:
  assumes "leases_wf w" "index_free (w_sandboxIds w) (w_sandboxLeases w) i l"
    "w_sandboxLeases w j = Some d" "j \<noteq> i"
  shows "\<not> lease_conflict l d" "\<not> lease_conflict d l"
proof -
  have "j \<in> set (w_sandboxIds w)" using leases_wfD(2) [OF assms(1)] assms(3) by blast
  then show "\<not> lease_conflict l d" using assms(2-4) by (fastforce simp: index_free_def list_all_iff)
  then show "\<not> lease_conflict d l" by (blast intro: conflict_swap)
qed

text \<open>One document is written at an id where the indexes are free.\<close>

lemma leases_wf_write:
  assumes wf: "leases_wf w" and free: "index_free (w_sandboxIds w) (w_sandboxLeases w) i l'" and v: "valid_lease l'"
    and docs: "w_sandboxLeases w' = (w_sandboxLeases w)(i \<mapsto> l')"
    and ids: "distinct (w_sandboxIds w')" "set (w_sandboxIds w') = insert i (set (w_sandboxIds w))"
  shows "leases_wf w'"
proof (rule leases_wfI)
  show "dom (w_sandboxLeases w') = set (w_sandboxIds w')"
    using leases_wfD(2) [OF wf] docs ids by simp
  show "valid_lease l" if "w_sandboxLeases w' j = Some l" for j l
    using that docs v leases_wfD(3) [OF wf] by (cases "j = i") auto
  show "\<not> lease_conflict k l" if "j \<noteq> j'" "w_sandboxLeases w' j = Some k" "w_sandboxLeases w' j' = Some l" for j j' k l
    using that docs index_freeD [OF wf free] leases_wfD(4) [OF wf]
    by (cases "j = i"; cases "j' = i") (auto simp del: not_Some_eq)
qed (rule ids(1))

lemma leases_wf_update:
  assumes "leases_wf w" "w_sandboxLeases w i = Some l" "lease_identity l' = lease_identity l"
    "index_free (w_sandboxIds w) (w_sandboxLeases w) i l'"
  shows "leases_wf (w\<lparr>w_sandboxLeases := (w_sandboxLeases w)(i \<mapsto> l')\<rparr>)"
proof (rule leases_wf_write [OF assms(1,4)])
  show "valid_lease l'"
    using leases_wfD(3) [OF assms(1,2)] valid_lease_identity [OF assms(3)] by simp
  have "i \<in> set (w_sandboxIds w)" using leases_wfD(2) [OF assms(1)] assms(2) by blast
  then show "set (w_sandboxIds (w\<lparr>w_sandboxLeases := (w_sandboxLeases w)(i \<mapsto> l')\<rparr>)) = insert i (set (w_sandboxIds w))"
    by (simp add: insert_absorb)
qed (use leases_wfD(1) [OF assms(1)] in simp_all)

lemma leases_wf_insert:
  assumes "leases_wf w" "w_sandboxLeases w i = None" "valid_lease l" "index_free (w_sandboxIds w) (w_sandboxLeases w) i l"
  shows "leases_wf (w\<lparr>w_sandboxLeases := (w_sandboxLeases w)(i \<mapsto> l), w_sandboxIds := w_sandboxIds w @ [i]\<rparr>)"
proof (rule leases_wf_write [OF assms(1,4,3)])
  have "i \<notin> set (w_sandboxIds w)" using leases_wfD(2) [OF assms(1)] assms(2) by blast
  then show "distinct (w_sandboxIds (w\<lparr>w_sandboxLeases := (w_sandboxLeases w)(i \<mapsto> l), w_sandboxIds := w_sandboxIds w @ [i]\<rparr>))"
    using leases_wfD(1) [OF assms(1)] by simp
qed simp_all

lemma kept_update:
  "w_sandboxLeases w i = Some l \<Longrightarrow> lease_step l l' \<Longrightarrow>
     leases_kept w (w\<lparr>w_sandboxLeases := (w_sandboxLeases w)(i \<mapsto> l')\<rparr>)"
  by (auto simp: leases_kept_def)

lemma sandbox_order_refl: "sandbox_order w w"
  by (auto simp: sandbox_order_def leases_kept_def)

lemma leases_kept_trans:
  assumes "leases_kept w w'" "leases_kept w' w''"
  shows "leases_kept w w''"
  unfolding leases_kept_def
proof (intro allI impI)
  fix i l assume "w_sandboxLeases w i = Some l"
  with assms(1) obtain l' where l': "w_sandboxLeases w' i = Some l'" "lease_step l l'"
    unfolding leases_kept_def by blast
  with assms(2) obtain l'' where "w_sandboxLeases w'' i = Some l''" "lease_step l' l''"
    unfolding leases_kept_def by blast
  with l' show "\<exists>l''. w_sandboxLeases w'' i = Some l'' \<and> lease_step l l''" by (blast intro: lease_step_trans)
qed

lemma sandbox_order_trans: "sandbox_order w w' \<Longrightarrow> sandbox_order w' w'' \<Longrightarrow> sandbox_order w w''"
  unfolding sandbox_order_def by (blast intro: leases_kept_trans)

lemma sandbox_order_same [simp]:
  "w_sandboxLeases w' = w_sandboxLeases w \<Longrightarrow> w_sandboxIds w' = w_sandboxIds w \<Longrightarrow> sandbox_order w w'"
  by (auto simp: sandbox_order_def leases_kept_def leases_wf_def)

lemma sandbox_order_update:
  assumes "w_sandboxLeases w i = Some l" "lease_step l l'" "index_free (w_sandboxIds w) (w_sandboxLeases w) i l'"
  shows "sandbox_order w (w\<lparr>w_sandboxLeases := (w_sandboxLeases w)(i \<mapsto> l')\<rparr>)"
  using assms leases_wf_update [of w i l l'] kept_update [of w i l l'] by (auto simp: sandbox_order_def lease_step_def)

lemma sandbox_order_insert:
  assumes "w_sandboxLeases w i = None" "valid_lease l" "index_free (w_sandboxIds w) (w_sandboxLeases w) i l"
  shows "sandbox_order w (w\<lparr>w_sandboxLeases := (w_sandboxLeases w)(i \<mapsto> l), w_sandboxIds := w_sandboxIds w @ [i]\<rparr>)"
  using assms leases_wf_insert [of w i l] by (auto simp: sandbox_order_def leases_kept_def)

lemma step_moved:
  "t \<in> set (SANDBOX_ALLOWED_TRANSITIONS (sl_state l)) \<Longrightarrow> lease_step l (l\<lparr>sl_state := t, sl_updatedAt := n\<rparr>)"
  by (simp add: lease_step_def lease_identity_def canonicalReservation_def reaches_step)

lemma index_free_updated [simp]: "index_free ids docs i (l\<lparr>sl_updatedAt := t\<rparr>) = index_free ids docs i l"
  by (auto simp: index_free_def list_all_iff split: option.splits)

text \<open>A heartbeat changes two time stamps that no index mentions.\<close>

lemma sandbox_order_beat:
  assumes "w_sandboxLeases w i = Some l"
  shows "sandbox_order w (w\<lparr>w_sandboxLeases := (w_sandboxLeases w)(i \<mapsto> l\<lparr>sl_lastHeartbeatAt := t, sl_updatedAt := u\<rparr>)\<rparr>)"
proof -
  let ?l = "l\<lparr>sl_lastHeartbeatAt := t, sl_updatedAt := u\<rparr>"
  have step: "lease_step l ?l" by (simp add: lease_step_def lease_identity_def canonicalReservation_def)
  have same: "lease_conflict (l\<lparr>sl_lastHeartbeatAt := t\<rparr>) d = lease_conflict l d" for d by (simp add: lease_conflict_def occupying_def)
  have "leases_wf (w\<lparr>w_sandboxLeases := (w_sandboxLeases w)(i \<mapsto> ?l)\<rparr>)" if wf: "leases_wf w"
  proof (rule leases_wf_update [OF wf assms])
    show "lease_identity ?l = lease_identity l" using step by (simp add: lease_step_def)
    have "\<not> lease_conflict l d" if "w_sandboxLeases w j = Some d" "j \<noteq> i" for j d
      using leases_wfD(4) [OF wf _ assms that(1)] that(2) by blast
    then show "index_free (w_sandboxIds w) (w_sandboxLeases w) i ?l"
      by (auto simp: index_free_def list_all_iff same split: option.split)
  qed
  then show ?thesis using kept_update [OF assms step] by (simp add: sandbox_order_def)
qed

interpretation sandbox: store_order "sandbox_order :: ('z) world_scheme \<Rightarrow> 'z world_scheme \<Rightarrow> bool"
proof unfold_locales
  fix w :: "'z world_scheme" and e
  show "sandbox_order w (env_apply e w)"
  proof (cases e)
    case (EnvSandboxState i st)
    have "lease_step l (l\<lparr>sl_state := st, sl_updatedAt := w_now w\<rparr>)"
      "index_free ids docs i (l\<lparr>sl_state := st, sl_updatedAt := w_now w\<rparr>) = index_free ids docs i (l\<lparr>sl_state := st\<rparr>)"
      if "st \<in> set (SANDBOX_ALLOWED_TRANSITIONS (sl_state l))" for l ids docs
      using that step_moved index_free_updated [where l = "l\<lparr>sl_state := st\<rparr>"] by simp_all
    then show ?thesis
      using EnvSandboxState
      by (auto simp: sandbox_order_refl intro!: sandbox_order_update split: option.split)
  next
    case (EnvSandboxBeat i)
    have "sandbox_order w (w\<lparr>w_sandboxLeases := (w_sandboxLeases w)(i \<mapsto>
        l\<lparr>sl_lastHeartbeatAt := Some (w_now w), sl_updatedAt := w_now w\<rparr>)\<rparr>)"
      if "w_sandboxLeases w i = Some l" for l
      by (rule sandbox_order_beat [OF that])
    then show ?thesis using EnvSandboxBeat by (auto simp: sandbox_order_refl split: option.split)
  next
    case (EnvSandboxCreate i l)
    then show ?thesis
      by (auto simp: sandbox_order_refl intro!: sandbox_order_insert split: option.split)
  qed (auto split: option.split)
qed (auto simp: sandbox_order_refl intro: sandbox_order_trans)

lemma set_lease_order:
  assumes "\<And>l n. p l \<Longrightarrow> lease_step l ((f l)\<lparr>sl_updatedAt := n\<rparr>)"
  shows "resp sandbox_order (set_lease i p f)"
  using assms by (auto simp: resp_def set_lease_def Let_def sandbox_order_refl intro!: sandbox_order_update split: option.split)

lemma update_lease_order:
  "(\<And>l n. p l \<Longrightarrow> lease_step l ((f l)\<lparr>sl_updatedAt := n\<rparr>)) \<Longrightarrow> resp sandbox_order (update_lease i p f)"
  unfolding update_lease_def by (intro sandbox.resp_db_op set_lease_order)

lemma valid_lease_updated [simp]:
  "valid_lease (l\<lparr>sl_updatedAt := t\<rparr>) = valid_lease l" "valid_lease (l\<lparr>sl_state := s\<rparr>) = valid_lease l"
  by (simp_all add: valid_lease_def)

lemma insert_lease_order: "valid_lease l \<Longrightarrow> resp sandbox_order (insert_lease l)"
  unfolding resp_def
proof
  fix w :: "'z world_scheme" assume v: "valid_lease l"
  let ?i = "fresh_id w" and ?d = "l\<lparr>sl_updatedAt := w_now w\<rparr>"
  let ?w = "w\<lparr>w_sandboxLeases := (w_sandboxLeases w)(?i \<mapsto> ?d), w_sandboxIds := w_sandboxIds w @ [?i]\<rparr>"
  have "sandbox_order w ?w" if "w_sandboxLeases w ?i = None" "index_free (w_sandboxIds w) (w_sandboxLeases w) ?i ?d"
    using that v by (intro sandbox_order_insert) simp_all
  moreover have "sandbox_order ?w (?w\<lparr>w_nextId := w_nextId w + 1\<rparr>)" by simp
  ultimately show "sandbox_order w (snd (insert_lease l w))"
    by (auto simp: insert_lease_def Let_def sandbox_order_refl simp del: index_free_updated intro: sandbox_order_trans)
qed

text \<open>Fields that change after the reservation.\<close>

definition keeps_identity :: "(sandbox_lease \<Rightarrow> sandbox_lease) \<Rightarrow> bool" where
  "keeps_identity f \<longleftrightarrow> (\<forall>l. lease_identity (f l) = lease_identity l)"

lemma keeps_identity_fields [simp]:
  "keeps_identity (\<lambda>l. l)" "keeps_identity (\<lambda>l. l\<lparr>sl_readyAt := a, sl_lastHeartbeatAt := b\<rparr>)"
  "keeps_identity (\<lambda>l. l\<lparr>sl_lastHeartbeatAt := b\<rparr>)" "keeps_identity (\<lambda>l. l\<lparr>sl_terminatedAt := a\<rparr>)"
  "keeps_identity (\<lambda>l. l\<lparr>sl_error := e\<rparr>)" "keeps_identity (\<lambda>l. l\<lparr>sl_externalId := x\<rparr>)"
  by (simp_all add: keeps_identity_def lease_identity_def canonicalReservation_def)

lemma identity_updated [simp]:
  "lease_identity (l\<lparr>sl_updatedAt := t\<rparr>) = lease_identity l" "lease_identity (l\<lparr>sl_state := s\<rparr>) = lease_identity l"
  by (simp_all add: lease_identity_def canonicalReservation_def)

lemma step_same_state:
  "keeps_identity f \<Longrightarrow> sl_state (f l) = sl_state l \<Longrightarrow> lease_step l ((f l)\<lparr>sl_updatedAt := t\<rparr>)"
  by (simp add: lease_step_def keeps_identity_def)

lemma step_to_state:
  "keeps_identity f \<Longrightarrow> t \<in> set (SANDBOX_ALLOWED_TRANSITIONS (sl_state l)) \<Longrightarrow>
     lease_step l ((f l)\<lparr>sl_state := t, sl_updatedAt := n\<rparr>)"
  by (simp add: lease_step_def keeps_identity_def reaches_step)

lemma transition_order: "keeps_identity f \<Longrightarrow> resp sandbox_order (transition i sources target f)"
  unfolding transition_def
  by (intro sandbox.resp_rules update_lease_order) (auto simp: list_ex_iff intro: step_to_state)

lemma field_updates_order:
  "resp sandbox_order (claimProvisioning i a b)" "resp sandbox_order (heartbeatRunning i pr x c)"
  "resp sandbox_order (bindExternalId i pr x)" "resp sandbox_order (clearExternalId i pr x)"
  unfolding claimProvisioning_def heartbeatRunning_def bindExternalId_def clearExternalId_def
  by (intro update_lease_order step_same_state; simp)+

lemma claimStale_order: "resp sandbox_order (claimStaleRunning i pr x c)"
  unfolding claimStaleRunning_def
  by (rule update_lease_order) (use step_to_state [of "\<lambda>l. l" STerminating] in simp)

lemma create_lease_order: "resp sandbox_order (create_lease l)"
  unfolding create_lease_def by (intro sandbox.resp_rules sandbox.resp_db_op insert_lease_order)

lemma finds_order:
  "resp sandbox_order (repo_findById i)" "resp sandbox_order (findByProvisioningKey k)"
  "resp sandbox_order (findByProviderRef a b)" "resp sandbox_order (findExpired st t n)"
  unfolding repo_findById_def findByProvisioningKey_def findByProviderRef_def findExpired_def
  by (rule sandbox.resp_find_doc)+

lemma createReserved_order: "resp sandbox_order (createReserved l)"
  unfolding createReserved_def reuseOrReject_def
  by (intro sandbox.resp_rules sandbox.resp_seq sandbox.resp_catch finds_order create_lease_order)

lemmas repo_order = transition_order field_updates_order claimStale_order finds_order createReserved_order

text \<open>
  A two-state relation that the primitive steps of the lock with one token respect: then so does
  everything under the lock.
\<close>

locale lock_respecting = store_order R
  for R :: "('z) world_scheme \<Rightarrow> 'z world_scheme \<Rightarrow> bool" +
  fixes token :: string
  assumes set_nx: "resp R (redis_set_nx key token ttl)"
    and release: "resp R (release_script key token)"
    and flag: "R w (w\<lparr>w_quotaLost := q\<rparr>)"
begin

lemma acquire_respects: "resp R (acquire_loop key token ttl deadline)"
proof -
  have call: "resp R (redis_call ''acquire'' (redis_set_nx key token ttl))"
    by (rule redis_call_order [OF store_order_axioms set_nx])
  have "R w (snd (acquire_loop key token ttl deadline w))" for w
  proof (induction "nat (deadline + 1 - w_now w)" arbitrary: w rule: less_induct)
    case less
    show ?case
    proof (cases "deadline < w_now w")
      case True
      then show ?thesis by (subst acquire_loop.simps) (simp add: R_refl)
    next
      case False
      show ?thesis
      proof (cases "redis_call ''acquire'' (redis_set_nx key token ttl) w")
        case (Pair r t)
        have t: "R w t" "w_now w \<le> w_now t" using respD [OF call Pair]
          respD [OF redis_call_order [OF time.store_order_axioms] Pair]
          by (auto simp: resp_def redis_set_nx_def time_order_def)
        let ?ms = "min 25 (max 1 (deadline - w_now t))"
        let ?u = "env_apply (EnvTick (nat ?ms)) t"
        have "nat (deadline + 1 - w_now ?u) < nat (deadline + 1 - w_now w)" using False t(2) by auto
        then have "R w (snd (acquire_loop key token ttl deadline ?u))"
          using less t(1) R_env R_trans by blast
        moreover have "acquire_loop key token ttl deadline w =
            (case r of Inl e \<Rightarrow> (Inl e, t) | Inr ok \<Rightarrow> if ok then (Inr True, t) else acquire_loop key token ttl deadline ?u)"
          using False Pair by (subst acquire_loop.simps)
            (simp add: seq_def reads_def sleep_ms_def modify_def split: sum.split)
        ultimately show ?thesis using t(1) by (auto split: sum.split)
      qed
    qed
  qed
  then show ?thesis by (simp add: resp_def)
qed

lemma assertHeld_respects: "resp R (assertQuotaHeld g)"
  unfolding assertQuotaHeld_def
  by (intro resp_rules resp_seq redis_call_order [OF store_order_axioms] resp_modify flag)

lemma with_token_respects:
  "(\<And>g. resp R (callback g)) \<Longrightarrow> resp R (with_token lk key callback token)"
  unfolding with_token_def sandbox_errors_only_def release_lock_def Let_def
  by (intro resp_rules resp_seq resp_catch resp_finally resp_Date_now resp_modify flag acquire_respects
        resp_db_op) (simp_all add: release)

end

interpretation sandbox_lock: lock_respecting "sandbox_order :: ('z) world_scheme \<Rightarrow> 'z world_scheme \<Rightarrow> bool" token for token
  by unfold_locales (auto simp: resp_def redis_set_nx_def release_script_def)

lemma fresh_text_order: "resp sandbox_order (fresh_text f)"
  by (simp add: resp_def fresh_text_def)

lemma reserve_order: "resp sandbox_order (reserve lk rq)"
proof -
  have "resp sandbox_order (reserve_locked rq g)" for g
    unfolding reserve_locked_def read_scope_def reserve_new_def
    by (intro sandbox.resp_rules sandbox.resp_seq sandbox.resp_catch sandbox.resp_find_doc sandbox.resp_Date_now
          repo_order sandbox_lock.assertHeld_respects)
  then show ?thesis
    unfolding reserve_def withLock_def
    by (intro sandbox.resp_seq fresh_text_order sandbox_lock.with_token_respects)
qed

section \<open>Exclusion by the lock\<close>









text \<open>One pass of the loop.\<close>

lemma acquire_pass:
  "acquire_loop key token ttl deadline w =
     (if deadline < w_now w then (Inr False, w)
      else case redis_call ''acquire'' (redis_set_nx key token ttl) w of
        (Inl e, t) \<Rightarrow> (Inl e, t)
      | (Inr ok, t) \<Rightarrow> if ok then (Inr True, t)
          else acquire_loop key token ttl deadline (env_apply (EnvTick (nat (min 25 (max 1 (deadline - w_now t))))) t))"
  by (subst acquire_loop.simps) (simp add: seq_def reads_def sleep_ms_def modify_def split: sum.split prod.split)






text \<open>C29: The lock is live: when nothing else happens and no call fails, the waiting loop takes the lock
  as soon as the entry of the previous holder expires, provided that is no later than its deadline, and the
  entry it stores lives for the configured time.\<close>

theorem quota_lock_live:
  assumes "w_sched w = []" "w_now w \<le> deadline"
    and "w_locks w key = None \<or> (\<exists>t e. w_locks w key = Some (t, e) \<and> e \<le> deadline)"
  shows "\<exists>w'. acquire_loop key token ttl deadline w = (Inr True, w') \<and> w_now w \<le> w_now w' \<and> w_now w' \<le> deadline \<and>
    w_locks w' = (w_locks w)(key \<mapsto> (token, w_now w' + int ttl))"
  using assms
proof (induction "nat (deadline + 1 - w_now w)" arbitrary: w rule: less_induct)
  case less
  show ?case
  proof (cases "lock_free (w_now w) (w_locks w key)")
    case True
    then show ?thesis using less.prems
      by (subst acquire_pass) (simp add: redis_call_def catch_def db_op_idle redis_set_nx_def)
  next
    case False
    then obtain t e where e: "w_locks w key = Some (t, e)" "w_now w < e" "e \<le> deadline"
      using less.prems(3) by (auto simp: lock_free_def split: option.splits)
    let ?ms = "nat (min 25 (max 1 (deadline - w_now w)))"
    let ?v = "env_apply (EnvTick ?ms) w"
    have "int ?ms \<le> deadline - w_now w" "0 < ?ms" using e by auto
    then have "w_now ?v \<le> deadline" "nat (deadline + 1 - w_now ?v) < nat (deadline + 1 - w_now w)" using e by auto
    moreover have "w_sched ?v = []" "w_locks ?v key = None \<or> (\<exists>t e. w_locks ?v key = Some (t, e) \<and> e \<le> deadline)"
      using less.prems by simp_all
    ultimately obtain w' where "acquire_loop key token ttl deadline ?v = (Inr True, w')" "w_now ?v \<le> w_now w'" "w_now w' \<le> deadline"
      "w_locks w' = (w_locks ?v)(key \<mapsto> (token, w_now w' + int ttl))"
      using less.hyps by blast
    moreover have "acquire_loop key token ttl deadline w = acquire_loop key token ttl deadline ?v"
      using less.prems False
      by (subst acquire_pass) (simp add: redis_call_def catch_def db_op_idle redis_set_nx_def)
    moreover have "w_now w \<le> w_now ?v" "w_locks ?v = w_locks w" by simp_all
    ultimately show ?thesis by (metis order_trans)
  qed
qed

section \<open>The quota\<close>

definition within_quota :: "('z) world_scheme \<Rightarrow> bool" where
  "within_quota w \<longleftrightarrow>
     (\<forall>ws k. w_workspaces w ws = Some k \<longrightarrow> (\<forall>pu. workspace_count ws pu w \<le> workspace_limit k pu) \<and>
        workspace_cpu ws w \<le> xl_maxCpu (wk_executionLimits k) \<and>
        workspace_memory ws w \<le> xl_maxMemoryMiB (wk_executionLimits k) \<and>
        workspace_disk ws w \<le> xl_maxDiskMiB (wk_executionLimits k)) \<and>
     (\<forall>p d. w_projects w p = Some d \<longrightarrow> (\<forall>pu. project_count p pu w \<le> project_limit d pu))"

text \<open>Steps of others that reserve nothing and do not bring a failed or lost lease back.\<close>

fun quota_quiet :: "env_step \<Rightarrow> bool" where
  "quota_quiet (EnvSandboxCreate _ _) = False"
| "quota_quiet (EnvSandboxState _ s) = (s \<noteq> STerminating)"
| "quota_quiet _ = True"

lemma lease_sum_same:
  "w_sandboxLeases w' = w_sandboxLeases w \<Longrightarrow> w_sandboxIds w' = w_sandboxIds w \<Longrightarrow> lease_sum f w' = lease_sum f w"
  by (simp add: lease_sum_def)

lemma lease_sum_update:
  fixes f :: "sandbox_lease \<Rightarrow> 'a::ordered_comm_monoid_add"
  assumes "w_sandboxLeases w i = Some l" "occupying l' \<Longrightarrow> occupying l" "f l' = f l" "0 \<le> f l"
  shows "lease_sum f (w\<lparr>w_sandboxLeases := (w_sandboxLeases w)(i \<mapsto> l')\<rparr>) \<le> lease_sum f w"
  unfolding lease_sum_def using assms by (auto intro!: sum_list_mono)

lemma lease_sum_insert:
  assumes "w_sandboxLeases w i = None" "i \<notin> set (w_sandboxIds w)"
    "w_sandboxLeases w' = (w_sandboxLeases w)(i \<mapsto> d)" "w_sandboxIds w' = w_sandboxIds w @ [i]"
  shows "lease_sum f w' = lease_sum f w + (if occupying d then f d else 0)"
proof -
  have "map (\<lambda>j. case ((w_sandboxLeases w)(i \<mapsto> d)) j of None \<Rightarrow> 0 | Some l \<Rightarrow> if occupying l then f l else 0) (w_sandboxIds w) =
      map (\<lambda>j. case w_sandboxLeases w j of None \<Rightarrow> 0 | Some l \<Rightarrow> if occupying l then f l else 0) (w_sandboxIds w)"
    using assms(2) by (intro map_cong) auto
  then show ?thesis
    unfolding lease_sum_def assms(3,4) map_append sum_list_append by (simp only:) simp
qed

definition lighter :: "('z) world_scheme \<Rightarrow> 'z world_scheme \<Rightarrow> bool" where
  "lighter w' w \<longleftrightarrow> (\<forall>p pu. project_count p pu w' \<le> project_count p pu w) \<and>
     (\<forall>ws pu. workspace_count ws pu w' \<le> workspace_count ws pu w) \<and>
     (\<forall>ws. workspace_cpu ws w' \<le> workspace_cpu ws w \<and> workspace_memory ws w' \<le> workspace_memory ws w \<and>
        workspace_disk ws w' \<le> workspace_disk ws w)"

lemmas quota_sums = project_count_def workspace_count_def workspace_cpu_def workspace_memory_def workspace_disk_def

lemma lighter_same:
  assumes "w_sandboxLeases w' = w_sandboxLeases w" "w_sandboxIds w' = w_sandboxIds w" shows "lighter w' w"
  unfolding lighter_def quota_sums lease_sum_same [OF assms] by simp

lemma lighter_update:
  assumes "w_sandboxLeases w i = Some l" "occupying l' \<Longrightarrow> occupying l" "lease_identity l' = lease_identity l" "valid_lease l"
  shows "lighter (w\<lparr>w_sandboxLeases := (w_sandboxLeases w)(i \<mapsto> l')\<rparr>) w"
proof -
  have "0 \<le> rp_cpu (sl_resourceProfile l)" "0 \<le> rp_memoryMiB (sl_resourceProfile l)" "0 \<le> rp_diskMiB (sl_resourceProfile l)"
    using assms(4) by (auto simp: valid_lease_def positiveSafeInteger_def)
  then show ?thesis
    unfolding lighter_def quota_sums
    by (intro conjI allI; intro lease_sum_update [OF assms(1,2)])
       (simp_all add: identity_fields [OF assms(3)])
qed

lemma occupying_back:
  "t \<in> set (SANDBOX_ALLOWED_TRANSITIONS (sl_state l)) \<Longrightarrow> t \<noteq> STerminating \<Longrightarrow>
     t \<in> set OCCUPYING_SANDBOX_STATES \<Longrightarrow> occupying l"
  by (cases "sl_state l") (auto simp: occupying_def OCCUPYING_SANDBOX_STATES_def)

lemma quiet_lighter:
  assumes "quota_quiet e" "leases_wf w"
  shows "lighter (env_apply e w) w"
proof (cases e)
  case (EnvSandboxState i st)
  have "lighter (w\<lparr>w_sandboxLeases := (w_sandboxLeases w)(i \<mapsto> l\<lparr>sl_state := st, sl_updatedAt := n\<rparr>)\<rparr>) w"
    if "w_sandboxLeases w i = Some l" "st \<in> set (SANDBOX_ALLOWED_TRANSITIONS (sl_state l))" for l n
    using that assms EnvSandboxState leases_wfD(3) [OF assms(2) that(1)] occupying_back [OF that(2)]
    by (intro lighter_update [OF that(1)]) (auto simp: occupying_def)
  then show ?thesis using EnvSandboxState by (auto simp: lighter_same split: option.split)
next
  case (EnvSandboxBeat i)
  have "lighter (w\<lparr>w_sandboxLeases := (w_sandboxLeases w)(i \<mapsto> l\<lparr>sl_lastHeartbeatAt := t, sl_updatedAt := n\<rparr>)\<rparr>) w"
    if "w_sandboxLeases w i = Some l" for l t n
    using leases_wfD(3) [OF assms(2) that]
    by (intro lighter_update [OF that]) (auto simp: occupying_def lease_identity_def canonicalReservation_def)
  then show ?thesis using EnvSandboxBeat by (auto simp: lighter_same split: option.split)
qed (use assms in \<open>auto simp: lighter_same split: option.split\<close>)

lemma within_lighter:
  assumes "within_quota w" "lighter w' w" "w_workspaces w' = w_workspaces w" "w_projects w' = w_projects w"
  shows "within_quota w'"
  unfolding within_quota_def
proof (intro conjI allI impI)
  fix p d pu assume "w_projects w' p = Some d"
  then have "project_count p pu w \<le> project_limit d pu" using assms(1,4) by (simp add: within_quota_def)
  moreover have "project_count p pu w' \<le> project_count p pu w" using assms(2) by (simp add: lighter_def)
  ultimately show "project_count p pu w' \<le> project_limit d pu" by (rule order_trans [rotated])
next
  fix ws k assume "w_workspaces w' ws = Some k"
  then have k: "w_workspaces w ws = Some k" using assms(3) by simp
  note limits = assms(1) [unfolded within_quota_def, THEN conjunct1, rule_format, OF k]
  note less = assms(2) [unfolded lighter_def, THEN conjunct2]
  show "workspace_count ws pu w' \<le> workspace_limit k pu" for pu
    using less [THEN conjunct1, rule_format, of ws pu] limits [THEN conjunct1, rule_format, of pu] by (rule order_trans)
  note sums = less [THEN conjunct2, rule_format, of ws]
  show "workspace_cpu ws w' \<le> xl_maxCpu (wk_executionLimits k)"
    using sums [THEN conjunct1] limits [THEN conjunct2, THEN conjunct1] by (rule order_trans)
  show "workspace_memory ws w' \<le> xl_maxMemoryMiB (wk_executionLimits k)"
    using sums [THEN conjunct2, THEN conjunct1] limits [THEN conjunct2, THEN conjunct2, THEN conjunct1] by (rule order_trans)
  show "workspace_disk ws w' \<le> xl_maxDiskMiB (wk_executionLimits k)"
    using sums [THEN conjunct2, THEN conjunct2] limits [THEN conjunct2, THEN conjunct2, THEN conjunct2] by (rule order_trans)
qed

lemma env_keeps_limits: "w_workspaces (env_apply e w) = w_workspaces w" "w_projects (env_apply e w) = w_projects w"
  by (cases e; auto split: option.split)+

definition quota_inv :: "('z) world_scheme \<Rightarrow> bool" where
  "quota_inv w \<longleftrightarrow> leases_wf w \<and> within_quota w"

text \<open>A condition that lighter stores inherit is stable under quiet steps.\<close>

lemma quiet_stable:
  assumes "\<And>w w'. P w \<Longrightarrow> lighter w' w \<Longrightarrow> w_workspaces w' = w_workspaces w \<Longrightarrow> w_projects w' = w_projects w \<Longrightarrow> P w'"
  shows "stable quota_quiet (\<lambda>w. quota_inv w \<and> P w)"
  unfolding stable_def quota_inv_def
proof (intro conjI allI impI)
  fix w :: "'a world_scheme" and e assume e: "quota_quiet e" and w: "(leases_wf w \<and> within_quota w) \<and> P w"
  have l: "lighter (env_apply e w) w" using quiet_lighter e w by blast
  show "leases_wf (env_apply e w)" using sandbox.R_env [of w e] w by (simp add: sandbox_order_def)
  show "within_quota (env_apply e w)" using within_lighter [OF _ l env_keeps_limits] w by blast
  show "P (env_apply e w)" using assms [OF _ l env_keeps_limits] w by blast
next
  fix w :: "'a world_scheme" and sl assume w: "(leases_wf w \<and> within_quota w) \<and> P w"
  have l: "lighter (w\<lparr>w_sched := sl\<rparr>) w" by (rule lighter_same) simp_all
  show "leases_wf (w\<lparr>w_sched := sl\<rparr>)" using w by (simp add: leases_wf_def)
  show "within_quota (w\<lparr>w_sched := sl\<rparr>)" using within_lighter [OF _ l] w by simp
  show "P (w\<lparr>w_sched := sl\<rparr>)" using assms [OF _ l] w by simp
qed

definition inherits :: "(('z) world_scheme \<Rightarrow> bool) \<Rightarrow> bool" where
  "inherits P \<longleftrightarrow> (\<forall>w w'. P w \<longrightarrow> lighter w' w \<longrightarrow> w_workspaces w' = w_workspaces w \<longrightarrow> w_projects w' = w_projects w \<longrightarrow> P w')"

abbreviation quota_and :: "(('z) world_scheme \<Rightarrow> bool) \<Rightarrow> 'z world_scheme \<Rightarrow> bool" where
  "quota_and P \<equiv> (\<lambda>w. quota_inv w \<and> P w)"

text \<open>An atomic call that leaves leases and limits alone.\<close>

definition light_call :: "(('z) world_scheme, 'e, 'a) comp \<Rightarrow> bool" where
  "light_call f \<longleftrightarrow> (\<forall>w. w_sandboxLeases (snd (f w)) = w_sandboxLeases w \<and> w_sandboxIds (snd (f w)) = w_sandboxIds w \<and>
     w_workspaces (snd (f w)) = w_workspaces w \<and> w_projects (snd (f w)) = w_projects w \<and>
     w_sched (snd (f w)) = w_sched w)"

lemma inherits_stable: "inherits P \<Longrightarrow> stable quota_quiet (quota_and P)"
  by (rule quiet_stable) (auto simp: inherits_def)

lemma quota_same:
  assumes "inherits P" "quota_and P w" "w_sandboxLeases w' = w_sandboxLeases w" "w_sandboxIds w' = w_sandboxIds w"
    "w_workspaces w' = w_workspaces w" "w_projects w' = w_projects w"
  shows "quota_and P w'"
proof -
  have "lighter w' w" using assms by (intro lighter_same)
  moreover have "leases_wf w'" using assms by (simp add: quota_inv_def leases_wf_def)
  ultimately show ?thesis using assms within_lighter [of w w'] by (auto simp: quota_inv_def inherits_def)
qed

lemma light_call_keeps: "inherits P \<Longrightarrow> light_call f \<Longrightarrow> quota_and P w \<Longrightarrow> quota_and P (snd (f w))"
  by (rule quota_same) (auto simp: light_call_def)

lemma light_db: "inherits P \<Longrightarrow> light_call f \<Longrightarrow> maintains quota_quiet (quota_and P) (db_op f)"
  using light_call_keeps [of P f]
  by (intro maintains_db_op inherits_stable) (auto simp: light_call_def)

lemma light_keeps: "inherits P \<Longrightarrow> light_call f \<Longrightarrow> maintains quota_quiet (quota_and P) f"
  using light_call_keeps [of P f]
  by (intro maintainsI) (auto simp: light_call_def calm_def)

lemma light_calls:
  "light_call (redis_set_nx k t ttl)" "light_call (release_script k t)" "light_call (reads f)"
  "light_call (modify (\<lambda>w. w\<lparr>w_quotaLost := q\<rparr>))" "light_call (fresh_text g)"
  by (auto simp: light_call_def redis_set_nx_def release_script_def reads_def modify_def fresh_text_def)

lemma redis_call_quota:
  "inherits P \<Longrightarrow> light_call f \<Longrightarrow> maintains quota_quiet (quota_and P) (redis_call action f)"
  unfolding redis_call_def by (intro maintains_catch light_db maintains_throw)

lemma acquire_quota:
  assumes "inherits P"
  shows "maintains quota_quiet (quota_and P) (acquire_loop key token ttl deadline)"
proof (rule maintainsI)
  have call: "maintains quota_quiet (quota_and P) (redis_call ''acquire'' (redis_set_nx key token ttl))"
    by (rule redis_call_quota [OF assms light_calls(1)])
  fix w :: "'a world_scheme" assume "calm quota_quiet w" "quota_and P w"
  then show "quota_and P (snd (acquire_loop key token ttl deadline w)) \<and>
      calm quota_quiet (snd (acquire_loop key token ttl deadline w))"
  proof (induction "nat (deadline + 1 - w_now w)" arbitrary: w rule: less_induct)
    case less
    show ?case
    proof (cases "deadline < w_now w")
      case True
      then show ?thesis using less.prems by (simp add: acquire_pass [of key token ttl deadline w])
    next
      case False
      obtain r t where run: "redis_call ''acquire'' (redis_set_nx key token ttl) w = (r, t)" by fastforce
      have t: "quota_and P t \<and> calm quota_quiet t" by (rule maintainsD [OF call less.prems run])
      have now: "w_now w \<le> w_now t"
        using respD [OF redis_call_order [OF time.store_order_axioms] run]
        by (auto simp: resp_def redis_set_nx_def time_order_def)
      let ?u = "env_apply (EnvTick (nat (min 25 (max 1 (deadline - w_now t))))) t"
      have "nat (deadline + 1 - w_now ?u) < nat (deadline + 1 - w_now w)" using now False by auto
      moreover have "quota_and P ?u" by (rule quota_same [OF assms conjunct1 [OF t]]) simp_all
      moreover have "calm quota_quiet ?u" using t by (simp add: calm_def)
      ultimately have "quota_and P (snd (acquire_loop key token ttl deadline ?u)) \<and>
          calm quota_quiet (snd (acquire_loop key token ttl deadline ?u))" using less.hyps by blast
      then show ?thesis using t run False by (simp add: acquire_pass [of key token ttl deadline w] split: sum.split)
    qed
  qed
qed

lemma inherits_True [simp]: "inherits (\<lambda>_. True)"
  by (simp add: inherits_def)

lemma assertHeld_quota: "inherits P \<Longrightarrow> maintains quota_quiet (quota_and P) (assertQuotaHeld g)"
  unfolding assertQuotaHeld_def
  by (intro maintains_rules maintains_seq redis_call_quota light_keeps light_calls)

lemma with_token_quota:
  assumes "\<And>g. maintains quota_quiet (quota_and (\<lambda>_. True)) (callback g)"
  shows "maintains quota_quiet (quota_and (\<lambda>_. True)) (with_token lk key callback token)"
  unfolding with_token_def sandbox_errors_only_def release_lock_def Date_now_def Let_def
  by (intro maintains_rules maintains_seq maintains_catch maintains_finally assms acquire_quota light_keeps light_db
        light_calls inherits_True)

text \<open>The documents the limits are read from, and the room the count left.\<close>

definition limits_at :: "reservation_request \<Rightarrow> workspace \<Rightarrow> project \<Rightarrow> ('z) world_scheme \<Rightarrow> bool" where
  "limits_at rq k p w \<longleftrightarrow> w_workspaces w (rq_workspaceId rq) = Some k \<and> w_projects w (rq_projectId rq) = Some p"

definition has_room :: "reservation_request \<Rightarrow> workspace \<Rightarrow> project \<Rightarrow> ('z) world_scheme \<Rightarrow> bool" where
  "has_room rq k p w \<longleftrightarrow> limits_at rq k p w \<and>
     project_count (rq_projectId rq) (rq_purpose rq) w + 1 \<le> project_limit p (rq_purpose rq) \<and>
     workspace_count (rq_workspaceId rq) (rq_purpose rq) w + 1 \<le> workspace_limit k (rq_purpose rq) \<and>
     workspace_cpu (rq_workspaceId rq) w + rp_cpu (rq_resourceProfile rq) \<le> xl_maxCpu (wk_executionLimits k) \<and>
     workspace_memory (rq_workspaceId rq) w + rp_memoryMiB (rq_resourceProfile rq) \<le> xl_maxMemoryMiB (wk_executionLimits k) \<and>
     workspace_disk (rq_workspaceId rq) w + rp_diskMiB (rq_resourceProfile rq) \<le> xl_maxDiskMiB (wk_executionLimits k)"

lemma inherits_limits: "inherits (limits_at rq k p)"
  by (simp add: inherits_def limits_at_def)

lemma inherits_room: "inherits (has_room rq k p)"
  unfolding inherits_def
proof (intro allI impI)
  fix w w' :: "'a world_scheme"
  assume w: "has_room rq k p w" and l: "lighter w' w"
    and same: "w_workspaces w' = w_workspaces w" "w_projects w' = w_projects w"
  have "project_count (rq_projectId rq) (rq_purpose rq) w' \<le> project_count (rq_projectId rq) (rq_purpose rq) w"
    "workspace_count (rq_workspaceId rq) (rq_purpose rq) w' \<le> workspace_count (rq_workspaceId rq) (rq_purpose rq) w"
    "workspace_cpu (rq_workspaceId rq) w' \<le> workspace_cpu (rq_workspaceId rq) w"
    "workspace_memory (rq_workspaceId rq) w' \<le> workspace_memory (rq_workspaceId rq) w"
    "workspace_disk (rq_workspaceId rq) w' \<le> workspace_disk (rq_workspaceId rq) w"
    using l by (simp_all add: lighter_def)
  then show "has_room rq k p w'" using w same by (simp add: has_room_def limits_at_def)
qed

text \<open>A lease inserted where there is room keeps the quota.\<close>

definition of_request :: "reservation_request \<Rightarrow> sandbox_lease \<Rightarrow> bool" where
  "of_request rq l \<longleftrightarrow> sl_workspaceId l = rq_workspaceId rq \<and> sl_projectId l = rq_projectId rq \<and>
     sl_purpose l = rq_purpose rq \<and> sl_resourceProfile l = rq_resourceProfile rq \<and> occupying l"

lemma insert_within:
  assumes inv: "quota_inv w" and room: "has_room rq k p w" and l: "of_request rq d"
    and new: "w_sandboxLeases w i = None" "w_sandboxLeases w' = (w_sandboxLeases w)(i \<mapsto> d)"
      "w_sandboxIds w' = w_sandboxIds w @ [i]" "w_workspaces w' = w_workspaces w" "w_projects w' = w_projects w"
  shows "within_quota w'"
proof -
  have "i \<notin> set (w_sandboxIds w)" using leases_wfD(2) [of w] inv new(1) by (auto simp: quota_inv_def)
  note sums = lease_sum_insert [OF new(1) this new(2,3)]
  have sum: "project_count q pu w' = project_count q pu w + (if q = rq_projectId rq \<and> pu = rq_purpose rq then 1 else 0)"
    "workspace_count ws pu w' = workspace_count ws pu w + (if ws = rq_workspaceId rq \<and> pu = rq_purpose rq then 1 else 0)"
    "workspace_cpu ws w' = workspace_cpu ws w + (if ws = rq_workspaceId rq then rp_cpu (rq_resourceProfile rq) else 0)"
    "workspace_memory ws w' = workspace_memory ws w + (if ws = rq_workspaceId rq then rp_memoryMiB (rq_resourceProfile rq) else 0)"
    "workspace_disk ws w' = workspace_disk ws w + (if ws = rq_workspaceId rq then rp_diskMiB (rq_resourceProfile rq) else 0)"
    for q pu ws
    unfolding quota_sums sums using l by (auto simp: of_request_def)
  show ?thesis
    unfolding within_quota_def
  proof (intro conjI allI impI)
    fix ws k' pu assume "w_workspaces w' ws = Some k'"
    then have k': "w_workspaces w ws = Some k'" using new by simp
    have old: "workspace_count ws pu w \<le> workspace_limit k' pu" "workspace_cpu ws w \<le> xl_maxCpu (wk_executionLimits k')"
      "workspace_memory ws w \<le> xl_maxMemoryMiB (wk_executionLimits k')"
      "workspace_disk ws w \<le> xl_maxDiskMiB (wk_executionLimits k')" for pu
      using inv k' by (auto simp: quota_inv_def within_quota_def)
    have "k' = k" if "ws = rq_workspaceId rq" using room k' that by (simp add: has_room_def limits_at_def)
    then show "workspace_count ws pu w' \<le> workspace_limit k' pu" "workspace_cpu ws w' \<le> xl_maxCpu (wk_executionLimits k')"
      "workspace_memory ws w' \<le> xl_maxMemoryMiB (wk_executionLimits k')"
      "workspace_disk ws w' \<le> xl_maxDiskMiB (wk_executionLimits k')"
      using old room by (auto simp: sum has_room_def)
  next
    fix q d' pu assume "w_projects w' q = Some d'"
    then have d': "w_projects w q = Some d'" using new by simp
    then have "project_count q pu w \<le> project_limit d' pu" using inv by (auto simp: quota_inv_def within_quota_def)
    moreover have "d' = p" if "q = rq_projectId rq" using room d' that by (simp add: has_room_def limits_at_def)
    ultimately show "project_count q pu w' \<le> project_limit d' pu" using room by (auto simp: sum has_room_def)
  qed
qed

lemma insert_quota:
  assumes "has_room rq k p w" "quota_inv w" "of_request rq l" "valid_lease l"
  shows "quota_inv (snd (insert_lease l w))"
proof (cases "w_sandboxLeases w (fresh_id w) = None \<and> index_free (w_sandboxIds w) (w_sandboxLeases w) (fresh_id w) (l\<lparr>sl_updatedAt := w_now w\<rparr>)")
  case True
  let ?d = "l\<lparr>sl_updatedAt := w_now w\<rparr>" and ?w = "snd (insert_lease l w)"
  have w: "w_sandboxLeases ?w = (w_sandboxLeases w)(fresh_id w \<mapsto> ?d)" "w_sandboxIds ?w = w_sandboxIds w @ [fresh_id w]"
    "w_workspaces ?w = w_workspaces w" "w_projects ?w = w_projects w"
    using True by (simp_all add: insert_lease_def Let_def)
  have "of_request rq ?d" using assms(3) by (simp add: of_request_def occupying_def)
  then have "within_quota ?w" by (rule insert_within [OF assms(2,1) _ conjunct1 [OF True] w])
  moreover have "leases_wf ?w"
    using respD [OF insert_lease_order [OF assms(4)], of w] assms(2)
    by (cases "insert_lease l w") (auto simp: sandbox_order_def quota_inv_def)
  ultimately show ?thesis by (simp add: quota_inv_def)
next
  case False
  then show ?thesis using assms(2) by (auto simp: insert_lease_def Let_def)
qed

lemma insert_sched: "w_sched (snd (insert_lease l w)) = w_sched w"
  by (simp add: insert_lease_def Let_def)

text \<open>Creating where there is room, and answering with what is there already.\<close>

lemma find_quota: "inherits P \<Longrightarrow> maintains quota_quiet (quota_and P) (find_doc f)"
  by (rule maintains_find [OF inherits_stable])

lemma createReserved_quota:
  assumes "of_request rq (l\<lparr>sl_state := SReserved\<rparr>)"
  shows "triple quota_quiet (quota_and (has_room rq k p)) (createReserved l) (\<lambda>_. quota_inv) (\<lambda>_. quota_inv)"
proof -
  have find: "triple quota_quiet (quota_and P) (findByProvisioningKey key) (\<lambda>_. quota_and P) (\<lambda>_. quota_inv)" if "inherits P" for P key
    using find_quota [OF that] unfolding maintains_def findByProvisioningKey_def by (rule triple_post) auto
  have any: "triple quota_quiet quota_inv (findByProvisioningKey key) (\<lambda>_. quota_inv) (\<lambda>_. quota_inv)" for key
    using find [OF inherits_True] by simp
  have reuse: "triple quota_quiet P (reuseOrReject d l) (\<lambda>_. quota_inv) (\<lambda>_. quota_inv)" if "\<And>w. P w \<Longrightarrow> quota_inv w" for P d
    unfolding reuseOrReject_def using that by (intro triple_if triple_ret triple_throw)
  have create: "triple quota_quiet (quota_and (has_room rq k p)) (create_lease (l\<lparr>sl_state := SReserved\<rparr>)) (\<lambda>_. quota_inv) (\<lambda>_. quota_inv)"
    unfolding create_lease_def
    by (intro triple_if triple_throw triple_db_op [where F = quota_inv] inherits_stable inherits_room)
       (auto simp: atomic_triple_def insert_sched intro: insert_quota [OF _ _ assms] split: sum.split)
  show ?thesis
    unfolding createReserved_def
    by (intro triple_seq [OF find [OF inherits_room]] triple_option triple_catch [OF create] triple_if triple_throw
          triple_seq [OF any] reuse) auto
qed

definition counted :: "reservation_request \<Rightarrow> workspace \<Rightarrow> project \<Rightarrow> nat \<Rightarrow> ('z) world_scheme \<Rightarrow> bool" where
  "counted rq k p n w \<longleftrightarrow> limits_at rq k p w \<and> project_count (rq_projectId rq) (rq_purpose rq) w \<le> n"

definition measured :: "reservation_request \<Rightarrow> workspace \<Rightarrow> project \<Rightarrow> nat \<Rightarrow> workspace_usage \<Rightarrow> ('z) world_scheme \<Rightarrow> bool" where
  "measured rq k p n u w \<longleftrightarrow> counted rq k p n w \<and>
     workspace_count (rq_workspaceId rq) (rq_purpose rq) w \<le> us_count u \<and> workspace_cpu (rq_workspaceId rq) w \<le> us_cpu u \<and>
     workspace_memory (rq_workspaceId rq) w \<le> us_memoryMiB u \<and> workspace_disk (rq_workspaceId rq) w \<le> us_diskMiB u"

lemma inherits_counted: "inherits (counted rq k p n)"
  unfolding inherits_def counted_def limits_at_def lighter_def by (metis order_trans)

lemma measured_room: "measured rq k p n u w \<Longrightarrow> \<not> exceeds_quota rq p k n u \<Longrightarrow> has_room rq k p w"
  by (auto simp: measured_def counted_def exceeds_quota_def has_room_def)

lemma quota_weak:
  "maintains quota_quiet (quota_and P) m \<Longrightarrow> triple quota_quiet (quota_and P) m (\<lambda>_. quota_and P) (\<lambda>_. quota_inv)"
  unfolding maintains_def by (erule triple_post) auto

lemma reserve_new_quota:
  assumes "of_request rq (l\<lparr>sl_state := SReserved\<rparr>)"
  shows "triple quota_quiet (quota_and (limits_at rq k p)) (reserve_new g rq l k p) (\<lambda>_. quota_inv) (\<lambda>_. quota_inv)"
proof -
  have busy: "maintains quota_quiet (quota_and (limits_at rq k p)) (if rq_purpose rq = BuildSandbox
          then seq (find_doc (lease_find (\<lambda>l. sl_branchId l = rq_branchId rq \<and> sl_purpose l = BuildSandbox \<and> occupying l)))
                 (\<lambda>busy. if busy \<noteq> None then throw branch_busy else ret ())
          else ret ())"
    by (intro maintains_rules maintains_seq find_quota inherits_limits)
  have room: "triple quota_quiet (quota_and (measured rq k p n u))
      (if exceeds_quota rq p k n u
       then throw (sandbox_error ''SANDBOX_QUOTA_EXCEEDED'' ''Sandbox reservation exceeds configured quota'' False)
       else seq (assertQuotaHeld g) (\<lambda>_. catch (createReserved l) (\<lambda>e. if isDuplicateKey e then throw branch_busy else throw e)))
      (\<lambda>_. quota_inv) (\<lambda>_. quota_inv)" for n u
  proof (rule triple_if)
    assume ok: "\<not> exceeds_quota rq p k n u"
    show "triple quota_quiet (quota_and (measured rq k p n u)) (seq (assertQuotaHeld g)
        (\<lambda>_. catch (createReserved l) (\<lambda>e. if isDuplicateKey e then throw branch_busy else throw e)))
        (\<lambda>_. quota_inv) (\<lambda>_. quota_inv)"
    proof (rule triple_pre)
      show "triple quota_quiet (quota_and (has_room rq k p)) (seq (assertQuotaHeld g)
          (\<lambda>_. catch (createReserved l) (\<lambda>e. if isDuplicateKey e then throw branch_busy else throw e)))
          (\<lambda>_. quota_inv) (\<lambda>_. quota_inv)"
        by (intro triple_seq [OF quota_weak [OF assertHeld_quota [OF inherits_room]]]
              triple_catch [OF createReserved_quota [OF assms]] triple_if triple_throw) simp_all
    qed (use measured_room ok in blast)
  qed (auto intro: triple_throw)
  show ?thesis
    unfolding reserve_new_def
  proof (rule triple_seq [OF quota_weak [OF busy]])
    show "triple quota_quiet (quota_and (limits_at rq k p)) (seq (find_doc (project_count (rq_projectId rq) (rq_purpose rq)))
        (\<lambda>n. seq (find_doc (usage_of (rq_workspaceId rq) (rq_purpose rq))) (\<lambda>u.
           if exceeds_quota rq p k n u
           then throw (sandbox_error ''SANDBOX_QUOTA_EXCEEDED'' ''Sandbox reservation exceeds configured quota'' False)
           else seq (assertQuotaHeld g) (\<lambda>_. catch (createReserved l) (\<lambda>e. if isDuplicateKey e then throw branch_busy else throw e)))))
        (\<lambda>_. quota_inv) (\<lambda>_. quota_inv)"
    proof (rule triple_seq [where Q = "\<lambda>n. quota_and (counted rq k p n)"])
      show "triple quota_quiet (quota_and (limits_at rq k p)) (find_doc (project_count (rq_projectId rq) (rq_purpose rq)))
          (\<lambda>n. quota_and (counted rq k p n)) (\<lambda>_. quota_inv)"
        by (rule triple_find_doc [OF inherits_stable [OF inherits_limits]]) (simp_all add: counted_def)
      fix n
      show "triple quota_quiet (quota_and (counted rq k p n)) (seq (find_doc (usage_of (rq_workspaceId rq) (rq_purpose rq))) (\<lambda>u.
           if exceeds_quota rq p k n u
           then throw (sandbox_error ''SANDBOX_QUOTA_EXCEEDED'' ''Sandbox reservation exceeds configured quota'' False)
           else seq (assertQuotaHeld g) (\<lambda>_. catch (createReserved l) (\<lambda>e. if isDuplicateKey e then throw branch_busy else throw e))))
          (\<lambda>_. quota_inv) (\<lambda>_. quota_inv)"
        by (rule triple_seq [where Q = "\<lambda>u. quota_and (measured rq k p n u)", OF triple_find_doc [OF inherits_stable [OF inherits_counted]] room])
           (simp_all add: measured_def usage_of_def)
    qed
  qed
qed

lemma request_record [simp]: "of_request rq ((reservation_record rq now)\<lparr>sl_state := SReserved\<rparr>)"
  by (simp add: of_request_def reservation_record_def occupying_def OCCUPYING_SANDBOX_STATES_def)

text \<open>The scope check finds the two documents the limits come from; they do not change afterwards.\<close>

lemma scope_find:
  assumes "inherits P" "\<And>w. P w \<Longrightarrow> Q (f w) w" "\<And>a. triple quota_quiet (quota_and (Q a)) (h a) R (\<lambda>_. quota_inv)"
  shows "triple quota_quiet (quota_and P) (seq (find_doc f) h) R (\<lambda>_. quota_inv)"
  by (rule triple_seq [OF triple_find_doc [OF inherits_stable [OF assms(1)]] assms(3)]) (use assms(2) in auto)

lemma read_scope_limits:
  "triple quota_quiet quota_inv (read_scope rq :: ('a world_scheme, js_error, workspace \<times> project) comp) (\<lambda>kp. quota_and (limits_at rq (fst kp) (snd kp))) (\<lambda>_. quota_inv)"
proof -
  define W where "W = (\<lambda>k (w :: 'a world_scheme). w_workspaces w (rq_workspaceId rq) = k)"
  define P where "P = (\<lambda>k p (w :: 'a world_scheme). w_workspaces w (rq_workspaceId rq) = k \<and> w_projects w (rq_projectId rq) = p)"
  have inh: "inherits (W k)" "inherits (P k p)" for k p by (simp_all add: inherits_def W_def P_def)
  have last: "triple quota_quiet (quota_and (P k p))
      (case (k, p, b) of
        (Some k, Some p, Some b) \<Rightarrow>
          if scope_accessible rq k p b m then ret (k, p)
          else throw (denied ''Sandbox reservation scope is not accessible'')
      | _ \<Rightarrow> throw (denied ''Sandbox reservation scope is not accessible''))
      (\<lambda>kp. quota_and (limits_at rq (fst kp) (snd kp))) (\<lambda>_. quota_inv)" for k p b m
    by (auto simp: P_def limits_at_def intro!: triple_ret triple_throw split: option.split)
  have "triple quota_quiet (quota_and (\<lambda>_. True)) (read_scope rq :: ('a world_scheme, js_error, workspace \<times> project) comp) (\<lambda>kp. quota_and (limits_at rq (fst kp) (snd kp))) (\<lambda>_. quota_inv)"
    unfolding read_scope_def
    by (rule scope_find [where Q = W, OF inherits_True], simp add: W_def,
        rule scope_find [where Q = "P k" for k, OF inh(1)], simp add: P_def W_def,
        rule scope_find [where Q = "\<lambda>_. P k p" for k p, OF inh(2)], simp,
        rule scope_find [where Q = "\<lambda>_. P k p" for k p, OF inh(2)], simp, rule last)
  then show ?thesis by simp
qed

text \<open>A key that is taken stays taken, and the index then refuses a second lease.\<close>

definition key_taken :: "string \<Rightarrow> ('z) world_scheme \<Rightarrow> bool" where
  "key_taken key w \<longleftrightarrow> (\<exists>i l. w_sandboxLeases w i = Some l \<and> sl_provisioningKey l = key)"

lemma key_taken_kept: "leases_kept w w' \<Longrightarrow> key_taken key w \<Longrightarrow> key_taken key w'"
  unfolding leases_kept_def key_taken_def lease_step_def by (metis identity_fields(8))

lemma key_taken_stable: "stable quota_quiet (\<lambda>w. quota_inv w \<and> key_taken key w)"
proof -
  have "stable quota_quiet (quota_and (\<lambda>_. True))" by (rule inherits_stable [OF inherits_True])
  moreover have "key_taken key (env_apply e w)" if "key_taken key w" for e and w :: "'a world_scheme"
    using key_taken_kept that sandbox.R_env [of w e] by (auto simp: sandbox_order_def)
  ultimately show ?thesis by (auto simp: stable_def) (simp_all add: key_taken_def)
qed

lemma lease_find_taken: "lease_find (\<lambda>l. sl_provisioningKey l = key) w \<noteq> None \<Longrightarrow> key_taken key w"
  by (auto simp: lease_find_def key_taken_def find_Some_iff split: option.splits)

lemma insert_taken:
  assumes "key_taken (sl_provisioningKey l) w" "leases_wf w"
  shows "snd (insert_lease l w) = w"
proof -
  obtain i d where d: "w_sandboxLeases w i = Some d" "sl_provisioningKey d = sl_provisioningKey l"
    using assms(1) by (auto simp: key_taken_def)
  have "i \<in> set (w_sandboxIds w)" using leases_wfD(2) [OF assms(2)] d by blast
  moreover have "lease_conflict (l\<lparr>sl_updatedAt := t\<rparr>) d" for t using d by (simp add: lease_conflict_def)
  ultimately have "\<not> index_free (w_sandboxIds w) (w_sandboxLeases w) (fresh_id w) (l\<lparr>sl_updatedAt := w_now w\<rparr>) \<or>
      w_sandboxLeases w (fresh_id w) \<noteq> None"
    using d by (cases "i = fresh_id w") (auto simp: index_free_def list_all_iff)
  then show ?thesis by (auto simp: insert_lease_def Let_def)
qed

lemma createReserved_taken:
  "maintains quota_quiet (\<lambda>w. quota_inv w \<and> key_taken (sl_provisioningKey l) w) (createReserved l)"
  unfolding createReserved_def findByProvisioningKey_def reuseOrReject_def create_lease_def
  by (intro maintains_rules maintains_seq maintains_catch maintains_find maintains_db_op key_taken_stable)
     (auto simp: insert_taken insert_sched quota_inv_def)

lemma reserve_locked_quota: "maintains quota_quiet (quota_and (\<lambda>_. True)) (reserve_locked rq g)"
proof -
  let ?key = "rq_provisioningKey rq"
  have reuse: "triple quota_quiet (\<lambda>w. quota_inv w \<and> key_taken ?key w) (createReserved (reservation_record rq now))
      (\<lambda>_. quota_inv) (\<lambda>_. quota_inv)" for now
    using createReserved_taken [of "reservation_record rq now"] unfolding maintains_def
    by (rule triple_weak) (auto simp: reservation_record_def)
  have found: "triple quota_quiet (quota_and (limits_at rq k p)) (seq (findByProvisioningKey ?key) (\<lambda>existing.
     if existing \<noteq> None then createReserved (reservation_record rq now)
     else reserve_new g rq (reservation_record rq now) k p)) (\<lambda>_. quota_inv) (\<lambda>_. quota_inv)" for k p now
  proof (rule triple_seq [where Q = "\<lambda>existing w. quota_and (limits_at rq k p) w \<and> (existing \<noteq> None \<longrightarrow> key_taken ?key w)"])
    show "triple quota_quiet (quota_and (limits_at rq k p)) (findByProvisioningKey ?key)
       (\<lambda>existing w. quota_and (limits_at rq k p) w \<and> (existing \<noteq> None \<longrightarrow> key_taken ?key w)) (\<lambda>_. quota_inv)"
      unfolding findByProvisioningKey_def
      by (rule triple_find_doc [OF inherits_stable [OF inherits_limits]]) (use lease_find_taken in blast)+
    show "triple quota_quiet (\<lambda>w. quota_and (limits_at rq k p) w \<and> (existing \<noteq> None \<longrightarrow> key_taken ?key w))
       (if existing \<noteq> None then createReserved (reservation_record rq now)
        else reserve_new g rq (reservation_record rq now) k p) (\<lambda>_. quota_inv) (\<lambda>_. quota_inv)" for existing
      by (rule triple_if; rule triple_pre, (rule reuse | rule reserve_new_quota [OF request_record]), blast)
  qed
  have "triple quota_quiet quota_inv (reserve_locked rq g) (\<lambda>_. quota_inv) (\<lambda>_. quota_inv)"
    unfolding reserve_locked_def Date_now_def
    by (intro triple_seq [OF triple_lift [where Q = "\<lambda>_. quota_inv"]] triple_seq [OF triple_reads [where Q = "\<lambda>_. quota_inv"]]
          triple_seq [OF read_scope_limits];
        (rule triple_prod, hypsubst, simp only: fst_conv snd_conv, rule found | simp))
  then show ?thesis by (simp add: maintains_def)
qed

text \<open>C27: The quota is never exceeded by reservations: however a reservation ends, and whatever other
  processes do that neither reserves a sandbox nor brings a failed or lost lease back to terminating, the
  leases keep their unique indexes and valid documents, and every workspace and every project stays within
  its limits for builds, previews, CPU, memory and disk.\<close>

theorem reserve_within_quota:
  assumes "reserve lk rq w = (r, w')" "calm quota_quiet w" "leases_wf w" "within_quota w"
  shows "leases_wf w' \<and> within_quota w'"
proof -
  have "maintains quota_quiet (quota_and (\<lambda>_. True)) (reserve lk rq)"
    unfolding reserve_def withLock_def
    by (intro maintains_seq light_keeps light_calls inherits_True with_token_quota reserve_locked_quota)
  then show ?thesis using maintainsD [of quota_quiet "quota_and (\<lambda>_. True)" "reserve lk rq"] assms
    by (auto simp: quota_inv_def)
qed

section \<open>What a reservation answers\<close>

definition stored_lease :: "lease_doc \<Rightarrow> ('z) world_scheme \<Rightarrow> bool" where
  "stored_lease d w \<longleftrightarrow> (\<exists>l. w_sandboxLeases w (fst d) = Some l \<and> lease_step (snd d) l)"

lemma stored_kept: "sandbox_order w w' \<Longrightarrow> stored_lease d w \<Longrightarrow> stored_lease d w'"
  unfolding sandbox_order_def leases_kept_def stored_lease_def by (blast intro: lease_step_trans)

lemma stored_stable: "stable any_step (stored_lease d)"
  unfolding stable_def using stored_kept sandbox.R_env sandbox.R_sched by blast

definition answers_for :: "sandbox_lease \<Rightarrow> lease_doc \<Rightarrow> ('z) world_scheme \<Rightarrow> bool" where
  "answers_for rec d w \<longleftrightarrow> sameReservation (snd d) rec \<and> stored_lease d w"

text \<open>\<open>returns_lease m rec\<close>: a lease that \<open>m\<close> returns is one for the reservation, and it is stored.\<close>

definition returns_lease :: "(('z) world_scheme, js_error, lease_doc) comp \<Rightarrow> sandbox_lease \<Rightarrow> bool" where
  "returns_lease m rec \<longleftrightarrow> (\<forall>w d w'. m w = (Inr d, w') \<longrightarrow> answers_for rec d w')"

lemma returns_leaseD: "returns_lease m rec \<Longrightarrow> m w = (Inr d, w') \<Longrightarrow> answers_for rec d w'"
  unfolding returns_lease_def by blast

lemma returns_lease_seq: "(\<And>a. returns_lease (k a) rec) \<Longrightarrow> returns_lease (seq m k) rec"
  unfolding returns_lease_def by (blast elim: seq_elim)

lemma returns_lease_catch:
  "returns_lease m rec \<Longrightarrow> (\<And>e. returns_lease (h e) rec) \<Longrightarrow> returns_lease (catch m h) rec"
  unfolding returns_lease_def by (blast elim: catch_elim)

lemma returns_lease_throw: "returns_lease (throw e) rec"
  by (simp add: returns_lease_def throw_def)

lemma returns_lease_if:
  "(b \<Longrightarrow> returns_lease m rec) \<Longrightarrow> (\<not> b \<Longrightarrow> returns_lease n rec) \<Longrightarrow> returns_lease (if b then m else n) rec"
  by simp

lemma returns_lease_finally:
  assumes "returns_lease m rec" "resp sandbox_order f"
  shows "returns_lease (finally_do m f) rec"
  unfolding returns_lease_def
proof (intro allI impI)
  fix w d w' assume run: "finally_do m f w = (Inr d, w')"
  then obtain q t p where m: "m w = (q, t)" and f: "f t = (p, w')" by (rule finally_elim)
  then have "q = Inr d" using run by (cases p) (simp_all add: finally_do_def)
  then have "answers_for rec d t" using assms(1) m unfolding returns_lease_def by blast
  moreover have "sandbox_order t w'" by (rule respD [OF assms(2) f])
  ultimately show "answers_for rec d w'" unfolding answers_for_def by (blast intro: stored_kept)
qed

text \<open>A lookup answers with a stored lease.\<close>

lemma find_answers:
  assumes "find_doc (lease_find p) w = (Inr (Some d), w')" shows "stored_lease d w'"
proof -
  have "lease_find p w' = Some d"
    using assms by (auto simp: find_doc_def db_op_at_call reads_def split: fault.splits)
  then show ?thesis by (auto simp: lease_find_def stored_lease_def find_Some_iff split: option.splits)
qed

lemma returns_found:
  assumes "returns_lease m rec"
  shows "returns_lease (seq (findByProvisioningKey key) (\<lambda>x. case x of None \<Rightarrow> m | Some d \<Rightarrow> reuseOrReject d rec)) rec"
  unfolding returns_lease_def
proof (intro allI impI)
  fix w d w' assume "seq (findByProvisioningKey key) (\<lambda>x. case x of None \<Rightarrow> m | Some d \<Rightarrow> reuseOrReject d rec) w = (Inr d, w')"
  then show "answers_for rec d w'"
  proof (cases rule: seq_elim)
    case (val x t)
    show ?thesis
    proof (cases x)
      case None
      then show ?thesis using val returns_leaseD [OF assms] by simp
    next
      case (Some y)
      then show ?thesis using val find_answers [of _ w y t]
        by (auto simp: findByProvisioningKey_def reuseOrReject_def answers_for_def ret_def throw_def split: if_splits)
    qed
  qed simp
qed

lemma returns_created: "returns_lease (create_lease (rec\<lparr>sl_state := SReserved\<rparr>)) rec"
  by (auto simp: returns_lease_def create_lease_def insert_lease_def Let_def db_op_at_call throw_def answers_for_def
      sameReservation_def canonicalReservation_def stored_lease_def split: if_splits fault.splits)

lemma createReserved_answers: "returns_lease (createReserved rec) rec"
  unfolding createReserved_def
  by (intro returns_found returns_lease_catch returns_created returns_lease_if returns_lease_throw)

lemma reserve_answers: "returns_lease (reserve lk rq) (reservation_record rq 0)"
proof -
  have same: "returns_lease m (reservation_record rq now) \<Longrightarrow> returns_lease m (reservation_record rq 0)" for m now
    by (simp add: returns_lease_def answers_for_def sameReservation_def canonicalReservation_def reservation_record_def)
  have "returns_lease (reserve_locked rq g) (reservation_record rq 0)" for g
    unfolding reserve_locked_def reserve_new_def
    by (rule returns_lease_seq)+ (auto simp del: not_None_eq split: prod.split intro!: returns_lease_seq returns_lease_if
          returns_lease_catch returns_lease_throw same [OF createReserved_answers])
  then show ?thesis
    unfolding reserve_def withLock_def with_token_def sandbox_errors_only_def release_lock_def Let_def
    by (intro returns_lease_seq returns_lease_if returns_lease_throw returns_lease_finally returns_lease_catch
          sandbox.resp_catch sandbox.resp_db_op sandbox.resp_rules sandbox_lock.release)
qed

text \<open>A reservation that succeeds answers with a lease that is stored under its id, was made for
  exactly this request (owner, branch, run, source, provider, key, specification and resources), and
  has since moved only along the edges of the state machine.\<close>

theorem reserve_answer:
  assumes "reserve lk rq w = (Inr (i, l), w')"
  shows "sameReservation l (reservation_record rq 0) \<and>
    (\<exists>l'. w_sandboxLeases w' i = Some l' \<and> sameReservation l' (reservation_record rq 0) \<and>
       state_reaches (sl_state l) (sl_state l'))"
proof -
  have "answers_for (reservation_record rq 0) (i, l) w'" using reserve_answers assms unfolding returns_lease_def by blast
  then show ?thesis
    by (auto simp: answers_for_def stored_lease_def lease_step_def lease_identity_def sameReservation_def)
qed

section \<open>Concrete inputs\<close>

definition demo_limits :: execution_limits where
  "demo_limits = \<lparr>xl_maxConcurrentBuilds = 1, xl_maxRunningPreviews = 1, xl_maxCpu = 2, xl_maxMemoryMiB = 1024,
     xl_maxDiskMiB = 2048, xl_maxBuildsPerHour = 10, xl_maxBuildMinutesPerDay = 60, xl_maxArtifactBytes = 1000,
     xl_maxLogBytesPerCommand = 1000, xl_maxFilesPerSnapshot = 100\<rparr>"

definition demo_sandbox_world :: world where
  "demo_sandbox_world = empty_world\<lparr>
     w_workspaces := [''ws'' \<mapsto> \<lparr>wk_slug = ''w'', wk_name = ''W'', wk_active = True, wk_createdByUserId = ''u'', wk_executionLimits = demo_limits\<rparr>],
     w_projects := [''p'' \<mapsto> \<lparr>pr_userId = ''u'', pr_workspaceId = Some ''ws'', pr_name = ''P'', pr_description = None,
        pr_chatIds = [], pr_activeSnapshotId = None, pr_activeSnapshotRevision = 0, pr_maxConcurrentBuilds = 1,
        pr_maxRunningPreviews = 1, pr_framework = ''react'', pr_styling = ''tailwind'', pr_uiLibrary = ''none'', pr_agentModelId = None\<rparr>],
     w_branches := [''b'' \<mapsto> \<lparr>br_workspaceId = ''ws'', br_projectId = ''p'', br_name = ''main'', br_status = BranchActive,
        br_headSnapshotId = None, br_headVersion = 0, br_createdFromSnapshotId = None\<rparr>]\<rparr>"

definition demo_request :: reservation_request where
  "demo_request = \<lparr>rq_workspaceId = ''ws'', rq_projectId = ''p'', rq_branchId = ''b'', rq_requestedByUserId = ''u'',
     rq_runId = Some ''r'', rq_snapshotId = None, rq_sourceArtifact = (''a'', SourceCandidate), rq_purpose = BuildSandbox,
     rq_provider = ''fake'', rq_provisioningKey = ''build:r:1'',
     rq_spec = \<lparr>ls_image = ''node:22'', ls_workingDirectory = ''/workspace'',
        ls_networkPolicy = \<lparr>np_defaultAction = AllowAll, np_allowedDomains = [], np_allowedCidrs = []\<rparr>,
        ls_lifecycle = \<lparr>lf_leaseSeconds = 900, lf_autoStopSeconds = None, lf_autoDeleteSeconds = 1800\<rparr>\<rparr>,
     rq_resourceProfile = \<lparr>rp_cpu = 1, rp_memoryMiB = 512, rp_diskMiB = 1024\<rparr>, rq_expiresAt = 900000\<rparr>"

definition demo_lock :: quota_lock where
  "demo_lock = \<lparr>ql_ttlMs = 5000, ql_waitMs = 2000, ql_uuid = (\<lambda>n. ''token-'' @ show_nat n)\<rparr>"

lemma demo_within: "leases_wf demo_sandbox_world" "within_quota demo_sandbox_world" "calm quota_quiet demo_sandbox_world"
  by (auto simp: demo_sandbox_world_def empty_world_def leases_wf_def within_quota_def quota_sums lease_sum_def demo_limits_def
      split: if_splits)

lemma reserve_within_quota_witness:
  "\<exists>w'. snd (reserve demo_lock demo_request demo_sandbox_world) = w' \<and> leases_wf w' \<and> within_quota w'"
  using reserve_within_quota [OF prod.collapse [symmetric] demo_within(3,1,2)] by blast

lemma quota_lock_live_witness:
  "\<exists>w'. acquire_loop ''k'' ''mine'' 5000 100 (demo_sandbox_world\<lparr>w_locks := [''k'' \<mapsto> (''other'', 30)]\<rparr>) = (Inr True, w') \<and>
     w_now w' \<le> 100"
  using quota_lock_live [of "demo_sandbox_world\<lparr>w_locks := [''k'' \<mapsto> (''other'', 30)]\<rparr>" 100 "''k''" "''mine''" 5000]
  by (auto simp: demo_sandbox_world_def empty_world_def)


end
