(* ===== verification/SandboxProvider.thy ===== *)
theory SandboxProvider
  imports SandboxQuota
begin

text \<open>
  The provider of sandboxes as the service sees it (\<open>sandbox/provider/SandboxProvider.ts\<close>,
  the handle of \<open>sandbox/types.ts\<close>), and the in-memory provider the server falls back to
  (\<open>sandbox/providers/FakeSandboxProvider.ts\<close>). A provider is a record of computations on the store;
  the state of the in-memory provider extends the store by one field.
\<close>

section \<open>The interface\<close>

record 'z sandbox_handle =
  hd_ref :: sandbox_ref
  hd_waitUntilReady :: "int \<Rightarrow> ('z world_scheme, js_error, unit) comp"
  hd_writeFiles :: "(string \<times> bytes) list \<Rightarrow> ('z world_scheme, js_error, unit) comp"
  hd_readFile :: "string \<Rightarrow> ('z world_scheme, js_error, bytes) comp"
  hd_listFiles :: "string \<Rightarrow> ('z world_scheme, js_error, string list) comp"
  hd_exists :: "string \<Rightarrow> ('z world_scheme, js_error, bool) comp"
  hd_run :: "sandbox_command \<Rightarrow> ('z world_scheme, js_error, command_result) comp"
  hd_stopAll :: "('z world_scheme, js_error, unit) comp"
  hd_heartbeat :: "('z world_scheme, js_error, unit) comp"
  hd_stop :: "('z world_scheme, js_error, unit) comp"

record list_filter =
  ft_provisioningKey :: "string option"
  ft_labels :: labels

record 'z sandbox_provider =
  pv_kind :: string
  pv_describe :: "('z world_scheme, js_error, capabilities) comp"
  pv_create :: "sandbox_spec \<Rightarrow> ('z world_scheme, js_error, sandbox_ref) comp"
  pv_connect :: "sandbox_ref \<Rightarrow> ('z world_scheme, js_error, 'z sandbox_handle) comp"
  pv_inspect :: "sandbox_ref \<Rightarrow> ('z world_scheme, js_error, sandbox_inspection) comp"
  pv_list :: "list_filter \<Rightarrow> ('z world_scheme, js_error, sandbox_ref list) comp"
  pv_destroy :: "sandbox_ref \<Rightarrow> ('z world_scheme, js_error, destroy_receipt) comp"

text \<open>\<open>files\<close>, \<open>processes\<close> and \<open>lifecycle\<close> have the literal type \<open>true\<close>.\<close>

definition has_capability :: "capabilities \<Rightarrow> string \<Rightarrow> bool" where
  "has_capability c name =
     (if name = ''files'' \<or> name = ''processes'' \<or> name = ''lifecycle'' then True
      else if name = ''preview'' then ca_preview c
      else if name = ''networkPolicy'' then ca_networkPolicy c
      else if name = ''checkpoints'' then ca_checkpoints c
      else if name = ''reconnectAcrossProcessRestart'' then ca_reconnect c else False)"

section \<open>The state of the in-memory provider\<close>

record fake_resource =
  fr_ref :: sandbox_ref
  fr_spec :: sandbox_spec
  fr_status :: inspection_status
  fr_createdAt :: time
  fr_files :: "(string, bytes) jsmap"
  fr_commands :: "sandbox_command list"
  fr_ready :: bool
  fr_pendingDestroyAttempts :: nat

record create_failure =
  cf_notCreated :: bool
  cf_createResourceBeforeThrow :: bool

record fake_state =
  fk_entries :: "(string, fake_resource) jsmap"
  fk_sequence :: nat
  fk_nextCreateFailure :: "create_failure option"
  fk_commandResults :: "command_result list"
  fk_buildOutput :: "(string \<times> bytes) list"
  fk_readinessTimeouts :: "int list"
  fk_heartbeats :: nat
  fk_blockNextCommand :: bool

record fake_world = world +
  w_fake :: fake_state

type_synonym ('y, 'a) fake_comp = "('y fake_world_scheme, js_error, 'a) comp"

definition refKey :: "sandbox_ref \<Rightarrow> string" where
  "refKey r = rf_provider r @ '':'' @ rf_externalId r"

definition sandbox_not_found :: "string \<Rightarrow> js_error" where
  "sandbox_not_found msg = sandbox_error ''SANDBOX_NOT_FOUND'' msg False"

definition fake_get :: "sandbox_ref \<Rightarrow> fake_state \<Rightarrow> fake_resource option" where
  "fake_get r st = map_of (fk_entries st) (refKey r)"

definition fake_require :: "sandbox_ref \<Rightarrow> fake_state \<Rightarrow> js_error + fake_resource" where
  "fake_require r st = (case fake_get r st of
     None \<Rightarrow> Inl (sandbox_not_found ''Sandbox resource not found'')
   | Some x \<Rightarrow> if fr_status x = IMissing then Inl (sandbox_not_found ''Sandbox resource not found'') else Inr x)"

definition fake_findByProvisioningKey :: "string \<Rightarrow> fake_state \<Rightarrow> fake_resource list" where
  "fake_findByProvisioningKey key st =
     filter (\<lambda>x. fr_status x \<noteq> IMissing \<and> sp_provisioningKey (fr_spec x) = key) (map snd (fk_entries st))"

definition fake_insert :: "sandbox_spec \<Rightarrow> fake_state \<Rightarrow> fake_resource \<times> fake_state" where
  "fake_insert spec st =
     (let n = fk_sequence st + 1; r = \<lparr>rf_provider = ''fake'', rf_externalId = ''fake-'' @ show_nat n\<rparr>;
          x = \<lparr>fr_ref = r, fr_spec = spec, fr_status = IReady, fr_createdAt = int n, fr_files = [], fr_commands = [],
               fr_ready = True, fr_pendingDestroyAttempts = 0\<rparr>
      in (x, st\<lparr>fk_sequence := n, fk_entries := map_set (refKey r) x (fk_entries st)\<rparr>))"

definition fake_put :: "sandbox_ref \<Rightarrow> fake_resource \<Rightarrow> fake_state \<Rightarrow> fake_state" where
  "fake_put r x st = st\<lparr>fk_entries := map_set (refKey r) x (fk_entries st)\<rparr>"

text \<open>The switches tests use to prepare the state.\<close>

definition failNextCreate :: "create_failure \<Rightarrow> fake_state \<Rightarrow> fake_state" where
  "failNextCreate f st = st\<lparr>fk_nextCreateFailure := Some f\<rparr>"

definition setNextCommandResult :: "command_result \<Rightarrow> fake_state \<Rightarrow> fake_state" where
  "setNextCommandResult r st = st\<lparr>fk_commandResults := [r]\<rparr>"

definition enqueueCommandResult :: "command_result \<Rightarrow> fake_state \<Rightarrow> fake_state" where
  "enqueueCommandResult r st = st\<lparr>fk_commandResults := fk_commandResults st @ [r]\<rparr>"

definition setBuildOutput :: "(string \<times> bytes) list \<Rightarrow> fake_state \<Rightarrow> js_error + fake_state" where
  "setBuildOutput files st =
     and_then (map_each (\<lambda>(p, c). and_then (normalizeSandboxRelativePath (''dist/'' @ p)) (\<lambda>q. Inr (q, c))) files) (\<lambda>entries.
     Inr (st\<lparr>fk_buildOutput := foldl (\<lambda>m (p, c). map_set p c m) [] entries\<rparr>))"

definition blockNextCommandUntilAbort :: "fake_state \<Rightarrow> fake_state" where
  "blockNextCommandUntilAbort st = st\<lparr>fk_blockNextCommand := True\<rparr>"

definition seedDuplicate :: "sandbox_spec \<Rightarrow> fake_state \<Rightarrow> sandbox_ref \<times> fake_state" where
  "seedDuplicate spec st = (case fake_insert spec st of (x, st') \<Rightarrow> (fr_ref x, st'))"

definition setReadiness :: "sandbox_ref \<Rightarrow> bool \<Rightarrow> fake_state \<Rightarrow> js_error + fake_state" where
  "setReadiness r ready st = and_then (fake_require r st) (\<lambda>x. Inr (fake_put r (x\<lparr>fr_ready := ready\<rparr>) st))"

definition setMissing :: "sandbox_ref \<Rightarrow> fake_state \<Rightarrow> js_error + fake_state" where
  "setMissing r st = and_then (fake_require r st) (\<lambda>x. Inr (fake_put r (x\<lparr>fr_status := IMissing\<rparr>) st))"

definition delayDestroy :: "sandbox_ref \<Rightarrow> nat \<Rightarrow> fake_state \<Rightarrow> js_error + fake_state" where
  "delayDestroy r n st = and_then (fake_require r st) (\<lambda>x. Inr (fake_put r (x\<lparr>fr_pendingDestroyAttempts := n\<rparr>) st))"

definition advanceDestroy :: "sandbox_ref \<Rightarrow> fake_state \<Rightarrow> js_error + fake_state" where
  "advanceDestroy r st = and_then (fake_require r st) (\<lambda>x.
     Inr (fake_put r (x\<lparr>fr_pendingDestroyAttempts := fr_pendingDestroyAttempts x - 1\<rparr>) st))"

definition applyBuildOutput :: "fake_state \<Rightarrow> fake_resource \<Rightarrow> fake_resource" where
  "applyBuildOutput st x = x\<lparr>fr_files := foldl (\<lambda>m (p, c). map_set p c m) (fr_files x) (fk_buildOutput st)\<rparr>"

section \<open>The in-memory provider\<close>

definition fake_reads :: "(fake_state \<Rightarrow> js_error + 'a) \<Rightarrow> ('y, 'a) fake_comp" where
  "fake_reads f = (\<lambda>w. (f (w_fake w), w))"

definition fake_updates :: "(fake_state \<Rightarrow> js_error + 'a \<times> fake_state) \<Rightarrow> ('y, 'a) fake_comp" where
  "fake_updates f = (\<lambda>w. case f (w_fake w) of Inl e \<Rightarrow> (Inl e, w) | Inr (a, st) \<Rightarrow> (Inr a, w\<lparr>w_fake := st\<rparr>))"

definition assertRef :: "sandbox_ref \<Rightarrow> js_error + unit" where
  "assertRef r = check (rf_provider r = ''fake'')
     (sandbox_error ''SANDBOX_OWNERSHIP_MISMATCH'' ''Sandbox reference belongs to a different provider'' False)"

definition create_error :: "bool \<Rightarrow> string \<Rightarrow> js_error" where
  "create_error notCreated msg = (sandbox_error ''SANDBOX_PROVISION_FAILED'' msg True)\<lparr>err_notCreated := notCreated\<rparr>"

definition fake_describe :: "('y, capabilities) fake_comp" where
  "fake_describe = (\<lambda>w. (Inr \<lparr>ca_preview = True, ca_networkPolicy = True, ca_checkpoints = False, ca_reconnect = True\<rparr>, w))"

text \<open>\<open>create\<close>: the resource may exist although the call fails.\<close>

definition fake_create :: "sandbox_spec \<Rightarrow> ('y, sandbox_ref) fake_comp" where
  "fake_create spec = (\<lambda>w. let st = w_fake w in
     case fake_findByProvisioningKey (sp_provisioningKey spec) st of
       existing # _ \<Rightarrow>
         (if fr_spec existing \<noteq> spec
          then Inl (sandbox_error ''SANDBOX_OWNERSHIP_MISMATCH'' ''Provisioning key belongs to a different Sandbox specification'' False)
          else Inr (fr_ref existing), w)
     | [] \<Rightarrow>
         let failure = fk_nextCreateFailure st; st1 = st\<lparr>fk_nextCreateFailure := None\<rparr>
         in case failure of
              Some f \<Rightarrow>
                if \<not> cf_createResourceBeforeThrow f
                then (Inl (create_error (cf_notCreated f) ''Sandbox creation failed''), w\<lparr>w_fake := st1\<rparr>)
                else (Inl (create_error (cf_notCreated f) ''Sandbox creation result is unknown''), w\<lparr>w_fake := snd (fake_insert spec st1)\<rparr>)
            | None \<Rightarrow> (case fake_insert spec st1 of (x, st2) \<Rightarrow> (Inr (fr_ref x), w\<lparr>w_fake := st2\<rparr>)))"

definition fake_waitUntilReady :: "sandbox_ref \<Rightarrow> int \<Rightarrow> ('y, unit) fake_comp" where
  "fake_waitUntilReady r timeoutMs =
     seq (modify (\<lambda>w. w\<lparr>w_fake := (w_fake w)\<lparr>fk_readinessTimeouts := fk_readinessTimeouts (w_fake w) @ [timeoutMs]\<rparr>\<rparr>)) (\<lambda>_.
     fake_reads (\<lambda>st. and_then (fake_require r st) (\<lambda>x.
       check (fr_ready x) (sandbox_error ''SANDBOX_NOT_READY'' ''Sandbox readiness timed out'' True))))"

text \<open>The files before a path that is refused have been written.\<close>

fun write_into :: "(string \<times> bytes) list \<Rightarrow> (string, bytes) jsmap \<Rightarrow> js_error option \<times> (string, bytes) jsmap" where
  "write_into [] m = (None, m)"
| "write_into ((p, c) # fs) m = (case normalizeSandboxRelativePath p of
     Inl e \<Rightarrow> (Some e, m) | Inr q \<Rightarrow> write_into fs (map_set q c m))"

definition fake_writeFiles :: "sandbox_ref \<Rightarrow> (string \<times> bytes) list \<Rightarrow> ('y, unit) fake_comp" where
  "fake_writeFiles r files = (\<lambda>w. case fake_require r (w_fake w) of
     Inl e \<Rightarrow> (Inl e, w)
   | Inr x \<Rightarrow> (case write_into files (fr_files x) of (e, m) \<Rightarrow>
       (case e of None \<Rightarrow> Inr () | Some e \<Rightarrow> Inl e, w\<lparr>w_fake := fake_put r (x\<lparr>fr_files := m\<rparr>) (w_fake w)\<rparr>)))"

definition fake_readFile :: "sandbox_ref \<Rightarrow> string \<Rightarrow> ('y, bytes) fake_comp" where
  "fake_readFile r p = fake_reads (\<lambda>st. and_then (fake_require r st) (\<lambda>x.
     and_then (normalizeSandboxRelativePath p) (\<lambda>q.
     case map_of (fr_files x) q of None \<Rightarrow> Inl (sandbox_not_found ''Sandbox file not found'') | Some c \<Rightarrow> Inr c)))"

definition fake_listFiles :: "sandbox_ref \<Rightarrow> string \<Rightarrow> ('y, string list) fake_comp" where
  "fake_listFiles r directory = fake_reads (\<lambda>st. and_then (normalizeSandboxRelativePath directory) (\<lambda>d.
     and_then (fake_require r st) (\<lambda>x.
     Inr (sort_by text_le (filter (starts_with (d @ ''/'')) (map fst (fr_files x)))))))"

definition fake_exists :: "sandbox_ref \<Rightarrow> string \<Rightarrow> ('y, bool) fake_comp" where
  "fake_exists r p = fake_reads (\<lambda>st. and_then (fake_require r st) (\<lambda>x.
     and_then (normalizeSandboxRelativePath p) (\<lambda>q. Inr (map_of (fr_files x) q \<noteq> None))))"

definition default_result :: command_result where
  "default_result = \<lparr>cr_exitCode = Some 0, cr_stdout = [], cr_stderr = [], cr_durationMs = 0, cr_timedOut = False,
     cr_outputTruncated = False\<rparr>"

text \<open>A blocked command waits for its abort signal; the wait is one call at which time passes.\<close>

definition fake_run :: "sandbox_ref \<Rightarrow> sandbox_command \<Rightarrow> ('y, command_result) fake_comp" where
  "fake_run r c =
     seq (fake_updates (\<lambda>st. and_then (fake_require r st) (\<lambda>x.
       Inr (fk_blockNextCommand st, (fake_put r (x\<lparr>fr_commands := fr_commands x @ [c]\<rparr>) st)\<lparr>fk_blockNextCommand := False\<rparr>)))) (\<lambda>blocked.
     seq (if blocked then db_op (ret ()) else ret ()) (\<lambda>_.
     fake_updates (\<lambda>st.
       let result = (case fk_commandResults st of [] \<Rightarrow> None | x # _ \<Rightarrow> Some x);
           st1 = st\<lparr>fk_commandResults := tl (fk_commandResults st)\<rparr>;
           code = (case result of None \<Rightarrow> 0 | Some x \<Rightarrow> (case cr_exitCode x of None \<Rightarrow> 0 | Some k \<Rightarrow> k));
           st2 = (if ''build'' \<in> set (sc_args c) \<and> code = 0
                  then (case fake_get r st1 of None \<Rightarrow> st1 | Some x \<Rightarrow> fake_put r (applyBuildOutput st1 x) st1) else st1)
       in Inr (case result of None \<Rightarrow> default_result | Some x \<Rightarrow> x, st2))))"

definition fake_heartbeat :: "sandbox_ref \<Rightarrow> ('y, unit) fake_comp" where
  "fake_heartbeat r = fake_updates (\<lambda>st. and_then (fake_require r st) (\<lambda>_.
     Inr ((), st\<lparr>fk_heartbeats := fk_heartbeats st + 1\<rparr>)))"

definition fake_stop :: "sandbox_ref \<Rightarrow> ('y, unit) fake_comp" where
  "fake_stop r = fake_updates (\<lambda>st. and_then (fake_require r st) (\<lambda>x. Inr ((), fake_put r (x\<lparr>fr_status := IStopped\<rparr>) st)))"

definition fake_handle :: "sandbox_ref \<Rightarrow> 'y fake_world_ext sandbox_handle" where
  "fake_handle r = \<lparr>hd_ref = r, hd_waitUntilReady = fake_waitUntilReady r, hd_writeFiles = fake_writeFiles r,
     hd_readFile = fake_readFile r, hd_listFiles = fake_listFiles r, hd_exists = fake_exists r, hd_run = fake_run r,
     hd_stopAll = ret (), hd_heartbeat = fake_heartbeat r, hd_stop = fake_stop r\<rparr>"

definition fake_connect :: "sandbox_ref \<Rightarrow> ('y, 'y fake_world_ext sandbox_handle) fake_comp" where
  "fake_connect r = seq (lift_result (assertRef r)) (\<lambda>_. fake_reads (\<lambda>st.
     and_then (fake_require r st) (\<lambda>x. Inr (fake_handle (fr_ref x)))))"

definition inspection_of :: "fake_resource \<Rightarrow> sandbox_inspection" where
  "inspection_of x = \<lparr>in_ref = fr_ref x, in_status = fr_status x, in_provisioningKey = sp_provisioningKey (fr_spec x),
     in_createdAt = fr_createdAt x, in_labels = sp_labels (fr_spec x)\<rparr>"

definition fake_inspect :: "sandbox_ref \<Rightarrow> ('y, sandbox_inspection) fake_comp" where
  "fake_inspect r = seq (lift_result (assertRef r)) (\<lambda>_. fake_reads (\<lambda>st. case fake_get r st of
     None \<Rightarrow> Inl (sandbox_not_found ''Sandbox resource not found'') | Some x \<Rightarrow> Inr (inspection_of x)))"

definition matches_filter :: "list_filter \<Rightarrow> fake_resource \<Rightarrow> bool" where
  "matches_filter f x \<longleftrightarrow> fr_status x \<noteq> IMissing \<and>
     (case ft_provisioningKey f of None \<Rightarrow> True | Some key \<Rightarrow> sp_provisioningKey (fr_spec x) = key) \<and>
     list_all (\<lambda>(k, v). map_of (sp_labels (fr_spec x)) k = Some v) (ft_labels f)"

definition fake_list :: "list_filter \<Rightarrow> ('y, sandbox_ref list) fake_comp" where
  "fake_list f = fake_reads (\<lambda>st. Inr (map fr_ref (filter (matches_filter f) (map snd (fk_entries st)))))"

definition fake_destroy :: "sandbox_ref \<Rightarrow> ('y, destroy_receipt) fake_comp" where
  "fake_destroy r = seq (lift_result (assertRef r)) (\<lambda>_. fake_updates (\<lambda>st. case fake_get r st of
     None \<Rightarrow> Inr (\<lparr>dr_accepted = True, dr_missing = True, dr_pending = False\<rparr>, st)
   | Some x \<Rightarrow>
       if fr_status x = IMissing then Inr (\<lparr>dr_accepted = True, dr_missing = True, dr_pending = False\<rparr>, st)
       else if 0 < fr_pendingDestroyAttempts x
       then Inr (\<lparr>dr_accepted = True, dr_missing = False, dr_pending = True\<rparr>, st)
       else Inr (\<lparr>dr_accepted = True, dr_missing = False, dr_pending = False\<rparr>, fake_put r (x\<lparr>fr_status := IMissing\<rparr>) st)))"

definition fake_provider :: "'y fake_world_ext sandbox_provider" where
  "fake_provider = \<lparr>pv_kind = ''fake'',
     pv_describe = fake_describe,
     pv_create = fake_create, pv_connect = fake_connect, pv_inspect = fake_inspect, pv_list = fake_list,
     pv_destroy = fake_destroy\<rparr>"

end
