(* ===== verification/ArtifactStore.thy ===== *)
theory ArtifactStore
  imports Triples
begin

text \<open>
  The artifact store on a shared file system (\<open>artifacts/SharedFilesystemArtifactStore.ts\<close>): a blob
  is written to a temporary file, synced, and published under its final name with \<open>link(2)\<close>, which
  never replaces a file. The file system is the map \<open>w_nodes\<close> from absolute paths to nodes; each
  call of it is one awaited step that can fail with any error code. A handle is the node that was
  opened. The injected hooks have their defaults.
\<close>

lemma seq_to: "m s = (Inr a, t) \<Longrightarrow> k a t = x \<Longrightarrow> seq m k s = x"
  by (simp add: seq_def)

section \<open>Calls of the file system\<close>

definition fs_lstat :: "string \<Rightarrow> (('z) world_scheme, js_error, fs_node) comp" where
  "fs_lstat p = fs_op (\<lambda>w. case w_nodes w p of
     None \<Rightarrow> (Inl (fs_error ''ENOENT''), w) | Some n \<Rightarrow> (Inr n, w))"

definition fs_mkdir :: "string \<Rightarrow> (('z) world_scheme, js_error, unit) comp" where
  "fs_mkdir p = fs_op (\<lambda>w. case w_nodes w p of
     None \<Rightarrow> (Inr (), w\<lparr>w_nodes := (w_nodes w)(p \<mapsto> FDir)\<rparr>)
   | Some _ \<Rightarrow> (Inl (fs_error ''EEXIST''), w))"

text \<open>\<open>open(path, 'wx')\<close>, the flags of exclusive creation; the second one writes through the handle.\<close>

definition fs_open_exclusive :: "string \<Rightarrow> (('z) world_scheme, js_error, unit) comp" where
  "fs_open_exclusive p = fs_op (\<lambda>w. case w_nodes w p of
     None \<Rightarrow> (Inr (), w\<lparr>w_nodes := (w_nodes w)(p \<mapsto> FFile [])\<rparr>)
   | Some _ \<Rightarrow> (Inl (fs_error ''EEXIST''), w))"

definition fs_append :: "string \<Rightarrow> bytes \<Rightarrow> (('z) world_scheme, js_error, unit) comp" where
  "fs_append p b = fs_op (\<lambda>w. case w_nodes w p of
     Some (FFile c) \<Rightarrow> (Inr (), w\<lparr>w_nodes := (w_nodes w)(p \<mapsto> FFile (c @ b))\<rparr>)
   | _ \<Rightarrow> (Inl (fs_error ''EBADF''), w))"

text \<open>\<open>writeFile\<close> of a handle writes its data in chunks, so a failure leaves a prefix.\<close>

definition chunk_size :: nat where
  "chunk_size = 512 * 1024"

function chunks :: "bytes \<Rightarrow> bytes list" where
  "chunks b = (if length b \<le> chunk_size then [b] else take chunk_size b # chunks (drop chunk_size b))"
  by pat_completeness auto
termination
  by (relation "measure length") (auto simp: chunk_size_def)

declare chunks.simps [simp del]

definition fs_writeFile :: "string \<Rightarrow> bytes \<Rightarrow> (('z) world_scheme, js_error, unit) comp" where
  "fs_writeFile p b = for_each (chunks b) (fs_append p)"

text \<open>\<open>fsync\<close> and \<open>close\<close> of an open handle.\<close>

definition handle_sync :: "(('z) world_scheme, js_error, unit) comp" where
  "handle_sync = fs_op (ret ())"

definition handle_close :: "(('z) world_scheme, js_error, unit) comp" where
  "handle_close = fs_op (ret ())"

definition close_quietly :: "(('z) world_scheme, js_error, unit) comp" where
  "close_quietly = catch handle_close (\<lambda>_. ret ())"

definition fs_link :: "string \<Rightarrow> string \<Rightarrow> (('z) world_scheme, js_error, unit) comp" where
  "fs_link old_path new_path = fs_op (\<lambda>w. case (w_nodes w old_path, w_nodes w new_path) of
     (None, _) \<Rightarrow> (Inl (fs_error ''ENOENT''), w)
   | (Some n, None) \<Rightarrow> (Inr (), w\<lparr>w_nodes := (w_nodes w)(new_path \<mapsto> n)\<rparr>)
   | (Some _, Some _) \<Rightarrow> (Inl (fs_error ''EEXIST''), w))"

definition fs_unlink :: "string \<Rightarrow> (('z) world_scheme, js_error, unit) comp" where
  "fs_unlink p = fs_op (\<lambda>w. case w_nodes w p of
     None \<Rightarrow> (Inl (fs_error ''ENOENT''), w)
   | Some FDir \<Rightarrow> (Inl (fs_error ''EISDIR''), w)
   | Some _ \<Rightarrow> (Inr (), w\<lparr>w_nodes := (w_nodes w)(p := None)\<rparr>))"

definition fs_open :: "string \<Rightarrow> (('z) world_scheme, js_error, fs_node) comp" where
  "fs_open p = fs_op (\<lambda>w. case w_nodes w p of
     None \<Rightarrow> (Inl (fs_error ''ENOENT''), w) | Some n \<Rightarrow> (Inr n, w))"

definition fs_open_nofollow :: "string \<Rightarrow> (('z) world_scheme, js_error, fs_node) comp" where
  "fs_open_nofollow p = fs_op (\<lambda>w. case w_nodes w p of
     None \<Rightarrow> (Inl (fs_error ''ENOENT''), w)
   | Some FSymlink \<Rightarrow> (Inl (fs_error ''ELOOP''), w)
   | Some n \<Rightarrow> (Inr n, w))"

section \<open>Keys and paths\<close>

definition is_hex :: "char \<Rightarrow> bool" where
  "is_hex c \<longleftrightarrow> is_digit c \<or> c \<in> set ''abcdef''"

definition storage_key :: "string \<Rightarrow> bool" where
  "storage_key k \<longleftrightarrow> (let a = take 2 (drop 3 k); b = take 2 (drop 6 k); c = take 32 (drop 9 k) in
     length a = 2 \<and> length b = 2 \<and> length c = 32 \<and> list_all is_hex a \<and> list_all is_hex b \<and>
     list_all is_hex c \<and> k = ''v1/'' @ a @ ''/'' @ b @ ''/'' @ c @ ''.json.gz'')"

text \<open>\<open>path.resolve(root, key)\<close> for a key without dot segments; the root is absolute and normal.\<close>

definition join_root :: "string \<Rightarrow> string \<Rightarrow> string" where
  "join_root base k = (if base = ''/'' then base @ k else base @ ''/'' @ k)"

definition invalid_store_path :: "string \<Rightarrow> js_error" where
  "invalid_store_path msg = artifact_error ''ARTIFACT_INVALID_PATH'' msg"

definition resolveKey :: "string \<Rightarrow> string \<Rightarrow> js_error + string" where
  "resolveKey base k =
     (if \<not> storage_key k then Inl (invalid_store_path ''storage key has an invalid format'')
      else let resolved = join_root base k
           in if \<not> starts_with (base @ ''/'') resolved
              then Inl (invalid_store_path ''storage key escapes the artifact root'')
              else Inr resolved)"

text \<open>The directories between the root and the parent of a key, outermost first.\<close>

fun below :: "string \<Rightarrow> string list \<Rightarrow> string list" where
  "below cur [] = []"
| "below cur (c # cs) = (cur @ ''/'' @ c) # below (cur @ ''/'' @ c) cs"

definition key_dirs :: "string \<Rightarrow> string \<Rightarrow> string list" where
  "key_dirs base k = below base (butlast (split_on CHR ''/'' k))"

definition parent_dir :: "string \<Rightarrow> string \<Rightarrow> string" where
  "parent_dir base k = last (base # key_dirs base k)"

section \<open>Errors\<close>

definition TRANSIENT_IO_CODES :: "string list" where
  "TRANSIENT_IO_CODES = [''EAGAIN'', ''EBUSY'', ''EDQUOT'', ''EINTR'', ''EIO'', ''EMFILE'', ''ENFILE'',
     ''ENOMEM'', ''ENOSPC'', ''ESTALE'', ''ETIMEDOUT'']"

definition store_error :: "string \<Rightarrow> string \<Rightarrow> bool \<Rightarrow> js_error \<Rightarrow> js_error" where
  "store_error code msg retryable cause =
     (artifact_error code (code @ '': '' @ msg))\<lparr>err_retryable := retryable, err_cause := err_code cause\<rparr>"

definition mapFilesystemError :: "js_error \<Rightarrow> string \<Rightarrow> string \<Rightarrow> js_error" where
  "mapFilesystemError e fallbackCode msg =
     (case err_code e of
        Some c \<Rightarrow> if c \<in> set TRANSIENT_IO_CODES then store_error ''ARTIFACT_STORE_UNAVAILABLE'' msg True e
                  else store_error fallbackCode msg False e
      | None \<Rightarrow> store_error fallbackCode msg False e)"

section \<open>Directories\<close>

definition assertDirectory :: "string \<Rightarrow> (('z) world_scheme, js_error, unit) comp" where
  "assertDirectory p = seq (fs_lstat p) (\<lambda>n.
     if n \<noteq> FDir then throw (invalid_store_path ''artifact path contains an unsafe component'') else ret ())"

definition directorySync :: "string \<Rightarrow> (('z) world_scheme, js_error, unit) comp" where
  "directorySync p = seq (fs_open p) (\<lambda>_. finally_do handle_sync handle_close)"

definition make_directory :: "string \<Rightarrow> (('z) world_scheme, js_error, unit) comp" where
  "make_directory p = seq
     (catch (fs_mkdir p) (\<lambda>e. if err_code e = Some ''EEXIST'' then ret () else throw e)) (\<lambda>_.
     assertDirectory p)"

definition ensureSafeParent :: "string \<Rightarrow> string \<Rightarrow> (('z) world_scheme, js_error, unit) comp" where
  "ensureSafeParent base k = seq (assertDirectory base) (\<lambda>_.
     seq (for_each (key_dirs base k) make_directory) (\<lambda>_.
     for_each (butlast (base # key_dirs base k)) directorySync))"

definition assertSafeParent :: "string \<Rightarrow> string \<Rightarrow> (('z) world_scheme, js_error, unit) comp" where
  "assertSafeParent base k = seq (assertDirectory base) (\<lambda>_.
     for_each (key_dirs base k) assertDirectory)"

section \<open>The operations\<close>

text \<open>The \<open>catch\<close> clause of \<open>put\<close>; \<open>publishing\<close> is true while \<open>link\<close> runs.\<close>

definition put_failed :: "bool \<Rightarrow> string \<Rightarrow> js_error \<Rightarrow> (('z) world_scheme, js_error, unit) comp" where
  "put_failed publishing parent e =
     (if err_artifact e then throw e
      else if publishing \<and> err_code e = Some ''EEXIST'' then
        seq (catch (directorySync parent)
              (\<lambda>s. throw (mapFilesystemError s ''ARTIFACT_WRITE_FAILED'' ''failed to sync artifact directory''))) (\<lambda>_.
        throw (store_error ''ARTIFACT_WRITE_FAILED'' ''artifact already exists'' False e))
      else throw (mapFilesystemError e ''ARTIFACT_WRITE_FAILED'' ''failed to write artifact''))"

definition write_temp :: "string \<Rightarrow> string \<Rightarrow> bytes \<Rightarrow> (('z) world_scheme, js_error, unit) comp" where
  "write_temp parent temp b = catch
     (seq (fs_writeFile temp b) (\<lambda>_. seq handle_sync (\<lambda>_. handle_close)))
     (\<lambda>e. finally_do (put_failed False parent e) close_quietly)"

definition publish_temp :: "string \<Rightarrow> string \<Rightarrow> string \<Rightarrow> (('z) world_scheme, js_error, unit) comp" where
  "publish_temp parent temp final = seq (catch (fs_link temp final) (put_failed True parent)) (\<lambda>_.
     catch (directorySync parent) (put_failed False parent))"

definition remove_temp :: "string \<Rightarrow> (('z) world_scheme, js_error, unit) comp" where
  "remove_temp temp = catch (fs_unlink temp) (\<lambda>_. ret ())"

definition temp_path :: "string \<Rightarrow> string \<Rightarrow> string" where
  "temp_path final random = final @ ''.'' @ random @ ''.tmp''"

definition store_put :: "string \<Rightarrow> string \<Rightarrow> string \<Rightarrow> bytes \<Rightarrow> (('z) world_scheme, js_error, unit) comp" where
  "store_put base random k b = seq (lift_result (resolveKey base k)) (\<lambda>final.
     let parent = parent_dir base k; temp = temp_path final random
     in seq (catch (seq (ensureSafeParent base k) (\<lambda>_. fs_open_exclusive temp)) (put_failed False parent)) (\<lambda>_.
        finally_do
          (seq (write_temp parent temp b) (\<lambda>_. publish_temp parent temp final))
          (remove_temp temp)))"

definition openRegularFile :: "string \<Rightarrow> (('z) world_scheme, js_error, bytes) comp" where
  "openRegularFile p = seq (fs_open_nofollow p) (\<lambda>n.
     catch (seq (fs_op (ret n)) (\<lambda>stats. case stats of
              FFile b \<Rightarrow> ret b
            | _ \<Rightarrow> throw (invalid_store_path ''artifact target must be a regular file'')))
       (\<lambda>e. seq close_quietly (\<lambda>_. throw e)))"

text \<open>The shared shape of \<open>get\<close>, \<open>stat\<close> and \<open>exists\<close>: what is seen with the handle, and with \<open>ENOENT\<close>.\<close>

definition read_failed :: "string \<Rightarrow> js_error \<Rightarrow> js_error" where
  "read_failed msg e =
     (if err_artifact e then e
      else if err_code e = Some ''ELOOP'' then store_error ''ARTIFACT_INVALID_PATH'' ''artifact target must not be a symbolic link'' False e
      else if err_code e = Some ''ENOENT'' then store_error ''ARTIFACT_NOT_FOUND'' ''artifact does not exist'' False e
      else mapFilesystemError e ''ARTIFACT_STORE_UNAVAILABLE'' msg)"

definition with_blob :: "string \<Rightarrow> string \<Rightarrow> string \<Rightarrow> (bytes \<Rightarrow> (('z) world_scheme, js_error, 'a) comp) \<Rightarrow>
    (('z) world_scheme, js_error, 'a) comp" where
  "with_blob base k final use_handle = seq (assertSafeParent base k) (\<lambda>_.
     seq (openRegularFile final) (\<lambda>b. finally_do (use_handle b) handle_close))"

definition store_get :: "string \<Rightarrow> string \<Rightarrow> (('z) world_scheme, js_error, bytes) comp" where
  "store_get base k = seq (lift_result (resolveKey base k)) (\<lambda>final.
     catch (with_blob base k final (\<lambda>b. fs_op (ret b)))
       (\<lambda>e. throw (read_failed ''failed to read artifact'' e)))"

definition store_stat :: "string \<Rightarrow> string \<Rightarrow> (('z) world_scheme, js_error, nat) comp" where
  "store_stat base k = seq (lift_result (resolveKey base k)) (\<lambda>final.
     catch (with_blob base k final (\<lambda>b. fs_op (ret (length b))))
       (\<lambda>e. throw (read_failed ''failed to inspect artifact'' e)))"

definition store_exists :: "string \<Rightarrow> string \<Rightarrow> (('z) world_scheme, js_error, bool) comp" where
  "store_exists base k = seq (lift_result (resolveKey base k)) (\<lambda>final.
     catch (with_blob base k final (\<lambda>b. ret True))
       (\<lambda>e. if err_code e = Some ''ENOENT'' then ret False
            else throw (read_failed ''failed to inspect artifact'' e)))"

text \<open>\<open>delete\<close>: the inner computation returns after the unlink; \<open>safeParent\<close> tells which part failed.\<close>

definition delete_failed :: "bool \<Rightarrow> string \<Rightarrow> js_error \<Rightarrow> (('z) world_scheme, js_error, unit) comp" where
  "delete_failed safeParent parent e =
     (if err_code e = Some ''ENOENT'' then
        (if safeParent then catch (directorySync parent)
           (\<lambda>s. throw (mapFilesystemError s ''ARTIFACT_STORE_UNAVAILABLE'' ''failed to sync artifact directory''))
         else ret ())
      else if err_artifact e then throw e
      else throw (mapFilesystemError e ''ARTIFACT_STORE_UNAVAILABLE'' ''failed to delete artifact''))"

definition unlink_blob :: "string \<Rightarrow> string \<Rightarrow> (('z) world_scheme, js_error, unit) comp" where
  "unlink_blob parent final = seq (fs_lstat final) (\<lambda>n. case n of
     FFile _ \<Rightarrow> seq (fs_unlink final) (\<lambda>_. directorySync parent)
   | _ \<Rightarrow> throw (invalid_store_path ''artifact target must be a regular file''))"

definition store_delete :: "string \<Rightarrow> string \<Rightarrow> (('z) world_scheme, js_error, unit) comp" where
  "store_delete base k = seq (lift_result (resolveKey base k)) (\<lambda>final.
     let parent = parent_dir base k
     in seq (catch (seq (assertSafeParent base k) (\<lambda>_. ret True))
               (\<lambda>e. seq (delete_failed False parent e) (\<lambda>_. ret False))) (\<lambda>safeParent.
        if safeParent then catch (unlink_blob parent final) (delete_failed True parent) else ret ()))"

section \<open>What every operation but \<open>delete\<close> keeps\<close>

text \<open>Directories stay, and so does every node whose name is not that of a temporary file.\<close>

definition store_kept :: "('z) world_scheme \<Rightarrow> ('z) world_scheme \<Rightarrow> bool" where
  "store_kept w w' \<longleftrightarrow> (\<forall>p n. w_nodes w p = Some n \<and> (n = FDir \<or> \<not> ends_with ''.tmp'' p) \<longrightarrow>
     w_nodes w' p = Some n)"

lemma store_kept_same [simp]: "w_nodes w' = w_nodes w \<Longrightarrow> store_kept w w'"
  by (simp add: store_kept_def)

lemma store_kept_new: "w_nodes w p = None \<Longrightarrow> store_kept w (w\<lparr>w_nodes := (w_nodes w)(p \<mapsto> n)\<rparr>)"
  by (auto simp: store_kept_def)

lemma store_kept_temp:
  "w_nodes w p = Some n \<Longrightarrow> n \<noteq> FDir \<Longrightarrow> ends_with ''.tmp'' p \<Longrightarrow>
   store_kept w (w\<lparr>w_nodes := (w_nodes w)(p := x)\<rparr>)"
  by (auto simp: store_kept_def)

interpretation blobs: store_order "store_kept :: ('z) world_scheme \<Rightarrow> 'z world_scheme \<Rightarrow> bool"
proof unfold_locales
  fix w :: "'z world_scheme" and e
  show "store_kept w (env_apply e w)"
    by (cases e) (auto split: option.split intro: store_kept_new)
qed (auto simp: store_kept_def)

lemma temp_path_ends [simp]: "ends_with ''.tmp'' (temp_path final random)"
  by (simp add: ends_with_def temp_path_def)

lemma fs_calls_keep [resp_intros]:
  "resp store_kept (fs_lstat p)" "resp store_kept (fs_mkdir p)" "resp store_kept (fs_open_exclusive p)"
  "resp store_kept (fs_link q p)" "resp store_kept (fs_open p)" "resp store_kept (fs_open_nofollow p)"
  "resp store_kept handle_sync" "resp store_kept handle_close"
  "resp store_kept (fs_op (ret a))"
  unfolding fs_lstat_def fs_mkdir_def fs_open_exclusive_def fs_link_def fs_open_def fs_open_nofollow_def
    handle_sync_def handle_close_def
  by (rule blobs.resp_fs_op; auto simp: resp_def ret_def store_kept_new split: option.split fs_node.split)+

lemma temp_calls_keep [resp_intros]:
  "ends_with ''.tmp'' p \<Longrightarrow> resp store_kept (fs_append p b)"
  "ends_with ''.tmp'' p \<Longrightarrow> resp store_kept (fs_unlink p)"
  unfolding fs_append_def fs_unlink_def
  by (rule blobs.resp_fs_op; auto simp: resp_def store_kept_temp split: option.split fs_node.split)+

lemmas blob_steps = resp_intros blobs.resp_rules blobs.resp_seq blobs.resp_catch blobs.resp_finally
  blobs.resp_for_each

lemma directory_steps_keep [resp_intros]:
  "resp store_kept (assertDirectory p)" "resp store_kept (directorySync p)" "resp store_kept (make_directory p)"
  "resp store_kept (assertSafeParent base k)" "resp store_kept (ensureSafeParent base k)"
  unfolding assertDirectory_def directorySync_def make_directory_def assertSafeParent_def ensureSafeParent_def
  by (intro blob_steps)+

lemma open_keeps [resp_intros]: "resp store_kept close_quietly" "resp store_kept (openRegularFile p)"
  unfolding close_quietly_def openRegularFile_def
  by (intro blob_steps resp_intros; auto split: fs_node.split intro: blobs.resp_ret blobs.resp_throw)+

lemma with_blob_keeps [resp_intros]:
  "(\<And>b. resp store_kept (f b)) \<Longrightarrow> resp store_kept (with_blob base k p f)"
  unfolding with_blob_def by (intro blob_steps resp_intros)

lemma put_failed_keeps [resp_intros]: "resp store_kept (put_failed p parent e)"
  unfolding put_failed_def by (intro blob_steps resp_intros)

lemma store_operations_keep:
  "resp store_kept (store_put base random k b)" "resp store_kept (store_get base k)"
  "resp store_kept (store_stat base k)" "resp store_kept (store_exists base k)"
  unfolding store_put_def write_temp_def publish_temp_def remove_temp_def fs_writeFile_def
    store_get_def store_stat_def store_exists_def
  by (intro blob_steps resp_intros temp_path_ends)+

text \<open>A relation that does not look at the disk is respected by every operation.\<close>

locale disk_order = store_order R for R :: "('z) world_scheme \<Rightarrow> ('z) world_scheme \<Rightarrow> bool" +
  assumes R_disk: "R w (w\<lparr>w_nodes := n\<rparr>)"
begin

lemma disk_calls:
  "resp R (fs_lstat p)" "resp R (fs_mkdir p)" "resp R (fs_open_exclusive p)" "resp R (fs_append p b)"
  "resp R (fs_link q p)" "resp R (fs_unlink p)" "resp R (fs_open p)" "resp R (fs_open_nofollow p)"
  "resp R handle_sync" "resp R handle_close" "resp R (fs_op (ret a))"
  unfolding fs_lstat_def fs_mkdir_def fs_open_exclusive_def fs_append_def fs_link_def fs_unlink_def
    fs_open_def fs_open_nofollow_def handle_sync_def handle_close_def
  by (rule resp_fs_op; auto simp: resp_def ret_def R_refl R_disk split: option.split fs_node.split)+

lemmas disk_steps = disk_calls resp_rules resp_seq resp_catch resp_finally resp_for_each

lemma disk_directories:
  "resp R (assertDirectory p)" "resp R (directorySync p)" "resp R (make_directory p)"
  "resp R (assertSafeParent base k)" "resp R (ensureSafeParent base k)" "resp R close_quietly"
  unfolding assertDirectory_def directorySync_def make_directory_def assertSafeParent_def ensureSafeParent_def
    close_quietly_def
  by (intro disk_steps)+

lemma disk_blob: "resp R (openRegularFile p)" "(\<And>b. resp R (f b)) \<Longrightarrow> resp R (with_blob base k q f)"
proof -
  show "resp R (openRegularFile q)" for q
    unfolding openRegularFile_def
    by (intro disk_steps disk_directories; auto split: fs_node.split intro: resp_ret resp_throw)
  then show "(\<And>b. resp R (f b)) \<Longrightarrow> resp R (with_blob base k q f)"
    unfolding with_blob_def by (intro disk_steps disk_directories)
qed

lemma disk_failed: "resp R (put_failed p parent e)" "resp R (delete_failed p parent e)"
  unfolding put_failed_def delete_failed_def by (intro disk_steps disk_directories)+

lemma disk_unlink: "resp R (unlink_blob parent q)"
  unfolding unlink_blob_def
  by (intro disk_steps disk_directories; auto split: fs_node.split
      intro: resp_throw resp_seq disk_calls disk_directories)

lemma disk_operations:
  "resp R (store_put base random k b)" "resp R (store_get base k)" "resp R (store_stat base k)"
  "resp R (store_exists base k)" "resp R (store_delete base k)"
  unfolding store_put_def write_temp_def publish_temp_def remove_temp_def fs_writeFile_def
    store_get_def store_stat_def store_exists_def store_delete_def
  by (intro disk_steps disk_directories disk_blob disk_failed disk_unlink)+

end

section \<open>Publication\<close>

lemma storage_key_start: "storage_key k \<Longrightarrow> \<exists>t. k = CHR ''v'' # t"
  by (auto simp: storage_key_def Let_def)

lemma resolveKey_parts:
  assumes "resolveKey base k = Inr final"
  shows "storage_key k" "final = base @ ''/'' @ k"
proof -
  show k: "storage_key k" using assms by (auto simp: resolveKey_def Let_def split: if_splits)
  have "starts_with (base @ ''/'') (join_root base k)" "final = join_root base k"
    using assms by (auto simp: resolveKey_def Let_def split: if_splits)
  moreover have "\<not> starts_with (''/'' @ ''/'') (''/'' @ k)"
    using storage_key_start [OF k] by auto
  ultimately show "final = base @ ''/'' @ k" by (auto simp: join_root_def split: if_splits)
qed

lemma below_length: "d \<in> set (below cur cs) \<Longrightarrow> length d \<le> length cur + length (concat cs) + length cs"
proof (induction cs arbitrary: cur)
  case Nil
  then show ?case by simp
next
  case (Cons c cs)
  then show ?case by (cases "d = cur @ ''/'' @ c") (auto dest!: Cons.IH)
qed

lemma split_length: "length (concat (split_on c s)) + length (split_on c s) = Suc (length s)"
  by (induction s) (auto split: list.split)

lemma length_butlast_concat: "ws \<noteq> [] \<Longrightarrow>
    length (concat (butlast ws)) + length (last ws) = length (concat ws)"
  by (induction ws) auto

lemma final_not_dir:
  assumes "resolveKey base k = Inr final"
  shows "final \<notin> set (key_dirs base k)"
proof
  assume "final \<in> set (key_dirs base k)"
  then have "length final \<le> length base + length (concat (butlast (split_on CHR ''/'' k)))
      + length (butlast (split_on CHR ''/'' k))"
    unfolding key_dirs_def by (rule below_length)
  moreover have "length (concat (butlast (split_on CHR ''/'' k))) \<le> length (concat (split_on CHR ''/'' k))"
    using length_butlast_concat [of "split_on CHR ''/'' k"] by simp
  moreover have "length final = length base + Suc (length k)"
    using resolveKey_parts(2) [OF assms] by simp
  ultimately show False
    using split_length [of "CHR ''/''" k] by (cases "length (split_on CHR ''/'' k)") simp_all
qed

lemma ends_with_last: "ends_with s p \<Longrightarrow> s \<noteq> [] \<Longrightarrow> last p = last s"
  unfolding ends_with_def by (metis append_take_drop_id last_appendR)

lemma key_no_temp:
  assumes "storage_key k"
  shows "\<not> ends_with ''.tmp'' (base @ ''/'' @ k)"
proof
  let ?long = "''v1/'' @ take 2 (drop 3 k) @ ''/'' @ take 2 (drop 6 k) @ ''/'' @ take 32 (drop 9 k) @ ''.json.gz''"
  from assms have "k = ?long" unfolding storage_key_def Let_def by blast
  then have "last k = last ?long" by (rule arg_cong)
  then have "last k = CHR ''z''" by simp
  moreover have "k \<noteq> []" using storage_key_start [OF assms] by auto
  moreover assume "ends_with ''.tmp'' (base @ ''/'' @ k)"
  ultimately show False by (auto dest!: ends_with_last)
qed

lemma resolve_no_temp:
  assumes "resolveKey base k = Inr final" shows "\<not> ends_with ''.tmp'' final"
  using key_no_temp [OF resolveKey_parts(1) [OF assms]] resolveKey_parts(2) [OF assms] by simp

lemma temp_path_neq [simp]: "temp_path final random \<noteq> final"
  by (simp add: temp_path_def)

lemma concat_chunks [simp]: "concat (chunks b) = b"
  by (induction b rule: chunks.induct) (subst chunks.simps, simp)

text \<open>Stable facts: directories that were seen, the content written so far, the published blob.\<close>

definition dirs_at :: "string list \<Rightarrow> ('z) world_scheme \<Rightarrow> bool" where
  "dirs_at ps w \<longleftrightarrow> (\<forall>p \<in> set ps. w_nodes w p = Some FDir)"

definition file_at :: "string \<Rightarrow> bytes \<Rightarrow> ('z) world_scheme \<Rightarrow> bool" where
  "file_at p b w \<longleftrightarrow> w_nodes w p = Some (FFile b)"

lemma env_keeps_node: "w_nodes w p = Some n \<Longrightarrow> w_nodes (env_apply e w) p = Some n"
  by (cases e) (auto split: option.split)

lemma stable_dirs [simp]: "stable ok (dirs_at ps)"
  by (simp add: stable_def dirs_at_def env_keeps_node)

lemma stable_file [simp]: "stable ok (file_at p b)"
  by (simp add: stable_def file_at_def env_keeps_node)

lemma triple_read:
  "stable ok P \<Longrightarrow> (\<And>w. snd (f w) = w) \<Longrightarrow> triple ok P (fs_op f) (\<lambda>_. P) (\<lambda>_. P)"
  by (rule triple_fs_op [where F = P]) (auto simp: atomic_triple_def split: sum.split)

lemma triple_reading_calls:
  assumes "stable ok P"
  shows "triple ok P (fs_lstat p) (\<lambda>_. P) (\<lambda>_. P)" "triple ok P (fs_open p) (\<lambda>_. P) (\<lambda>_. P)"
    "triple ok P handle_sync (\<lambda>_. P) (\<lambda>_. P)" "triple ok P handle_close (\<lambda>_. P) (\<lambda>_. P)"
  unfolding fs_lstat_def fs_open_def handle_sync_def handle_close_def
  by (rule triple_read [OF assms]; auto simp: ret_def split: option.split)+

lemma triple_assertDirectory:
  assumes "stable ok P"
  shows "triple ok P (assertDirectory p) (\<lambda>_ w. P w \<and> w_nodes w p = Some FDir) (\<lambda>_. P)"
  unfolding assertDirectory_def fs_lstat_def
  by (rule triple_seq [where Q = "\<lambda>n w. P w \<and> w_nodes w p = Some n"],
      rule triple_fs_op [where F = P], rule assms)
     (auto simp: atomic_triple_def split: option.split intro: triple_ret triple_throw)

lemma triple_directorySync:
  assumes "stable ok P"
  shows "triple ok P (directorySync p) (\<lambda>_. P) (\<lambda>_. P)"
  unfolding directorySync_def
  by (rule triple_seq [OF triple_reading_calls(2) [OF assms]],
      rule triple_finally [OF triple_reading_calls(3) [OF assms]]; rule triple_reading_calls [OF assms])

lemma triple_for_each:
  assumes "\<And>seen x. x \<in> set xs \<Longrightarrow> triple ok (J seen) (f x) (\<lambda>_. J (seen @ [x])) E"
  shows "triple ok (J seen) (for_each xs f) (\<lambda>_. J (seen @ xs)) E"
  using assms
proof (induction xs arbitrary: seen)
  case Nil
  then show ?case by (auto intro: triple_ret)
next
  case (Cons x xs)
  have "triple ok (J (seen @ [x])) (for_each xs f) (\<lambda>_. J ((seen @ [x]) @ xs)) E"
    by (rule Cons.IH) (simp add: Cons.prems)
  then show ?case by (auto intro: triple_seq [OF Cons.prems])
qed

lemma triple_put_failed:
  assumes "stable ok P"
  shows "triple ok P (put_failed publishing parent e) (\<lambda>_ _. False) (\<lambda>_. P)"
  unfolding put_failed_def
  by (intro triple_if triple_throw triple_seq [where Q = "\<lambda>_. P"] triple_catch [OF triple_directorySync [OF assms]])

text \<open>The phases of \<open>put\<close>, for a condition \<open>I\<close> on the store and a fact \<open>B\<close>.\<close>

definition before :: "(('z) world_scheme \<Rightarrow> bool) \<Rightarrow> string list \<Rightarrow> ('z) world_scheme \<Rightarrow> bool" where
  "before I ps w \<longleftrightarrow> I w \<and> dirs_at ps w"

definition writing :: "(('z) world_scheme \<Rightarrow> bool) \<Rightarrow> string list \<Rightarrow> string \<Rightarrow> bytes \<Rightarrow> ('z) world_scheme \<Rightarrow> bool" where
  "writing I ps temp c w \<longleftrightarrow> I w \<and> dirs_at ps w \<and> file_at temp c w"

definition published :: "bool \<Rightarrow> string \<Rightarrow> string list \<Rightarrow> bytes \<Rightarrow> ('z) world_scheme \<Rightarrow> bool" where
  "published B final ps b w \<longleftrightarrow> B \<and> dirs_at ps w \<and> file_at final b w"

definition put_broken :: "(('z) world_scheme \<Rightarrow> bool) \<Rightarrow> bool \<Rightarrow> string \<Rightarrow> bytes \<Rightarrow> ('z) world_scheme \<Rightarrow> bool" where
  "put_broken I B final b w \<longleftrightarrow> I w \<or> B \<and> file_at final b w"

lemma published_stable [simp]: "stable ok (published B final ps b)"
  by (auto simp: stable_def published_def dirs_at_def file_at_def env_keeps_node)

text \<open>
  The contract of a claim about publication: a condition \<open>I\<close> on the store that is stable and does
  not look at other names than the final one, and a fact \<open>B\<close> that it gives while the name is free.
\<close>

locale publication =
  fixes ok :: "string \<Rightarrow> env_step \<Rightarrow> bool" and I :: "string \<Rightarrow> ('z) world_scheme \<Rightarrow> bool" and B :: bool
  assumes I_stable: "stable (ok final) (I final)"
    and I_elsewhere: "p \<noteq> final \<Longrightarrow> I final w \<Longrightarrow> I final (w\<lparr>w_nodes := (w_nodes w)(p := x)\<rparr>)"
    and I_free: "I final w \<Longrightarrow> w_nodes w final = None \<Longrightarrow> B"
begin

lemma stable_phases:
  "stable (ok final) (before (I final) ps)" "stable (ok final) (writing (I final) ps temp c)"
  "stable (ok final) (put_broken (I final) B final b)"
  using I_stable [of final]
  by (auto simp: stable_def before_def writing_def put_broken_def dirs_at_def file_at_def env_keeps_node)

lemma make_dir:
  assumes "d \<noteq> final"
  shows "triple (ok final) (before (I final) ps) (make_directory d)
    (\<lambda>_. before (I final) (ps @ [d])) (\<lambda>_. put_broken (I final) B final b)"
  unfolding make_directory_def
proof (rule triple_seq [where Q = "\<lambda>_. before (I final) ps"])
  show "triple (ok final) (before (I final) ps)
      (catch (fs_mkdir d) (\<lambda>e. if err_code e = Some ''EEXIST'' then ret () else throw e))
      (\<lambda>_. before (I final) ps) (\<lambda>_. put_broken (I final) B final b)"
  proof (rule triple_catch [where X = "\<lambda>_. before (I final) ps"])
    show "triple (ok final) (before (I final) ps) (fs_mkdir d) (\<lambda>_. before (I final) ps) (\<lambda>_. before (I final) ps)"
      unfolding fs_mkdir_def
      by (rule triple_fs_op [where F = "before (I final) ps"], rule stable_phases)
         (use assms in \<open>auto simp: atomic_triple_def before_def dirs_at_def I_elsewhere split: option.split\<close>)
  qed (auto simp: before_def put_broken_def intro!: triple_if triple_ret triple_throw)
next
  show "triple (ok final) (before (I final) ps) (assertDirectory d)
      (\<lambda>_. before (I final) (ps @ [d])) (\<lambda>_. put_broken (I final) B final b)"
    by (rule triple_post [OF triple_assertDirectory [OF stable_phases(1)]])
       (auto simp: before_def put_broken_def dirs_at_def)
qed

lemma ensure_parent:
  assumes "final \<notin> set (key_dirs base k)"
  shows "triple (ok final) (I final) (ensureSafeParent base k)
    (\<lambda>_. before (I final) (base # key_dirs base k)) (\<lambda>_. put_broken (I final) B final b)"
  unfolding ensureSafeParent_def
proof (rule triple_seq [where Q = "\<lambda>_. before (I final) [base]"], goal_cases)
  case 1
  show ?case
    by (rule triple_post [OF triple_assertDirectory [OF I_stable]])
       (auto simp: before_def put_broken_def dirs_at_def)
next
  case 2
  show ?case
  proof (rule triple_seq [where Q = "\<lambda>_. before (I final) (base # key_dirs base k)"], goal_cases)
    case 1
    show ?case
    proof (rule triple_for_each [where J = "\<lambda>seen. before (I final) (base # seen)" and seen = "[]", simplified])
      fix seen d assume "d \<in> set (key_dirs base k)"
      with assms have "d \<noteq> final" by blast
      from make_dir [OF this, of "base # seen"]
      show "triple (ok final) (before (I final) (base # seen)) (make_directory d)
          (\<lambda>_. before (I final) (base # seen @ [d])) (\<lambda>_. put_broken (I final) B final b)" by simp
    qed
  next
    case (2 u)
    show ?case
      by (rule triple_for_each [where J = "\<lambda>_. before (I final) (base # key_dirs base k)"],
          rule triple_post [OF triple_directorySync [OF stable_phases(1)]])
         (auto simp: before_def put_broken_def)
  qed
qed

lemma open_temp:
  assumes "temp \<noteq> final"
  shows "triple (ok final) (before (I final) ps) (fs_open_exclusive temp)
    (\<lambda>_. writing (I final) ps temp []) (\<lambda>_. put_broken (I final) B final b)"
  unfolding fs_open_exclusive_def
  by (rule triple_fs_op [where F = "before (I final) ps"], rule stable_phases)
     (use assms in \<open>auto simp: atomic_triple_def before_def writing_def put_broken_def dirs_at_def file_at_def
        I_elsewhere split: option.split\<close>)

lemma append_temp:
  assumes "temp \<noteq> final"
  shows "triple (ok final) (writing (I final) ps temp c) (fs_append temp x)
    (\<lambda>_. writing (I final) ps temp (c @ x)) (\<lambda>_. put_broken (I final) B final b)"
  unfolding fs_append_def
  by (rule triple_fs_op [where F = "I final"], rule stable_phases)
     (use assms in \<open>auto simp: atomic_triple_def writing_def put_broken_def dirs_at_def file_at_def
        I_elsewhere split: option.split\<close>)

lemma write_temp_phase:
  assumes "temp \<noteq> final"
  shows "triple (ok final) (writing (I final) ps temp []) (write_temp parent temp b)
    (\<lambda>_. writing (I final) ps temp b) (\<lambda>_. put_broken (I final) B final b)"
  unfolding write_temp_def
proof (rule triple_catch [where X = "\<lambda>_. put_broken (I final) B final b"])
  have "triple (ok final) (writing (I final) ps temp []) (fs_writeFile temp b)
      (\<lambda>_. writing (I final) ps temp b) (\<lambda>_. put_broken (I final) B final b)"
    using triple_for_each [of "chunks b" "ok final" "\<lambda>seen. writing (I final) ps temp (concat seen)"
        "fs_append temp" "\<lambda>_. put_broken (I final) B final b" "[]"] append_temp [OF assms]
    by (simp add: fs_writeFile_def)
  moreover have "triple (ok final) (writing (I final) ps temp b) (seq handle_sync (\<lambda>_. handle_close))
      (\<lambda>_. writing (I final) ps temp b) (\<lambda>_. put_broken (I final) B final b)"
    by (rule triple_post [OF triple_seq [OF triple_reading_calls(3) triple_reading_calls(4)]];
        (rule stable_phases)?)
       (auto simp: writing_def put_broken_def)
  ultimately show "triple (ok final) (writing (I final) ps temp [])
      (seq (fs_writeFile temp b) (\<lambda>_. seq handle_sync (\<lambda>_. handle_close)))
      (\<lambda>_. writing (I final) ps temp b) (\<lambda>_. put_broken (I final) B final b)"
    by (rule triple_seq)
next
  fix e
  have close: "triple (ok final) P close_quietly (\<lambda>_. P) (\<lambda>_. P)" if "stable (ok final) P" for P
    unfolding close_quietly_def
    by (rule triple_catch [OF triple_reading_calls(4) [OF that]]) (rule triple_ret)
  show "triple (ok final) (put_broken (I final) B final b) (finally_do (put_failed False parent e) close_quietly)
      (\<lambda>_. writing (I final) ps temp b) (\<lambda>_. put_broken (I final) B final b)"
    by (rule triple_finally [OF triple_put_failed [OF stable_phases(3)]])
       (auto intro: close stable_phases triple_weak [OF close [OF stable_pure]])
qed

lemma publish_phase:
  assumes "temp \<noteq> final"
  shows "triple (ok final) (writing (I final) ps temp b) (publish_temp parent temp final)
    (\<lambda>_. published B final ps b) (\<lambda>_. put_broken (I final) B final b)"
  unfolding publish_temp_def
proof (rule triple_seq [where Q = "\<lambda>_. published B final ps b"])
  have "triple (ok final) (writing (I final) ps temp b) (fs_link temp final)
      (\<lambda>_. published B final ps b) (\<lambda>_. put_broken (I final) B final b)"
    unfolding fs_link_def
    by (rule triple_fs_op [where F = "put_broken (I final) B final b"], rule stable_phases)
       (use I_free [of final] in \<open>auto simp: atomic_triple_def writing_def put_broken_def published_def
          dirs_at_def file_at_def split: option.split\<close>)
  then show "triple (ok final) (writing (I final) ps temp b) (catch (fs_link temp final) (put_failed True parent))
      (\<lambda>_. published B final ps b) (\<lambda>_. put_broken (I final) B final b)"
    by (rule triple_catch) (rule triple_post [OF triple_put_failed [OF stable_phases(3)]], simp_all)
next
  show "triple (ok final) (published B final ps b) (catch (directorySync parent) (put_failed False parent))
      (\<lambda>_. published B final ps b) (\<lambda>_. put_broken (I final) B final b)"
    by (rule triple_catch [where X = "\<lambda>_. put_broken (I final) B final b"],
        rule triple_post [OF triple_directorySync [OF published_stable]])
       (auto simp: published_def put_broken_def intro: triple_post [OF triple_put_failed [OF stable_phases(3)]])
qed

lemma remove_phase:
  assumes "temp \<noteq> final"
  shows "triple (ok final) (published B final ps b) (remove_temp temp) (\<lambda>_. published B final ps b) E"
    and "triple (ok final) (put_broken (I final) B final b) (remove_temp temp)
      (\<lambda>_. put_broken (I final) B final b) E"
proof -
  have unlink: "triple (ok final) P (fs_unlink temp) (\<lambda>_. P) (\<lambda>_. P)"
    if "stable (ok final) P" "\<And>w n. P w \<Longrightarrow> w_nodes w temp = Some n \<Longrightarrow> n \<noteq> FDir \<Longrightarrow>
      P (w\<lparr>w_nodes := (w_nodes w)(temp := None)\<rparr>)" for P
    unfolding fs_unlink_def
    by (rule triple_fs_op [where F = P])
       (use that in \<open>auto simp: atomic_triple_def split: option.split fs_node.split\<close>)
  show "triple (ok final) (published B final ps b) (remove_temp temp) (\<lambda>_. published B final ps b) E"
    unfolding remove_temp_def
    by (rule triple_catch [OF unlink [OF published_stable]])
       (use assms in \<open>auto simp: published_def dirs_at_def file_at_def intro!: triple_ret\<close>)
  show "triple (ok final) (put_broken (I final) B final b) (remove_temp temp)
      (\<lambda>_. put_broken (I final) B final b) E"
    unfolding remove_temp_def
    by (rule triple_catch [OF unlink [OF stable_phases(3)]])
       (use assms in \<open>auto simp: put_broken_def file_at_def I_elsewhere intro!: triple_ret\<close>)
qed

lemma put_phases:
  assumes "resolveKey base k = Inr final"
  shows "triple (ok final) (I final) (store_put base random k b)
    (\<lambda>_. published B final (base # key_dirs base k) b) (\<lambda>_. put_broken (I final) B final b)"
proof -
  let ?temp = "temp_path final random" and ?parent = "parent_dir base k"
  let ?ps = "base # key_dirs base k"
  have open_phase: "triple (ok final) (I final)
      (catch (seq (ensureSafeParent base k) (\<lambda>_. fs_open_exclusive ?temp)) (put_failed False ?parent))
      (\<lambda>_. writing (I final) ?ps ?temp []) (\<lambda>_. put_broken (I final) B final b)"
    by (rule triple_catch [OF triple_seq [OF ensure_parent [OF final_not_dir [OF assms]] open_temp [OF temp_path_neq]]],
        rule triple_post [OF triple_put_failed [OF stable_phases(3)]]) simp_all
  have "triple (ok final) (writing (I final) ?ps ?temp [])
      (finally_do (seq (write_temp ?parent ?temp b) (\<lambda>_. publish_temp ?parent ?temp final)) (remove_temp ?temp))
      (\<lambda>_. published B final ?ps b) (\<lambda>_. put_broken (I final) B final b)"
    by (rule triple_finally [OF triple_seq [OF write_temp_phase [OF temp_path_neq] publish_phase [OF temp_path_neq]]];
        rule remove_phase [OF temp_path_neq])
  with open_phase have "triple (ok final) (I final)
      (seq (catch (seq (ensureSafeParent base k) (\<lambda>_. fs_open_exclusive ?temp)) (put_failed False ?parent))
        (\<lambda>_. finally_do (seq (write_temp ?parent ?temp b) (\<lambda>_. publish_temp ?parent ?temp final)) (remove_temp ?temp)))
      (\<lambda>_. published B final ?ps b) (\<lambda>_. put_broken (I final) B final b)"
    by (rule triple_seq)
  then show ?thesis
    by (simp add: store_put_def assms lift_result_def seq_def [of "Pair (Inr final)"] Let_def)
qed

end

text \<open>Its instances: nothing known, the name free and left alone by others, and the name taken.\<close>

definition no_creation :: "string \<Rightarrow> env_step \<Rightarrow> bool" where
  "no_creation p e \<longleftrightarrow> (case e of EnvFsCreate q _ \<Rightarrow> q \<noteq> p | _ \<Rightarrow> True)"

lemma no_creation_stable: "stable (no_creation p) (\<lambda>w :: 'z world_scheme. w_nodes w p = None)"
proof -
  have "w_nodes (env_apply e w) p = None" if "no_creation p e" "w_nodes w p = None"
    for e and w :: "'z world_scheme"
    using that by (cases e) (auto simp: no_creation_def split: option.split)
  then show ?thesis by (simp add: stable_def)
qed

interpretation any_put: publication "\<lambda>_. any_step" "\<lambda>_ _. True" True
  by unfold_locales simp_all

interpretation first_put: publication no_creation "\<lambda>final w. w_nodes w final = None" True
  by unfold_locales (simp_all add: no_creation_stable)

interpretation late_put: publication "\<lambda>_. any_step" "\<lambda>final w. w_nodes w final \<noteq> None" False
  by unfold_locales (auto simp: stable_def dest: env_keeps_node)

section \<open>Reading and deleting\<close>

lemma open_regular_reads:
  "triple any_step (\<lambda>_. True) (openRegularFile p) (\<lambda>b. file_at p b) (\<lambda>_ _. True)"
proof -
  have "triple any_step (\<lambda>_. True) (fs_open_nofollow p) (\<lambda>n w. w_nodes w p = Some n) (\<lambda>_ _. True)"
    unfolding fs_open_nofollow_def
    by (rule triple_fs_op [where F = "\<lambda>_. True"])
       (auto simp: atomic_triple_def split: option.split fs_node.split)
  moreover have "triple any_step (\<lambda>w. w_nodes w p = Some n)
      (catch (seq (fs_op (ret n)) (\<lambda>stats. case stats of FFile b \<Rightarrow> ret b
         | _ \<Rightarrow> throw (invalid_store_path ''artifact target must be a regular file'')))
       (\<lambda>e. seq close_quietly (\<lambda>_. throw e)))
      (\<lambda>b. file_at p b) (\<lambda>_ _. True)" for n
  proof (rule triple_catch [where X = "\<lambda>_ _. True"])
    have "triple any_step (\<lambda>w. w_nodes w p = Some n) (fs_op (ret n))
        (\<lambda>m w. w_nodes w p = Some m) (\<lambda>_ _. True)"
      by (rule triple_fs_op [where F = "\<lambda>_. True"])
         (auto simp: atomic_triple_def ret_def stable_def env_keeps_node)
    then show "triple any_step (\<lambda>w. w_nodes w p = Some n)
        (seq (fs_op (ret n)) (\<lambda>stats. case stats of FFile b \<Rightarrow> ret b
         | _ \<Rightarrow> throw (invalid_store_path ''artifact target must be a regular file'')))
        (\<lambda>b. file_at p b) (\<lambda>_ _. True)"
      by (rule triple_seq)
         (auto split: fs_node.split simp: file_at_def intro: triple_ret triple_throw)
  next
    fix e :: js_error
    have "triple any_step (\<lambda>_. True) close_quietly (\<lambda>_ _. True) (\<lambda>_ _. True)"
      unfolding triple_def by (auto split: prod.split sum.split)
    then show "triple any_step (\<lambda>_. True) (seq close_quietly (\<lambda>_. throw e)) (\<lambda>b. file_at p b) (\<lambda>_ _. True)"
      by (rule triple_seq) (rule triple_throw, simp)
  qed
  ultimately show ?thesis unfolding openRegularFile_def by (rule triple_seq)
qed

lemma get_reads:
  assumes "resolveKey base k = Inr final"
  shows "triple any_step (\<lambda>_. True) (store_get base k) (\<lambda>b. file_at final b) (\<lambda>_ _. True)"
proof -
  have use: "triple any_step (file_at final b) (finally_do (fs_op (ret b)) handle_close) (\<lambda>c. file_at final c)
      (\<lambda>_ _. True)" for b
  proof (rule triple_finally [where Q = "\<lambda>c. file_at final c" and X = "\<lambda>_ _. True"])
    show "triple any_step (file_at final b) (fs_op (ret b)) (\<lambda>c. file_at final c) (\<lambda>_ _. True)"
      by (rule triple_fs_op [where F = "\<lambda>_. True"]) (auto simp: atomic_triple_def ret_def)
  qed (auto intro: triple_trivial triple_post [OF triple_reading_calls(4)])
  have "triple any_step (\<lambda>_. True) (with_blob base k final (\<lambda>b. fs_op (ret b))) (\<lambda>b. file_at final b) (\<lambda>_ _. True)"
    unfolding with_blob_def
    by (rule triple_seq [OF triple_trivial triple_seq [OF open_regular_reads use]])
  then have "triple any_step (\<lambda>_. True)
      (catch (with_blob base k final (\<lambda>b. fs_op (ret b))) (\<lambda>e. throw (read_failed ''failed to read artifact'' e)))
      (\<lambda>b. file_at final b) (\<lambda>_ _. True)"
    by (rule triple_catch) (rule triple_throw, simp)
  then show ?thesis by (simp add: store_get_def assms lift_result_def seq_def [of "Pair (Inr final)"])
qed

lemma assert_idle:
  "w_sched w = [] \<Longrightarrow> w_nodes w p = Some FDir \<Longrightarrow> assertDirectory p w = (Inr (), w)"
  by (simp add: assertDirectory_def fs_lstat_def seq_def fs_op_idle ret_def)

lemma assert_all_idle:
  "w_sched w = [] \<Longrightarrow> dirs_at ps w \<Longrightarrow> for_each ps assertDirectory w = (Inr (), w)"
  by (induction ps) (simp_all add: ret_def seq_def assert_idle dirs_at_def)

lemma get_idle:
  assumes "resolveKey base k = Inr final" "dirs_at (base # key_dirs base k) w" "file_at final b w"
    and "w_sched w = []"
  shows "store_get base k w = (Inr b, w)"
proof -
  have "assertSafeParent base k w = (Inr (), w)"
    using assms(2,4) by (simp add: assertSafeParent_def dirs_at_def assert_idle assert_all_idle seq_def)
  moreover have "openRegularFile final w = (Inr b, w)"
    using assms(3,4)
    by (simp add: openRegularFile_def fs_open_nofollow_def file_at_def seq_def catch_def fs_op_idle ret_def)
  moreover have "finally_do (fs_op (ret b)) handle_close w = (Inr b, w)"
    using assms(4) by (simp add: finally_do_def handle_close_def fs_op_idle ret_def)
  ultimately show ?thesis
    using assms(1) by (simp add: store_get_def with_blob_def seq_def catch_def lift_result_def)
qed

text \<open>\<open>delete\<close> removes no other name.\<close>

definition others_kept :: "string \<Rightarrow> ('z) world_scheme \<Rightarrow> ('z) world_scheme \<Rightarrow> bool" where
  "others_kept final w w' \<longleftrightarrow> (\<forall>p n. p \<noteq> final \<longrightarrow> w_nodes w p = Some n \<longrightarrow> w_nodes w' p = Some n)"

interpretation others: store_order "others_kept final :: ('z) world_scheme \<Rightarrow> 'z world_scheme \<Rightarrow> bool"
proof unfold_locales
  fix w :: "'z world_scheme" and e
  show "others_kept final w (env_apply e w)"
    by (simp add: others_kept_def env_keeps_node)
qed (auto simp: others_kept_def)

lemmas other_steps = others.resp_rules others.resp_seq others.resp_catch others.resp_finally
  others.resp_for_each

lemma reading_others:
  "resp (others_kept final) (assertSafeParent base k)" "resp (others_kept final) (directorySync p)"
  "resp (others_kept final) (fs_lstat p)" "resp (others_kept final) (fs_unlink final)"
  unfolding assertSafeParent_def assertDirectory_def directorySync_def fs_lstat_def fs_open_def
    handle_sync_def handle_close_def fs_unlink_def
  by (intro other_steps others.resp_fs_op;
      auto simp: resp_def ret_def others_kept_def split: option.split fs_node.split)+

lemma delete_others:
  assumes "resolveKey base k = Inr final"
  shows "resp (others_kept final) (store_delete base k :: ('z world_scheme, _, _) comp)"
proof -
  have failed: "resp (others_kept final) (delete_failed safe parent e :: ('z world_scheme, _, _) comp)" for safe parent e
    unfolding delete_failed_def by (intro other_steps reading_others)
  have unlink: "resp (others_kept final) (unlink_blob parent final :: ('z world_scheme, _, _) comp)" for parent
    unfolding unlink_blob_def
    by (intro other_steps reading_others; auto split: fs_node.split
        intro: others.resp_throw others.resp_seq reading_others)
  have "(store_delete base k :: ('z world_scheme, _, _) comp) = (let parent = parent_dir base k
     in seq (catch (seq (assertSafeParent base k) (\<lambda>_. ret True))
               (\<lambda>e. seq (delete_failed False parent e) (\<lambda>_. ret False))) (\<lambda>safeParent.
        if safeParent then catch (unlink_blob parent final) (delete_failed True parent) else ret ()))"
    by (rule ext) (simp add: store_delete_def assms lift_result_def seq_def [of "Pair (Inr final)"])
  then show ?thesis by (simp only:) (intro other_steps reading_others failed unlink)
qed

text \<open>Without failures and other processes \<open>put\<close> succeeds and adds exactly the blob.\<close>

lemma make_directory_idle:
  "w_sched w = [] \<Longrightarrow> w_nodes w p = Some FDir \<Longrightarrow> make_directory p w = (Inr (), w)"
  by (simp add: make_directory_def fs_mkdir_def seq_def catch_def fs_op_idle ret_def fs_error_def
      coded_error_def assert_idle)

lemma directorySync_idle:
  "w_sched w = [] \<Longrightarrow> w_nodes w p = Some FDir \<Longrightarrow> directorySync p w = (Inr (), w)"
  by (simp add: directorySync_def fs_open_def handle_sync_def handle_close_def seq_def finally_do_def
      fs_op_idle ret_def)

lemma for_each_idle: "(\<And>x. x \<in> set xs \<Longrightarrow> f x w = (Inr (), w)) \<Longrightarrow> for_each xs f w = (Inr (), w)"
  by (induction xs) (auto simp: ret_def seq_def)

lemma ensure_idle:
  assumes "w_sched w = []" "dirs_at (base # key_dirs base k) w"
  shows "ensureSafeParent base k w = (Inr (), w)"
proof -
  have "for_each (key_dirs base k) make_directory w = (Inr (), w)"
    by (rule for_each_idle, rule make_directory_idle) (use assms in \<open>auto simp: dirs_at_def\<close>)
  moreover have "for_each (butlast (base # key_dirs base k)) directorySync w = (Inr (), w)"
  proof (rule for_each_idle, rule directorySync_idle)
    fix d assume "d \<in> set (butlast (base # key_dirs base k))"
    then have "d \<in> set (base # key_dirs base k)" by (rule in_set_butlastD)
    with assms(2) show "w_nodes w d = Some FDir" unfolding dirs_at_def by blast
  qed (rule assms)
  ultimately show ?thesis
    using assms by (simp add: ensureSafeParent_def seq_def assert_idle dirs_at_def del: butlast.simps)
qed

lemma append_idle:
  "w_sched w = [] \<Longrightarrow> w_nodes w p = Some (FFile c) \<Longrightarrow>
   for_each bs (fs_append p) w = (Inr (), w\<lparr>w_nodes := (w_nodes w)(p \<mapsto> FFile (c @ concat bs))\<rparr>)"
proof (induction bs arbitrary: c w)
  case Nil
  then show ?case by (simp add: ret_def fun_upd_idem)
next
  case (Cons x bs)
  let ?w = "w\<lparr>w_nodes := (w_nodes w)(p \<mapsto> FFile (c @ x))\<rparr>"
  from Cons.prems have "fs_append p x w = (Inr (), ?w)" by (simp add: fs_append_def fs_op_idle)
  moreover have "for_each bs (fs_append p) ?w =
      (Inr (), ?w\<lparr>w_nodes := (w_nodes ?w)(p \<mapsto> FFile ((c @ x) @ concat bs))\<rparr>)"
    by (rule Cons.IH) (simp_all add: Cons.prems)
  ultimately show ?case by (simp add: seq_def del: fun_upd_apply)
qed

lemma parent_is_dir: "dirs_at (base # key_dirs base k) w \<Longrightarrow> w_nodes w (parent_dir base k) = Some FDir"
proof -
  have "parent_dir base k \<in> set (base # key_dirs base k)" unfolding parent_dir_def by (rule last_in_set) simp
  then show "dirs_at (base # key_dirs base k) w \<Longrightarrow> ?thesis" unfolding dirs_at_def by blast
qed

lemma put_idle:
  assumes "resolveKey base k = Inr final" "w_sched w = []" "dirs_at (base # key_dirs base k) w"
    and "w_nodes w final = None" "w_nodes w (temp_path final random) = None"
  shows "store_put base random k b w = (Inr (), w\<lparr>w_nodes := (w_nodes w)(final \<mapsto> FFile b)\<rparr>)"
proof -
  let ?temp = "temp_path final random" and ?parent = "parent_dir base k"
  have parent: "w_nodes w ?parent = Some FDir" using assms(3) by (rule parent_is_dir)
  then have neq: "?parent \<noteq> ?temp" "?parent \<noteq> final" using assms(4,5) by auto
  have created: "seq (ensureSafeParent base k) (\<lambda>_. fs_open_exclusive ?temp) w =
      (Inr (), w\<lparr>w_nodes := (w_nodes w)(?temp \<mapsto> FFile [])\<rparr>)"
    using assms by (simp add: seq_def ensure_idle fs_open_exclusive_def fs_op_idle)
  have written: "write_temp ?parent ?temp b (w\<lparr>w_nodes := (w_nodes w)(?temp \<mapsto> FFile [])\<rparr>) =
      (Inr (), w\<lparr>w_nodes := (w_nodes w)(?temp \<mapsto> FFile b)\<rparr>)"
    using assms(2) by (simp add: write_temp_def catch_def seq_def fs_writeFile_def append_idle handle_sync_def
        handle_close_def fs_op_idle ret_def)
  have pub: "publish_temp ?parent ?temp final (w\<lparr>w_nodes := (w_nodes w)(?temp \<mapsto> FFile b)\<rparr>) =
      (Inr (), w\<lparr>w_nodes := (w_nodes w)(?temp \<mapsto> FFile b, final \<mapsto> FFile b)\<rparr>)"
    using assms(2,4) parent neq not_sym [OF temp_path_neq [of final random]]
    by (simp add: publish_temp_def catch_def seq_def fs_link_def fs_op_idle directorySync_idle)
  have remove: "remove_temp ?temp (w\<lparr>w_nodes := (w_nodes w)(?temp \<mapsto> FFile b, final \<mapsto> FFile b)\<rparr>) =
      (Inr (), w\<lparr>w_nodes := (w_nodes w)(final \<mapsto> FFile b)\<rparr>)"
    using assms(2,5) temp_path_neq [of final random]
    by (simp add: remove_temp_def catch_def fs_unlink_def fs_op_idle fun_upd_twist fun_upd_idem)
  show ?thesis
    unfolding store_put_def Let_def assms(1)
  proof (rule seq_to [of _ w final w])
    show "lift_result (Inr final) w = (Inr final, w)" by (simp add: lift_result_def)
  next
    have "seq (write_temp ?parent ?temp b) (\<lambda>_. publish_temp ?parent ?temp final)
        (w\<lparr>w_nodes := (w_nodes w)(?temp \<mapsto> FFile [])\<rparr>) =
        (Inr (), w\<lparr>w_nodes := (w_nodes w)(?temp \<mapsto> FFile b, final \<mapsto> FFile b)\<rparr>)"
      by (rule seq_to, rule written, rule pub)
    with remove have finish: "finally_do (seq (write_temp ?parent ?temp b) (\<lambda>_. publish_temp ?parent ?temp final))
        (remove_temp ?temp) (w\<lparr>w_nodes := (w_nodes w)(?temp \<mapsto> FFile [])\<rparr>) =
        (Inr (), w\<lparr>w_nodes := (w_nodes w)(final \<mapsto> FFile b)\<rparr>)"
      by (simp add: finally_do_def)
    show "seq (catch (seq (ensureSafeParent base k) (\<lambda>_. fs_open_exclusive ?temp)) (put_failed False ?parent))
        (\<lambda>_. finally_do (seq (write_temp ?parent ?temp b) (\<lambda>_. publish_temp ?parent ?temp final))
           (remove_temp ?temp)) w = (Inr (), w\<lparr>w_nodes := (w_nodes w)(final \<mapsto> FFile b)\<rparr>)"
      by (rule seq_to, simp add: catch_def created, rule finish)
  qed
qed

section \<open>The contract of the store\<close>

text \<open>C20: \<open>put\<close> publishes a blob atomically and never replaces one. If the name is taken, it keeps its
  content and \<open>put\<close> fails. If it is free, then after a success it holds exactly the bytes (whatever
  other processes and the file system do meanwhile), and after a failure at any step (a partial
  write, a failed sync, a failed link) it is still free or holds exactly the bytes, never a part
  of them, unless another process created the name.\<close>

theorem put_publishes:
  assumes "resolveKey base k = Inr final" "store_put base random k b w = (r, w')"
  shows "(\<forall>n. w_nodes w final = Some n \<longrightarrow> r \<noteq> Inr () \<and> w_nodes w' final = Some n) \<and>
    (r = Inr () \<longrightarrow> w_nodes w' final = Some (FFile b)) \<and>
    (w_nodes w final = None \<and> calm (no_creation final) w \<longrightarrow>
       w_nodes w' final = None \<or> w_nodes w' final = Some (FFile b))"
proof (intro conjI allI impI)
  fix n assume n: "w_nodes w final = Some n"
  show "r \<noteq> Inr ()"
  proof
    assume "r = Inr ()"
    then have "store_put base random k b w = (Inr (), w')" using assms(2) by simp
    from triple_val [OF late_put.put_phases [OF assms(1)] _ _ this] n show False
      by (simp add: published_def)
  qed
  have "\<not> ends_with ''.tmp'' final" using assms(1) by (rule resolve_no_temp)
  with n respD [OF store_operations_keep(1) assms(2)] show "w_nodes w' final = Some n"
    by (simp add: store_kept_def)
next
  assume "r = Inr ()"
  then have "store_put base random k b w = (Inr (), w')" using assms(2) by simp
  from triple_val [OF any_put.put_phases [OF assms(1)] _ _ this] show "w_nodes w' final = Some (FFile b)"
    by (simp add: published_def file_at_def)
next
  assume free: "w_nodes w final = None \<and> calm (no_creation final) w"
  show "w_nodes w' final = None \<or> w_nodes w' final = Some (FFile b)"
  proof (cases r)
    case (Inl e)
    with assms(2) have "store_put base random k b w = (Inl e, w')" by simp
    from triple_exn [OF first_put.put_phases [OF assms(1)] _ _ this] free show ?thesis
      by (simp add: put_broken_def file_at_def)
  next
    case (Inr u)
    with assms(2) have "store_put base random k b w = (Inr (), w')" by simp
    from triple_val [OF any_put.put_phases [OF assms(1)] _ _ this] show ?thesis
      by (simp add: published_def file_at_def)
  qed
qed

text \<open>C21: What was put is what is read: in every later store that operations other than
  \<open>delete\<close> led to, a \<open>get\<close> that answers answers exactly the bytes of the \<open>put\<close>, and without
  failures it does answer.\<close>

theorem put_get_roundtrip:
  assumes "store_put base random k b w = (Inr (), w1)" "store_kept w1 w2"
  shows "(\<forall>c w3. store_get base k w2 = (Inr c, w3) \<longrightarrow> c = b) \<and>
    (w_sched w2 = [] \<longrightarrow> store_get base k w2 = (Inr b, w2))"
proof -
  obtain final where final: "resolveKey base k = Inr final"
    using assms(1) by (cases "resolveKey base k") (auto simp: store_put_def seq_def lift_result_def)
  have "dirs_at (base # key_dirs base k) w1" "file_at final b w1"
    using triple_val [OF any_put.put_phases [OF final] _ _ assms(1)] by (simp_all add: published_def)
  moreover have tmp: "\<not> ends_with ''.tmp'' final" using final by (rule resolve_no_temp)
  ultimately have at2: "dirs_at (base # key_dirs base k) w2" "file_at final b w2"
    using assms(2) by (auto simp: store_kept_def dirs_at_def file_at_def)
  have "c = b" if "store_get base k w2 = (Inr c, w3)" for c w3
  proof -
    have "file_at final c w3" using triple_val [OF get_reads [OF final] _ _ that] by simp
    moreover have "file_at final b w3"
      using respD [OF store_operations_keep(2) that] at2(2) tmp by (simp add: store_kept_def file_at_def)
    ultimately show ?thesis by (simp add: file_at_def)
  qed
  with get_idle [OF final at2] show ?thesis by blast
qed

text \<open>The operations of the store leave the rest of the file system alone: all of them but
  \<open>delete\<close> keep every directory and every node that is not a temporary file, and \<open>delete\<close> keeps
  everything but the blob of its key.\<close>

theorem store_frame:
  assumes "resolveKey base k = Inr final"
  shows "store_kept w (snd (store_put base random k b w)) \<and> store_kept w (snd (store_get base k w)) \<and>
    store_kept w (snd (store_stat base k w)) \<and> store_kept w (snd (store_exists base k w)) \<and>
    others_kept final w (snd (store_delete base k w))"
  using store_operations_keep delete_others [OF assms] unfolding resp_def by blast

section \<open>A concrete store\<close>

definition demo_key :: string where
  "demo_key = ''v1/ab/cd/abcd0000000000000000000000000000.json.gz''"

lemma demo_resolve: "resolveKey ''/data'' demo_key = Inr (''/data/'' @ demo_key)"
  by (simp add: resolveKey_def storage_key_def demo_key_def join_root_def Let_def is_hex_def is_digit_def
      starts_with_def)

definition demo_full :: world where
  "demo_full = empty_world\<lparr>w_nodes := [''/data'' \<mapsto> FDir, ''/data/v1'' \<mapsto> FDir, ''/data/v1/ab'' \<mapsto> FDir,
     ''/data/v1/ab/cd'' \<mapsto> FDir, ''/data/'' @ demo_key \<mapsto> FFile [1, 2]]\<rparr>"

definition demo_ready :: world where
  "demo_ready = empty_world\<lparr>w_nodes := [''/data'' \<mapsto> FDir, ''/data/v1'' \<mapsto> FDir, ''/data/v1/ab'' \<mapsto> FDir,
     ''/data/v1/ab/cd'' \<mapsto> FDir]\<rparr>"

theorem put_publishes_witness:
  "fst (store_put ''/data'' ''r'' demo_key [7] demo_full) \<noteq> Inr () \<and>
   w_nodes (snd (store_put ''/data'' ''r'' demo_key [7] demo_full)) (''/data/'' @ demo_key) =
     Some (FFile [1, 2])"
proof -
  have "w_nodes demo_full (''/data/'' @ demo_key) = Some (FFile [1, 2])"
    by (simp add: demo_full_def demo_key_def)
  moreover obtain r w' where run: "store_put ''/data'' ''r'' demo_key [7] demo_full = (r, w')"
    by (cases "store_put ''/data'' ''r'' demo_key [7] demo_full") blast
  ultimately show ?thesis using put_publishes [OF demo_resolve run] by simp
qed

theorem put_get_roundtrip_witness:
  "\<exists>w1. store_put ''/data'' ''r'' demo_key [7] demo_ready = (Inr (), w1) \<and>
     store_get ''/data'' demo_key (w1\<lparr>w_now := 5\<rparr>) = (Inr [7], w1\<lparr>w_now := 5\<rparr>)"
proof -
  have dirs: "key_dirs ''/data'' demo_key = [''/data/v1'', ''/data/v1/ab'', ''/data/v1/ab/cd'']"
    by (simp add: key_dirs_def demo_key_def)
  let ?w1 = "demo_ready\<lparr>w_nodes := (w_nodes demo_ready)(''/data/'' @ demo_key \<mapsto> FFile [7])\<rparr>"
  have run: "store_put ''/data'' ''r'' demo_key [7] demo_ready = (Inr (), ?w1)"
    by (rule put_idle [OF demo_resolve])
       (simp_all add: demo_ready_def demo_key_def empty_world_def dirs [unfolded demo_key_def] dirs_at_def temp_path_def)
  have "store_kept ?w1 (?w1\<lparr>w_now := 5\<rparr>)" by simp
  from put_get_roundtrip [OF run this] run show ?thesis by (simp add: demo_ready_def empty_world_def)
qed

theorem store_frame_witness:
  "others_kept (''/data/'' @ demo_key) demo_full (snd (store_delete ''/data'' demo_key demo_full)) \<and>
   w_nodes demo_full ''/data/v1'' = Some FDir"
proof -
  have "w_nodes demo_full ''/data/v1'' = Some FDir" by (simp add: demo_full_def demo_key_def)
  with store_frame [OF demo_resolve, of demo_full] show ?thesis by blast
qed

end
