(* ===== verification/ArtifactService.thy ===== *)
theory ArtifactService
  imports ArtifactStore ContextBuilder
begin

text \<open>
  The artifact service (\<open>artifacts/artifactService.ts\<close>): a bundle is encoded, a manifest is created
  under an idempotency key or the existing one is loaded, the blob is published, read back and
  verified, and only then is the manifest marked ready. Reading verifies again and marks a manifest
  whose content fails as corrupt.
\<close>

section \<open>Data\<close>

text \<open>The service object: its store, its limits, and the functions of node it uses.\<close>

record artifact_service =
  as_root :: string
  as_limits :: artifact_limits
  as_codec :: codec
  as_uuid :: "nat \<Rightarrow> string"
  as_random :: "nat \<Rightarrow> string"

record artifact_write =
  aw_workspaceId :: object_id
  aw_projectId :: object_id
  aw_createdByRunId :: object_id
  aw_kind :: artifact_kind
  aw_idempotencyKey :: string

datatype any_bundle = ProjectBundle project_bundle | PreviewBundle preview_bundle

definition storageKeyFor :: "string \<Rightarrow> string" where
  "storageKeyFor a = ''v1/'' @ take 2 a @ ''/'' @ take 2 (drop 2 a) @ ''/'' @ a @ ''.json.gz''"

definition isRecoverableExistingBlob :: "js_error \<Rightarrow> bool" where
  "isRecoverableExistingBlob e \<longleftrightarrow>
     err_artifact e \<and> err_code e = Some ''ARTIFACT_WRITE_FAILED'' \<and> err_cause e = Some ''EEXIST''"

definition isContentVerificationError :: "js_error \<Rightarrow> bool" where
  "isContentVerificationError e \<longleftrightarrow> err_artifact e \<and>
     (err_code e = Some ''ARTIFACT_CORRUPT'' \<or> err_code e = Some ''ARTIFACT_FORMAT_UNSUPPORTED'')"

definition integrityFor :: "artifact_manifest \<Rightarrow> artifact_integrity" where
  "integrityFor m = \<lparr>ig_format = am_format m, ig_formatVersion = int (am_formatVersion m),
     ig_sha256 = am_sha256 m, ig_uncompressedBytes = int (am_uncompressedBytes m),
     ig_compressedBytes = int (am_compressedBytes m), ig_fileCount = int (am_fileCount m)\<rparr>"

section \<open>The collection of manifests (models/ArtifactManifest.ts)\<close>

text \<open>The validators of the schema, and the unique indexes on the artifact id and the idempotency key.\<close>

definition valid_manifest :: "artifact_manifest \<Rightarrow> bool" where
  "valid_manifest m \<longleftrightarrow> storage_key (am_storageKey m) \<and> length (am_sha256 m) = 64 \<and>
     list_all is_hex (am_sha256 m) \<and> am_format m = artifactFormat \<and> am_formatVersion m = 1 \<and>
     isSafeInteger (int (am_uncompressedBytes m)) \<and> isSafeInteger (int (am_compressedBytes m)) \<and>
     isSafeInteger (int (am_fileCount m))"

definition manifest_with_key :: "string \<Rightarrow> ('z) world_scheme \<Rightarrow> (string \<times> artifact_manifest) option" where
  "manifest_with_key key w = List.find (\<lambda>(a, m). am_idempotencyKey m = key)
     (List.map_filter (\<lambda>a. map_option (Pair a) (w_manifests w a)) (w_manifestIds w))"

definition insert_manifest :: "string \<Rightarrow> artifact_manifest \<Rightarrow>
    (('z) world_scheme, js_error, string \<times> artifact_manifest) comp" where
  "insert_manifest a m = (\<lambda>w.
     if w_manifests w a \<noteq> None \<or> manifest_with_key (am_idempotencyKey m) w \<noteq> None
     then (Inl duplicate_key, w)
     else let d = m\<lparr>am_updatedAt := w_now w\<rparr>
          in (Inr (a, d), w\<lparr>w_manifests := (w_manifests w)(a \<mapsto> d), w_manifestIds := w_manifestIds w @ [a]\<rparr>))"

definition create_manifest :: "string \<Rightarrow> artifact_manifest \<Rightarrow>
    (('z) world_scheme, js_error, string \<times> artifact_manifest) comp" where
  "create_manifest a m = seq (require (valid_manifest m) (plain_error ''ArtifactManifest validation failed'')) (\<lambda>_.
     db_op (insert_manifest a m))"

text \<open>\<open>updateOne\<close> with a state in its filter; the answer is \<open>modifiedCount = 1\<close>.\<close>

definition set_manifest_state :: "string \<Rightarrow> manifest_state \<Rightarrow> manifest_state \<Rightarrow>
    (string option \<Rightarrow> string option) \<Rightarrow> (('z) world_scheme, js_error, bool) comp" where
  "set_manifest_state a from to_state set_code = (\<lambda>w. case w_manifests w a of
     None \<Rightarrow> (Inr False, w)
   | Some m \<Rightarrow> if am_state m = from
       then (Inr True, w\<lparr>w_manifests := (w_manifests w)(a \<mapsto>
              m\<lparr>am_state := to_state, am_errorCode := set_code (am_errorCode m), am_updatedAt := w_now w\<rparr>)\<rparr>)
       else (Inr False, w))"

definition update_manifest_state where
  "update_manifest_state a from to_state set_code = db_op (set_manifest_state a from to_state set_code)"

section \<open>Verification of stored content\<close>

definition verifyStored :: "artifact_service \<Rightarrow> artifact_manifest \<Rightarrow>
    (('z) world_scheme, js_error, project_bundle) comp" where
  "verifyStored sv m = seq (store_get (as_root sv) (am_storageKey m)) (\<lambda>bytes.
     lift_result (decodeProjectArtifact (as_codec sv) bytes (integrityFor m) (as_limits sv)))"

definition verifyStoredPreview :: "artifact_service \<Rightarrow> artifact_manifest \<Rightarrow>
    (('z) world_scheme, js_error, preview_bundle) comp" where
  "verifyStoredPreview sv m = seq (store_get (as_root sv) (am_storageKey m)) (\<lambda>bytes.
     lift_result (decodePreviewArtifact (as_codec sv) bytes (integrityFor m) (as_limits sv)))"

definition verifyStoredByKind :: "artifact_service \<Rightarrow> artifact_manifest \<Rightarrow>
    (('z) world_scheme, js_error, any_bundle) comp" where
  "verifyStoredByKind sv m =
     (if am_kind m = KPreviewBuild
      then seq (verifyStoredPreview sv m) (\<lambda>b. ret (PreviewBundle b))
      else seq (verifyStored sv m) (\<lambda>b. ret (ProjectBundle b)))"

definition service_markCorrupt :: "string \<Rightarrow> js_error \<Rightarrow> manifest_state \<Rightarrow> (('z) world_scheme, js_error, unit) comp" where
  "service_markCorrupt a e expectedState =
     seq (update_manifest_state a expectedState MCorrupt
           (\<lambda>_. if err_artifact e then err_code e else Some ''ARTIFACT_CORRUPT'')) (\<lambda>_. ret ())"

section \<open>Writing\<close>

definition new_manifest :: "artifact_write \<Rightarrow> encoded_artifact \<Rightarrow> string \<Rightarrow> artifact_manifest" where
  "new_manifest input encoded a = \<lparr>am_workspaceId = aw_workspaceId input, am_projectId = aw_projectId input,
     am_createdByRunId = aw_createdByRunId input, am_kind = aw_kind input,
     am_idempotencyKey = aw_idempotencyKey input, am_format = ig_format (en_manifest encoded),
     am_formatVersion = nat (ig_formatVersion (en_manifest encoded)), am_storageKey = storageKeyFor a,
     am_sha256 = ig_sha256 (en_manifest encoded),
     am_uncompressedBytes = nat (ig_uncompressedBytes (en_manifest encoded)),
     am_compressedBytes = nat (ig_compressedBytes (en_manifest encoded)),
     am_fileCount = nat (ig_fileCount (en_manifest encoded)), am_state = MWriting, am_errorCode = None,
     am_updatedAt = 0\<rparr>"

definition createOrLoadManifest :: "artifact_service \<Rightarrow> artifact_write \<Rightarrow> encoded_artifact \<Rightarrow>
    (('z) world_scheme, js_error, string \<times> artifact_manifest) comp" where
  "createOrLoadManifest sv input encoded = seq (fresh_text (as_uuid sv)) (\<lambda>a.
     catch (create_manifest a (new_manifest input encoded a)) (\<lambda>e.
       if \<not> isDuplicateKey e then throw e
       else seq (find_doc (manifest_with_key (aw_idempotencyKey input))) (\<lambda>existing.
         case existing of None \<Rightarrow> throw e | Some am \<Rightarrow> ret am)))"

text \<open>The two verifications of a publication mark the manifest on a content error.\<close>

definition verify_or_mark :: "artifact_service \<Rightarrow> string \<Rightarrow> artifact_manifest \<Rightarrow> (('z) world_scheme, js_error, unit) comp" where
  "verify_or_mark sv a m = catch (seq (verifyStoredByKind sv m) (\<lambda>_. ret ())) (\<lambda>e.
     seq (if isContentVerificationError e then service_markCorrupt a e MWriting else ret ()) (\<lambda>_. throw e))"

definition publish_blob :: "artifact_service \<Rightarrow> string \<Rightarrow> artifact_manifest \<Rightarrow> bytes \<Rightarrow>
    (('z) world_scheme, js_error, unit) comp" where
  "publish_blob sv a m bytes = catch
     (seq (fresh_text (as_random sv)) (\<lambda>r. store_put (as_root sv) r (am_storageKey m) bytes))
     (\<lambda>e. if \<not> isRecoverableExistingBlob e then throw e else verify_or_mark sv a m)"

definition promote_manifest :: "string \<Rightarrow> string \<Rightarrow> (('z) world_scheme, js_error, unit) comp" where
  "promote_manifest a sha = seq (update_manifest_state a MWriting MReady (\<lambda>_. None)) (\<lambda>modified.
     if modified then ret ()
     else seq (find_doc (\<lambda>w. w_manifests w a)) (\<lambda>current.
       require (case current of None \<Rightarrow> False | Some m \<Rightarrow> am_state m = MReady \<and> am_sha256 m = sha)
         (artifact_error ''ARTIFACT_WRITE_FAILED'' ''Artifact manifest state changed during publication'')))"

definition writeEncoded :: "artifact_service \<Rightarrow> artifact_write \<Rightarrow> encoded_artifact \<Rightarrow>
    (('z) world_scheme, js_error, string) comp" where
  "writeEncoded sv input encoded = seq (createOrLoadManifest sv input encoded) (\<lambda>(a, m).
     if am_sha256 m \<noteq> en_sha256 encoded then throw (artifact_error ''ARTIFACT_IDEMPOTENCY_CONFLICT''
       ''The idempotency key already identifies different artifact content'')
     else if am_state m = MCorrupt then throw (artifact_error ''ARTIFACT_CORRUPT'' ''The artifact is corrupt'')
     else if am_state m = MDeletePending then throw (artifact_error ''ARTIFACT_NOT_FOUND''
       ''The artifact is pending deletion'')
     else if am_state m = MReady then seq (verifyStoredByKind sv m) (\<lambda>_. ret a)
     else seq (publish_blob sv a m (en_compressedBytes encoded)) (\<lambda>_.
          seq (verify_or_mark sv a m) (\<lambda>_.
          seq (promote_manifest a (en_sha256 encoded)) (\<lambda>_. ret a))))"

definition service_writeBundle :: "artifact_service \<Rightarrow> artifact_write \<Rightarrow> project_bundle \<Rightarrow>
    (('z) world_scheme, js_error, string) comp" where
  "service_writeBundle sv input bundle =
     seq (lift_result (encodeProjectArtifact (as_codec sv) bundle (as_limits sv))) (writeEncoded sv input)"

definition service_writePreviewBundle :: "artifact_service \<Rightarrow> artifact_write \<Rightarrow> preview_bundle \<Rightarrow>
    (('z) world_scheme, js_error, string) comp" where
  "service_writePreviewBundle sv input bundle =
     seq (lift_result (encodePreviewArtifact (as_codec sv) bundle (as_limits sv)))
       (writeEncoded sv (input\<lparr>aw_kind := KPreviewBuild\<rparr>))"

section \<open>Reading\<close>

definition not_found :: "string \<Rightarrow> js_error" where
  "not_found msg = artifact_error ''ARTIFACT_NOT_FOUND'' msg"

definition readManifest :: "artifact_service \<Rightarrow> (string \<times> artifact_manifest) option \<Rightarrow>
    (('z) world_scheme, js_error, project_bundle) comp" where
  "readManifest sv found = (case found of
     None \<Rightarrow> throw (not_found ''Artifact manifest not found'')
   | Some (a, m) \<Rightarrow>
       if am_state m = MCorrupt then throw (artifact_error ''ARTIFACT_CORRUPT'' ''The artifact is corrupt'')
       else if am_state m \<noteq> MReady then throw (not_found ''Artifact is not ready'')
       else catch (verifyStored sv m) (\<lambda>e.
         if \<not> isContentVerificationError e then throw e
         else seq (service_markCorrupt a e MReady) (\<lambda>_.
           if err_code e = Some ''ARTIFACT_FORMAT_UNSUPPORTED'' then throw e
           else throw ((artifact_error ''ARTIFACT_CORRUPT'' ''Artifact content failed verification'')
                  \<lparr>err_cause := err_code e\<rparr>))))"

definition find_manifest :: "string \<Rightarrow> (artifact_manifest \<Rightarrow> bool) \<Rightarrow>
    (('z) world_scheme, js_error, (string \<times> artifact_manifest) option) comp" where
  "find_manifest a p = find_doc (\<lambda>w. case w_manifests w a of
     Some m \<Rightarrow> if p m then Some (a, m) else None | None \<Rightarrow> None)"

definition readBundle :: "artifact_service \<Rightarrow> string \<Rightarrow> (('z) world_scheme, js_error, project_bundle) comp" where
  "readBundle sv a = seq (find_manifest a (\<lambda>m. am_kind m = KProjectSnapshot \<or> am_kind m = KValidationCandidate))
     (readManifest sv)"

definition owned_manifest :: "object_id \<Rightarrow> object_id \<Rightarrow> artifact_kind \<Rightarrow> artifact_manifest \<Rightarrow> bool" where
  "owned_manifest ws p k m \<longleftrightarrow> am_workspaceId m = ws \<and> am_projectId m = p \<and> am_kind m = k"

definition readOwnedBundle :: "artifact_service \<Rightarrow> string \<Rightarrow> object_id \<Rightarrow> object_id \<Rightarrow> artifact_kind \<Rightarrow>
    (('z) world_scheme, js_error, project_bundle) comp" where
  "readOwnedBundle sv a ws p k = seq (find_manifest a (owned_manifest ws p k)) (readManifest sv)"

definition readOwnedPreviewBundle :: "artifact_service \<Rightarrow> string \<Rightarrow> object_id \<Rightarrow> object_id \<Rightarrow>
    (('z) world_scheme, js_error, preview_bundle) comp" where
  "readOwnedPreviewBundle sv a ws p = seq (find_manifest a (owned_manifest ws p KPreviewBuild)) (\<lambda>found.
     case found of
       None \<Rightarrow> throw (not_found ''Preview artifact manifest not found'')
     | Some (a, m) \<Rightarrow>
         if am_state m = MCorrupt then throw (artifact_error ''ARTIFACT_CORRUPT'' ''The preview artifact is corrupt'')
         else if am_state m \<noteq> MReady then throw (not_found ''Preview artifact is not ready'')
         else catch (verifyStoredPreview sv m) (\<lambda>e.
           if \<not> isContentVerificationError e then throw e
           else seq (service_markCorrupt a e MReady) (\<lambda>_.
             throw ((artifact_error ''ARTIFACT_CORRUPT'' ''Preview artifact content failed verification'')
                  \<lparr>err_cause := err_code e\<rparr>))))"

section \<open>Relations every operation of the service respects\<close>

locale artifact_order = store_order R for R :: "('z) world_scheme \<Rightarrow> ('z) world_scheme \<Rightarrow> bool" +
  assumes R_put: "resp R (store_put base random k b)"
    and R_get: "resp R (store_get base k)"
    and R_id: "R w (w\<lparr>w_nextId := n\<rparr>)"
    and R_insert: "resp R (insert_manifest a m)"
    and R_state: "resp R (set_manifest_state a from to_state c)"
begin

lemma manifest_calls:
  "resp R (fresh_text f)" "resp R (create_manifest a m)" "resp R (update_manifest_state a from to_state c)"
  unfolding fresh_text_def create_manifest_def update_manifest_state_def require_def
  by (simp add: resp_def R_id) (intro resp_rules resp_seq resp_db_op R_insert R_state)+

lemmas service_steps = resp_rules resp_seq resp_catch R_put R_get manifest_calls resp_find_doc

lemma verifying:
  "resp R (verifyStored sv m)" "resp R (verifyStoredPreview sv m)" "resp R (verifyStoredByKind sv m)"
  "resp R (service_markCorrupt a e st)" "resp R (verify_or_mark sv a m)"
  unfolding verify_or_mark_def verifyStoredByKind_def verifyStored_def verifyStoredPreview_def
    service_markCorrupt_def
  by (intro service_steps)+

lemma publishing:
  "resp R (publish_blob sv a m b)" "resp R (promote_manifest a sha)"
  unfolding publish_blob_def promote_manifest_def require_def by (intro service_steps verifying)+

lemma writing:
  "resp R (createOrLoadManifest sv input encoded)" "resp R (writeEncoded sv input encoded)"
  "resp R (service_writeBundle sv input b)" "resp R (service_writePreviewBundle sv input pb)"
proof -
  show create: "resp R (createOrLoadManifest sv input encoded)" for input encoded
    unfolding createOrLoadManifest_def by (intro service_steps)
  show encoded: "resp R (writeEncoded sv input encoded)" for input encoded
    unfolding writeEncoded_def by (intro service_steps verifying publishing create)
  show "resp R (service_writeBundle sv input b)" "resp R (service_writePreviewBundle sv input pb)"
    unfolding service_writeBundle_def service_writePreviewBundle_def
    by (intro service_steps encoded)+
qed

lemma reading:
  "resp R (readManifest sv found)" "resp R (readBundle sv a)" "resp R (readOwnedBundle sv a ws p k)"
  "resp R (readOwnedPreviewBundle sv a ws p)"
proof -
  show manifest: "resp R (readManifest sv found)" for found
    unfolding readManifest_def by (intro service_steps verifying)
  show "resp R (readBundle sv a)" "resp R (readOwnedBundle sv a ws p k)"
    "resp R (readOwnedPreviewBundle sv a ws p)"
    unfolding readBundle_def readOwnedBundle_def readOwnedPreviewBundle_def find_manifest_def
    by (intro service_steps verifying manifest)+
qed

end

text \<open>A manifest keeps everything but its state, its error code and its time stamp.\<close>

definition manifest_core :: "artifact_manifest \<Rightarrow> artifact_manifest" where
  "manifest_core m = m\<lparr>am_state := MWriting, am_errorCode := None, am_updatedAt := 0\<rparr>"

definition manifest_at :: "string \<Rightarrow> artifact_manifest \<Rightarrow> ('z) world_scheme \<Rightarrow> bool" where
  "manifest_at a m w \<longleftrightarrow> map_option manifest_core (w_manifests w a) = Some (manifest_core m)"

definition manifests_kept :: "('z) world_scheme \<Rightarrow> ('z) world_scheme \<Rightarrow> bool" where
  "manifests_kept w w' \<longleftrightarrow> (\<forall>a m. manifest_at a m w \<longrightarrow> manifest_at a m w')"

lemma manifest_at_here: "w_manifests w a = Some m \<Longrightarrow> manifest_at a m w"
  by (simp add: manifest_at_def)

lemma manifest_core_same [simp]:
  "manifest_core (m\<lparr>am_state := st\<rparr>) = manifest_core m" "manifest_core (m\<lparr>am_errorCode := c\<rparr>) = manifest_core m"
  "manifest_core (m\<lparr>am_updatedAt := t\<rparr>) = manifest_core m"
  by (simp_all add: manifest_core_def)

lemma core_fields:
  assumes "manifest_core m = manifest_core n"
  shows "am_idempotencyKey m = am_idempotencyKey n" "am_sha256 m = am_sha256 n" "am_kind m = am_kind n"
    "am_storageKey m = am_storageKey n" "integrityFor m = integrityFor n"
    "am_workspaceId m = am_workspaceId n" "am_projectId m = am_projectId n"
proof -
  have "f (manifest_core m) = f (manifest_core n)" for f :: "artifact_manifest \<Rightarrow> 'x" using assms by simp
  then show "am_idempotencyKey m = am_idempotencyKey n" "am_sha256 m = am_sha256 n" "am_kind m = am_kind n"
    "am_storageKey m = am_storageKey n" "integrityFor m = integrityFor n"
    "am_workspaceId m = am_workspaceId n" "am_projectId m = am_projectId n"
    using assms by (cases m; cases n; simp add: manifest_core_def integrityFor_def)+
qed

text \<open>The collection is well-formed: the list of ids is the one of the map, idempotency keys are unique.\<close>

definition manifests_wf :: "('z) world_scheme \<Rightarrow> bool" where
  "manifests_wf w \<longleftrightarrow> distinct (w_manifestIds w) \<and> set (w_manifestIds w) = dom (w_manifests w) \<and>
     (\<forall>a b m n. w_manifests w a = Some m \<longrightarrow> w_manifests w b = Some n \<longrightarrow>
        am_idempotencyKey m = am_idempotencyKey n \<longrightarrow> a = b)"

definition wf_order :: "('z) world_scheme \<Rightarrow> ('z) world_scheme \<Rightarrow> bool" where
  "wf_order w w' \<longleftrightarrow> (manifests_wf w \<longrightarrow> manifests_wf w')"

lemma manifest_with_key_None:
  "manifest_with_key key w = None \<longleftrightarrow>
     (\<forall>a m. a \<in> set (w_manifestIds w) \<longrightarrow> w_manifests w a = Some m \<longrightarrow> am_idempotencyKey m \<noteq> key)"
  by (force simp: manifest_with_key_def find_None_iff List.map_filter_def)

lemma find_Some: "List.find p xs = Some x \<Longrightarrow> x \<in> set xs \<and> p x"
  by (induction xs) (auto split: if_splits)

lemma manifest_with_key_Some:
  assumes "manifest_with_key key w = Some (a, m)"
  shows "w_manifests w a = Some m" "am_idempotencyKey m = key"
proof -
  from assms have "(a, m) \<in> set (List.map_filter (\<lambda>a. map_option (Pair a) (w_manifests w a)) (w_manifestIds w))"
    "am_idempotencyKey m = key"
    unfolding manifest_with_key_def by (auto dest: find_Some)
  then show "w_manifests w a = Some m" "am_idempotencyKey m = key"
    by (auto simp: List.map_filter_def)
qed

lemma manifests_wf_same:
  "manifests_wf w \<Longrightarrow> w_manifestIds w' = w_manifestIds w \<Longrightarrow> w_manifests w' = w_manifests w \<Longrightarrow> manifests_wf w'"
  by (simp add: manifests_wf_def)

lemma manifests_wf_upd:
  assumes "manifests_wf w" "w_manifests w a = Some m" "am_idempotencyKey d = am_idempotencyKey m"
  shows "manifests_wf (w\<lparr>w_manifests := (w_manifests w)(a \<mapsto> d)\<rparr>)"
  using assms unfolding manifests_wf_def by (auto split: if_splits)

lemma wf_env:
  assumes "manifests_wf w" shows "manifests_wf (env_apply e w)"
proof (cases "\<exists>a st m. e = EnvManifestState a st \<and> w_manifests w a = Some m")
  case True
  then obtain a st m where "e = EnvManifestState a st" "w_manifests w a = Some m" by blast
  with assms show ?thesis by (auto intro!: manifests_wf_upd)
next
  case False
  then have "w_manifestIds (env_apply e w) = w_manifestIds w \<and> w_manifests (env_apply e w) = w_manifests w"
    by (cases e) (auto split: option.split)
  with assms show ?thesis by (simp add: manifests_wf_def)
qed

lemma wf_insert: "manifests_wf w \<Longrightarrow> manifests_wf (snd (insert_manifest a m w))"
  unfolding insert_manifest_def manifests_wf_def
  by (auto simp: manifest_with_key_None Let_def)

interpretation wf_disk: disk_order "wf_order :: ('z) world_scheme \<Rightarrow> 'z world_scheme \<Rightarrow> bool"
  by unfold_locales (auto simp: wf_order_def wf_env intro: manifests_wf_same)

interpretation wf: artifact_order "wf_order :: ('z) world_scheme \<Rightarrow> 'z world_scheme \<Rightarrow> bool"
proof unfold_locales
  fix a st st' c
  show "resp wf_order (set_manifest_state a st st' c :: ('z world_scheme, js_error, bool) comp)"
    by (auto simp: resp_def wf_order_def set_manifest_state_def split: option.split intro: manifests_wf_upd)
qed (auto simp: wf_disk.disk_operations, auto simp: resp_def wf_order_def wf_insert intro: manifests_wf_same)

lemma kept_upd:
  "w_manifests w a = Some m \<Longrightarrow> manifest_core d = manifest_core m \<Longrightarrow>
   manifests_kept w (w\<lparr>w_manifests := (w_manifests w)(a \<mapsto> d)\<rparr>)"
  by (auto simp: manifests_kept_def manifest_at_def)

lemma kept_same [simp]: "w_manifests w' = w_manifests w \<Longrightarrow> manifests_kept w w'"
  by (simp add: manifests_kept_def manifest_at_def)

lemma kept_env: "manifests_kept w (env_apply e w)"
proof (cases "\<exists>a st m. e = EnvManifestState a st \<and> w_manifests w a = Some m")
  case True
  then show ?thesis by (auto intro!: kept_upd)
next
  case False
  then have "w_manifests (env_apply e w) = w_manifests w" by (cases e) (auto split: option.split)
  then show ?thesis by simp
qed

lemma kept_set_state: "resp manifests_kept (set_manifest_state a st st' c)"
  by (auto simp: resp_def set_manifest_state_def split: option.split intro!: kept_upd)

lemma kept_insert: "resp manifests_kept (insert_manifest a m)"
  by (auto simp: resp_def insert_manifest_def manifests_kept_def manifest_at_def Let_def)

interpretation kept_disk: disk_order "manifests_kept :: ('z) world_scheme \<Rightarrow> 'z world_scheme \<Rightarrow> bool"
  by unfold_locales (simp_all add: kept_env, simp add: manifests_kept_def)

interpretation kept: artifact_order "manifests_kept :: ('z) world_scheme \<Rightarrow> 'z world_scheme \<Rightarrow> bool"
  by unfold_locales (simp_all add: kept_disk.disk_operations kept_insert kept_set_state)

text \<open>The blobs on the disk stay as well.\<close>

interpretation content: artifact_order "store_kept :: ('z) world_scheme \<Rightarrow> 'z world_scheme \<Rightarrow> bool"
  by unfold_locales
    (simp_all add: store_operations_keep, auto simp: resp_def insert_manifest_def set_manifest_state_def Let_def
      blobs.R_refl split: option.split)

section \<open>What a write and a read establish\<close>

definition stored_project :: "artifact_service \<Rightarrow> artifact_manifest \<Rightarrow> project_bundle \<Rightarrow> ('z) world_scheme \<Rightarrow> bool" where
  "stored_project sv m b w \<longleftrightarrow> (\<exists>final bytes. resolveKey (as_root sv) (am_storageKey m) = Inr final \<and>
     file_at final bytes w \<and> decodeProjectArtifact (as_codec sv) bytes (integrityFor m) (as_limits sv) = Inr b)"

definition stored_preview :: "artifact_service \<Rightarrow> artifact_manifest \<Rightarrow> preview_bundle \<Rightarrow> ('z) world_scheme \<Rightarrow> bool" where
  "stored_preview sv m b w \<longleftrightarrow> (\<exists>final bytes. resolveKey (as_root sv) (am_storageKey m) = Inr final \<and>
     file_at final bytes w \<and> decodePreviewArtifact (as_codec sv) bytes (integrityFor m) (as_limits sv) = Inr b)"

definition verified_blob :: "artifact_service \<Rightarrow> artifact_manifest \<Rightarrow> ('z) world_scheme \<Rightarrow> bool" where
  "verified_blob sv m w \<longleftrightarrow> (if am_kind m = KPreviewBuild then \<exists>b. stored_preview sv m b w
     else \<exists>b. stored_project sv m b w)"

lemma file_kept:
  "store_kept w w' \<Longrightarrow> resolveKey base k = Inr final \<Longrightarrow> file_at final b w \<Longrightarrow> file_at final b w'"
  using resolve_no_temp [of base k final] by (simp add: store_kept_def file_at_def)

lemma verified_kept: "store_kept w w' \<Longrightarrow> verified_blob sv m w \<Longrightarrow> verified_blob sv m w'"
  unfolding verified_blob_def stored_preview_def stored_project_def
  by (auto split: if_splits dest: file_kept)

lemma manifest_kept: "manifests_kept w w' \<Longrightarrow> manifest_at a m w \<Longrightarrow> manifest_at a m w'"
  by (simp add: manifests_kept_def)

lemma triple_get_then:
  assumes "\<And>final bytes b w. resolveKey base k = Inr final \<Longrightarrow> file_at final bytes w \<Longrightarrow> f bytes = Inr b \<Longrightarrow> Q b w"
  shows "triple any_step (\<lambda>_. True) (seq (store_get base k :: ('z world_scheme, _, _) comp)
    (\<lambda>bytes. lift_result (f bytes))) Q (\<lambda>_ _. True)"
proof (cases "resolveKey base k")
  case (Inl e)
  then have "(store_get base k :: ('z world_scheme, _, _) comp) = throw e"
    by (auto simp: store_get_def lift_result_def seq_def throw_def)
  then show ?thesis by (simp add: triple_def seq_def throw_def)
next
  case (Inr final)
  show ?thesis
    by (rule triple_seq [OF get_reads [OF Inr]], rule triple_lift) (simp_all add: assms [OF Inr])
qed

lemma verify_triple:
  "triple any_step (\<lambda>_. True) (verifyStored sv m) (stored_project sv m) (\<lambda>_ _. True)"
  "triple any_step (\<lambda>_. True) (verifyStoredPreview sv m) (stored_preview sv m) (\<lambda>_ _. True)"
  unfolding verifyStored_def verifyStoredPreview_def
  by (rule triple_get_then, auto simp: stored_project_def stored_preview_def)+

lemma verify_kind_triple:
  "triple any_step (\<lambda>_. True) (verifyStoredByKind sv m) (\<lambda>_. verified_blob sv m) (\<lambda>_ _. True)"
  unfolding verifyStoredByKind_def
  by (rule triple_if; rule triple_seq, rule verify_triple, rule triple_ret) (auto simp: verified_blob_def)

lemma verify_or_mark_triple:
  "triple any_step (\<lambda>_. True) (verify_or_mark sv a m) (\<lambda>_. verified_blob sv m) (\<lambda>_ _. True)"
  unfolding verify_or_mark_def
proof (rule triple_catch [where X = "\<lambda>_ _. True"])
  show "triple any_step (\<lambda>_. True) (seq (verifyStoredByKind sv m) (\<lambda>_. ret ())) (\<lambda>_. verified_blob sv m) (\<lambda>_ _. True)"
    by (rule triple_seq, rule verify_kind_triple, rule triple_ret) simp
qed (rule triple_seq [OF triple_trivial], rule triple_throw, simp)

text \<open>The manifest a write works with.\<close>

definition keyed_manifest :: "string \<Rightarrow> string \<times> artifact_manifest \<Rightarrow> ('z) world_scheme \<Rightarrow> bool" where
  "keyed_manifest key am w \<longleftrightarrow> manifest_at (fst am) (snd am) w \<and> am_idempotencyKey (snd am) = key"

lemma keyed_kept: "manifests_kept w w' \<Longrightarrow> keyed_manifest key am w \<Longrightarrow> keyed_manifest key am w'"
  by (simp add: keyed_manifest_def manifest_kept)

lemma create_or_load_triple:
  "triple any_step (\<lambda>_. True) (createOrLoadManifest sv input encoded)
     (keyed_manifest (aw_idempotencyKey input)) (\<lambda>_ _. True)"
  unfolding createOrLoadManifest_def
proof (rule triple_seq [OF triple_trivial], rule triple_catch [where X = "\<lambda>_ _. True"], goal_cases)
  case (1 a)
  show ?case
    unfolding create_manifest_def
    by (rule triple_seq [OF triple_trivial], rule triple_db_op [where F = "\<lambda>_. True"])
       (auto simp: atomic_triple_def insert_manifest_def keyed_manifest_def manifest_at_def new_manifest_def Let_def)
next
  case (2 a e)
  show ?case
  proof (intro triple_if triple_seq [where Q = "\<lambda>x w. case x of None \<Rightarrow> True
        | Some am \<Rightarrow> keyed_manifest (aw_idempotencyKey input) am w"] triple_find_doc triple_throw)
    fix w assume True
    show "case manifest_with_key (aw_idempotencyKey input) w of None \<Rightarrow> True
        | Some am \<Rightarrow> keyed_manifest (aw_idempotencyKey input) am w"
      by (auto split: option.split simp: keyed_manifest_def
          intro: manifest_at_here manifest_with_key_Some)
  qed (auto split: option.split intro: triple_ret triple_throw)
qed

definition written :: "artifact_service \<Rightarrow> string \<Rightarrow> string \<Rightarrow> string \<Rightarrow> ('z) world_scheme \<Rightarrow> bool" where
  "written sv key sha a w \<longleftrightarrow> (\<exists>m. keyed_manifest key (a, m) w \<and> am_sha256 m = sha \<and> verified_blob sv m w)"

lemma written_kept:
  "manifests_kept w w' \<Longrightarrow> store_kept w w' \<Longrightarrow> written sv key sha a w \<Longrightarrow> written sv key sha a w'"
  unfolding written_def using keyed_kept verified_kept by blast

lemma seq_lift: "seq (lift_result (Inr a)) k = k a"
  by (rule ext) (simp add: seq_def lift_result_def)

lemma written_promote:
  "triple any_step (written sv key sha a) (promote_manifest b sha' :: ('z world_scheme, _, _) comp) (\<lambda>_. written sv key sha a) (\<lambda>_ _. True)"
proof -
  have "manifests_kept s (snd (promote_manifest b sha' s)) \<and> store_kept s (snd (promote_manifest b sha' s))"
    for s :: "'z world_scheme"
    using kept.publishing(2) content.publishing(2) unfolding resp_def by blast
  then have both: "resp (\<lambda>w w'. manifests_kept w w' \<and> store_kept w w') (promote_manifest b sha' :: ('z world_scheme, _, _) comp)"
    unfolding resp_def by blast
  show ?thesis by (rule triple_keeps [OF both]) (auto intro: written_kept)
qed

lemma write_triple:
  "triple any_step (\<lambda>_. True) (writeEncoded sv input encoded :: ('z world_scheme, _, _) comp)
     (written sv (aw_idempotencyKey input) (en_sha256 encoded)) (\<lambda>_ _. True)"
  unfolding writeEncoded_def
proof (rule triple_seq [OF create_or_load_triple], clarify)
  fix a m
  let ?K = "keyed_manifest (aw_idempotencyKey input) (a, m) :: 'z world_scheme \<Rightarrow> bool"
  let ?W = "written sv (aw_idempotencyKey input) (en_sha256 encoded)"
  have verify: "triple any_step ?K (verifyStoredByKind sv m) (\<lambda>_ w. verified_blob sv m w \<and> ?K w) (\<lambda>_ _. True)"
    by (rule triple_pre [OF triple_frame [OF verify_kind_triple kept.verifying(3) keyed_kept]]) simp_all
  have mark: "triple any_step ?K (verify_or_mark sv a m) (\<lambda>_ w. verified_blob sv m w \<and> ?K w) (\<lambda>_ _. True)"
    by (rule triple_pre [OF triple_frame [OF verify_or_mark_triple kept.verifying(5) keyed_kept]]) simp_all
  have publish: "triple any_step ?K (publish_blob sv a m (en_compressedBytes encoded)) (\<lambda>_. ?K) (\<lambda>_ _. True)"
    by (rule triple_keeps [OF kept.publishing(1)]) (rule keyed_kept)
  have ready: "triple any_step ?K (seq (verifyStoredByKind sv m) (\<lambda>_. ret a)) ?W (\<lambda>_ _. True)"
    if "am_sha256 m = en_sha256 encoded"
    by (rule triple_seq [OF verify], rule triple_ret) (use that in \<open>auto simp: written_def\<close>)
  have fresh: "triple any_step ?K (seq (publish_blob sv a m (en_compressedBytes encoded)) (\<lambda>_.
      seq (verify_or_mark sv a m) (\<lambda>_. seq (promote_manifest a (en_sha256 encoded)) (\<lambda>_. ret a)))) ?W (\<lambda>_ _. True)"
    if "am_sha256 m = en_sha256 encoded"
  proof (rule triple_seq [OF publish], rule triple_seq [where Q = "\<lambda>_. ?W a"])
    show "triple any_step ?K (verify_or_mark sv a m) (\<lambda>_. ?W a) (\<lambda>_ _. True)"
      by (rule triple_post [OF mark]) (use that in \<open>auto simp: written_def\<close>)
  qed (rule triple_seq [OF written_promote], rule triple_ret)
  show "triple any_step ?K
    (if am_sha256 m \<noteq> en_sha256 encoded then throw (artifact_error ''ARTIFACT_IDEMPOTENCY_CONFLICT''
       ''The idempotency key already identifies different artifact content'')
     else if am_state m = MCorrupt then throw (artifact_error ''ARTIFACT_CORRUPT'' ''The artifact is corrupt'')
     else if am_state m = MDeletePending then throw (artifact_error ''ARTIFACT_NOT_FOUND''
       ''The artifact is pending deletion'')
     else if am_state m = MReady then seq (verifyStoredByKind sv m) (\<lambda>_. ret a)
     else seq (publish_blob sv a m (en_compressedBytes encoded)) (\<lambda>_.
          seq (verify_or_mark sv a m) (\<lambda>_.
          seq (promote_manifest a (en_sha256 encoded)) (\<lambda>_. ret a)))) ?W (\<lambda>_ _. True)"
    using ready fresh by (auto intro: triple_throw)
qed

lemma project_write_triple:
  assumes "encodeProjectArtifact (as_codec sv) b (as_limits sv) = Inr e"
  shows "triple any_step (\<lambda>_. True) (service_writeBundle sv input b)
    (written sv (aw_idempotencyKey input) (en_sha256 e)) (\<lambda>_ _. True)"
  unfolding service_writeBundle_def assms seq_lift by (rule write_triple)

text \<open>Reading a project: the manifest is owned, and the content is what it verified.\<close>

definition read_from :: "artifact_service \<Rightarrow> string \<Rightarrow> (artifact_manifest \<Rightarrow> bool) \<Rightarrow> project_bundle \<Rightarrow>
    ('z) world_scheme \<Rightarrow> bool" where
  "read_from sv a p b w \<longleftrightarrow> (\<exists>m. manifest_at a m w \<and> p m \<and> stored_project sv m b w)"

lemma read_triple:
  "triple any_step (\<lambda>_. True) (seq (find_manifest a p) (readManifest sv) :: ('z world_scheme, _, _) comp)
     (read_from sv a p) (\<lambda>_ _. True)"
proof (rule triple_seq [where Q = "\<lambda>found w. case found of None \<Rightarrow> True | Some (i, m) \<Rightarrow> i = a \<and> manifest_at a m w \<and> p m"])
  show "triple any_step (\<lambda>_. True) (find_manifest a p)
      (\<lambda>found w. case found of None \<Rightarrow> True | Some (i, m) \<Rightarrow> i = a \<and> manifest_at a m w \<and> p m) (\<lambda>_ _. True)"
    unfolding find_manifest_def
    by (rule triple_find_doc) (auto simp: manifest_at_def split: option.split)
next
  fix found
  show "triple any_step (\<lambda>w :: 'z world_scheme. case found of None \<Rightarrow> True | Some (i, m) \<Rightarrow> i = a \<and> manifest_at a m w \<and> p m)
      (readManifest sv found) (read_from sv a p) (\<lambda>_ _. True)"
  proof (cases found)
    case None
    then show ?thesis by (simp add: readManifest_def) (rule triple_throw, simp)
  next
    case (Some im)
    obtain i m where im: "im = (i, m)" by (cases im)
    let ?M = "\<lambda>w :: 'z world_scheme. manifest_at a m w"
    have stored: "triple any_step ?M (verifyStored sv m) (\<lambda>b w. stored_project sv m b w \<and> ?M w) (\<lambda>_ _. True)"
      by (rule triple_pre [OF triple_frame [OF verify_triple(1) kept.verifying(1) manifest_kept]]) simp_all
    have body: "triple any_step ?M (readManifest sv (Some (i, m))) (read_from sv a p) (\<lambda>_ _. True)" if "p m"
    proof -
      have "triple any_step ?M (verifyStored sv m) (read_from sv a p) (\<lambda>_ _. True)"
        by (rule triple_post [OF stored]) (use that in \<open>auto simp: read_from_def\<close>)
      then show ?thesis
        unfolding readManifest_def option.case prod.case
        by (intro triple_if triple_throw triple_catch [where X = "\<lambda>_ _. True"] triple_seq [OF triple_trivial])
           simp_all
    qed
    have "triple any_step (\<lambda>w :: 'z world_scheme. i = a \<and> ?M w \<and> p m) (readManifest sv (Some (i, m)))
        (read_from sv a p) (\<lambda>_ _. True)"
    proof (rule triple_assume [where b = "p m"], simp)
      assume "p m"
      then show "triple any_step (\<lambda>w :: 'z world_scheme. i = a \<and> ?M w \<and> p m) (readManifest sv (Some (i, m)))
          (read_from sv a p) (\<lambda>_ _. True)"
        by (rule triple_pre [OF body]) simp
    qed
    then show ?thesis using Some im by simp
  qed
qed

section \<open>A write without failures\<close>

lemma integrity_new:
  assumes "encodeProjectArtifact cd b l = Inr e"
  shows "integrityFor ((new_manifest input e a)\<lparr>am_updatedAt := t\<rparr>) = en_manifest e"
    "am_sha256 (new_manifest input e a) = en_sha256 e"
  using assms
  by (auto elim!: encode_parts simp: integrityFor_def new_manifest_def)

lemma resolve_here: "dirs_at ps (w\<lparr>w_nextId := n\<rparr>) = dirs_at ps w" "file_at p b (w\<lparr>w_nextId := n\<rparr>) = file_at p b w"
  "dirs_at ps (w\<lparr>w_manifests := x, w_manifestIds := y\<rparr>) = dirs_at ps w"
  by (simp_all add: dirs_at_def file_at_def)

lemma write_idle:
  fixes w :: "'z world_scheme"
  assumes enc: "encodeProjectArtifact (as_codec sv) b (as_limits sv) = Inr e" and cd: "gunzip_inverts (as_codec sv)"
    and idle: "w_sched w = []" and a: "a = as_uuid sv (w_nextId w)" and r: "r = as_random sv (w_nextId w + 1)"
    and new: "w_manifests w a = None" "manifest_with_key (aw_idempotencyKey input) w = None"
    and valid: "valid_manifest (new_manifest input e a)" and kind: "aw_kind input \<noteq> KPreviewBuild"
    and final: "resolveKey (as_root sv) (storageKeyFor a) = Inr final"
    and disk: "dirs_at (as_root sv # key_dirs (as_root sv) (storageKeyFor a)) w"
      "w_nodes w final = None" "w_nodes w (temp_path final r) = None"
  shows "\<exists>w'. service_writeBundle sv input b w = (Inr a, w') \<and> w_nodes w' = (w_nodes w)(final \<mapsto> FFile (en_compressedBytes e)) \<and>
    w_manifests w' = (w_manifests w)(a \<mapsto> (new_manifest input e a)\<lparr>am_state := MReady, am_updatedAt := w_now w\<rparr>) \<and>
    w_sched w' = [] \<and> w_manifestIds w' = w_manifestIds w @ [a] \<and> w_now w' = w_now w \<and> w_nextId w' = w_nextId w + 2"
proof -
  let ?d = "(new_manifest input e a)\<lparr>am_updatedAt := w_now w\<rparr>"
  let ?w2 = "w\<lparr>w_nextId := w_nextId w + 1, w_manifests := (w_manifests w)(a \<mapsto> ?d),
     w_manifestIds := w_manifestIds w @ [a]\<rparr>"
  let ?w4 = "?w2\<lparr>w_nextId := w_nextId w + 2, w_nodes := (w_nodes w)(final \<mapsto> FFile (en_compressedBytes e))\<rparr>"
  have fields [simp]: "am_storageKey ?d = storageKeyFor a" "am_kind ?d = aw_kind input" "am_state ?d = MWriting"
    "am_idempotencyKey (new_manifest input e a) = aw_idempotencyKey input" "am_errorCode ?d = None"
    by (simp_all add: new_manifest_def)
  have create: "createOrLoadManifest sv input e w = (Inr (a, ?d), ?w2)"
  proof -
    have "manifest_with_key (aw_idempotencyKey input) (w\<lparr>w_nextId := w_nextId w + 1\<rparr>) = None"
      using new(2) by (simp add: manifest_with_key_def)
    then have "create_manifest a (new_manifest input e a) (w\<lparr>w_nextId := w_nextId w + 1\<rparr>) = (Inr (a, ?d), ?w2)"
      using valid new(1) idle
      by (simp add: create_manifest_def require_def seq_def ret_def db_op_idle insert_manifest_def Let_def)
    then show ?thesis by (simp add: createOrLoadManifest_def seq_def fresh_text_def catch_def a)
  qed
  have put: "store_put (as_root sv) r (storageKeyFor a) (en_compressedBytes e) (?w2\<lparr>w_nextId := w_nextId w + 2\<rparr>) = (Inr (), ?w4)"
    using put_idle [OF final, of "?w2\<lparr>w_nextId := w_nextId w + 2\<rparr>" r "en_compressedBytes e"] idle disk
    by (simp add: dirs_at_def)
  then have publish: "publish_blob sv a ?d (en_compressedBytes e) ?w2 = (Inr (), ?w4)"
    by (simp add: publish_blob_def catch_def seq_def fresh_text_def r)
  have "file_at final (en_compressedBytes e) ?w4" by (simp add: file_at_def)
  moreover have "dirs_at (as_root sv # key_dirs (as_root sv) (storageKeyFor a)) ?w4"
    using disk(1,2) by (auto simp: dirs_at_def)
  ultimately have get: "store_get (as_root sv) (storageKeyFor a) ?w4 = (Inr (en_compressedBytes e), ?w4)"
    using idle by (intro get_idle [OF final]) simp_all
  obtain c where c: "decodeProjectArtifact (as_codec sv) (en_compressedBytes e) (en_manifest e) (as_limits sv) = Inr c"
    using decode_encoded [OF cd enc] by blast
  have verify: "verify_or_mark sv a ?d ?w4 = (Inr (), ?w4)"
    using kind get c integrity_new(1) [OF enc]
    by (simp add: verify_or_mark_def verifyStoredByKind_def verifyStored_def catch_def seq_def lift_result_def ret_def)
  let ?w5 = "?w4\<lparr>w_manifests := (w_manifests w)(a \<mapsto> ?d\<lparr>am_state := MReady\<rparr>)\<rparr>"
  have promote: "promote_manifest a (en_sha256 e) ?w4 = (Inr (), ?w5)"
    using idle
    by (simp add: promote_manifest_def seq_def update_manifest_state_def db_op_idle set_manifest_state_def ret_def)
       (simp add: new_manifest_def)
  have tail: "seq (publish_blob sv a ?d (en_compressedBytes e)) (\<lambda>_. seq (verify_or_mark sv a ?d) (\<lambda>_.
      seq (promote_manifest a (en_sha256 e)) (\<lambda>_. ret a))) ?w2 = (Inr a, ?w5)"
    by (rule seq_to, rule publish, rule seq_to, rule verify, rule seq_to, rule promote, simp add: ret_def)
  have sha: "am_sha256 ?d = en_sha256 e" using integrity_new(2) [OF enc] by simp
  have "writeEncoded sv input e w = (Inr a, ?w5)"
    unfolding writeEncoded_def
    by (rule seq_to, rule create) (simp only: prod.case sha fields manifest_state.distinct simp_thms if_False tail)
  then show ?thesis
    using idle by (simp add: service_writeBundle_def enc seq_lift new_manifest_def)
qed

text \<open>A second write under the key finds the manifest and verifies the blob.\<close>

lemma write_again_idle:
  fixes w :: "'z world_scheme"
  assumes enc: "encodeProjectArtifact (as_codec sv) b (as_limits sv) = Inr e"
    and idle: "w_sched w = []" and valid: "valid_manifest (new_manifest input e (as_uuid sv (w_nextId w)))"
    and found: "manifest_with_key (aw_idempotencyKey input) w = Some (a, m)"
    and m: "am_state m = MReady" "am_sha256 m = en_sha256 e" "am_kind m \<noteq> KPreviewBuild"
    and get: "store_get (as_root sv) (am_storageKey m) (w\<lparr>w_nextId := w_nextId w + 1\<rparr>) =
      (Inr bytes, w\<lparr>w_nextId := w_nextId w + 1\<rparr>)"
    and dec: "decodeProjectArtifact (as_codec sv) bytes (integrityFor m) (as_limits sv) = Inr c"
  shows "service_writeBundle sv input b w = (Inr a, w\<lparr>w_nextId := w_nextId w + 1\<rparr>)"
proof -
  let ?w1 = "w\<lparr>w_nextId := w_nextId w + 1\<rparr>"
  have found1: "manifest_with_key (aw_idempotencyKey input) ?w1 = Some (a, m)"
    using found by (simp add: manifest_with_key_def)
  have key: "am_idempotencyKey (new_manifest input e x) = aw_idempotencyKey input" for x
    by (simp add: new_manifest_def)
  have dup: "create_manifest x (new_manifest input e x) ?w1 = (Inl duplicate_key, ?w1)" if "x = as_uuid sv (w_nextId w)" for x
    using valid idle found1 that
    by (simp add: create_manifest_def require_def seq_def ret_def db_op_idle insert_manifest_def key)
  have load: "createOrLoadManifest sv input e w = (Inr (a, m), ?w1)"
    using idle found1 dup [OF refl]
    by (simp add: createOrLoadManifest_def seq_def fresh_text_def catch_def isDuplicateKey_def duplicate_key_def
        find_doc_def db_op_idle reads_def ret_def)
  have "seq (verifyStoredByKind sv m) (\<lambda>_. ret a) ?w1 = (Inr a, ?w1)"
    using get dec m(3) by (simp add: verifyStoredByKind_def verifyStored_def seq_def lift_result_def ret_def)
  then have "writeEncoded sv input e w = (Inr a, ?w1)"
    unfolding writeEncoded_def
    by (rule_tac seq_to, rule_tac load) (simp only: prod.case m manifest_state.distinct simp_thms if_False if_True)
  then show ?thesis by (simp add: service_writeBundle_def enc seq_lift)
qed

section \<open>The contract of the service\<close>


text \<open>A write of a project that answers has established its artifact: a manifest under the
  idempotency key of the write records the hash of the encoding, and the blob at its storage key
  decodes under that manifest, whatever other processes and failures did meanwhile.\<close>

theorem write_establishes:
  assumes "encodeProjectArtifact (as_codec sv) b (as_limits sv) = Inr e"
    and "service_writeBundle sv input b w = (Inr a, w')"
  shows "written sv (aw_idempotencyKey input) (en_sha256 e) a w'"
  using triple_val [OF project_write_triple [OF assms(1)] _ _ assms(2)] by simp

lemma written_unique:
  assumes "manifests_wf w" "written sv k s a w" "written sv k s' a' w"
  shows "a' = a \<and> s' = s"
proof -
  from assms(2,3) obtain m m' where "manifest_at a m w" "am_idempotencyKey m = k" "am_sha256 m = s"
    "manifest_at a' m' w" "am_idempotencyKey m' = k" "am_sha256 m' = s'"
    unfolding written_def keyed_manifest_def by auto
  then obtain d d' where "w_manifests w a = Some d" "manifest_core d = manifest_core m"
    "w_manifests w a' = Some d'" "manifest_core d' = manifest_core m'"
    and k: "am_idempotencyKey m = k" "am_sha256 m = s" "am_idempotencyKey m' = k" "am_sha256 m' = s'"
    unfolding manifest_at_def by auto
  then show ?thesis
    using assms(1) core_fields [of d m] core_fields [of d' m'] unfolding manifests_wf_def
    by (metis option.inject)
qed

text \<open>C22: Writing is idempotent: two writes under one idempotency key that both answer, in any order
  of other steps between them, answer the same artifact and have written the same content hash;
  content with another hash is refused. It needs that the collection of manifests is well-formed,
  which every operation preserves.\<close>

theorem write_idempotent:
  assumes "manifests_wf w" "service_writeBundle sv input b w = (Inr a, w1)"
    and "manifests_kept w1 w2" "store_kept w1 w2" "wf_order w1 w2"
    and "service_writeBundle sv input' b' w2 = (Inr a', w3)"
    and "aw_idempotencyKey input' = aw_idempotencyKey input"
    and "encodeProjectArtifact (as_codec sv) b (as_limits sv) = Inr e"
    and "encodeProjectArtifact (as_codec sv) b' (as_limits sv) = Inr e'"
  shows "a' = a \<and> en_sha256 e' = en_sha256 e"
proof -
  have "manifests_wf w1" using assms(1) respD [OF wf.writing(3) assms(2)] by (simp add: wf_order_def)
  then have "manifests_wf w2" using assms(5) by (simp add: wf_order_def)
  then have wf3: "manifests_wf w3" using respD [OF wf.writing(3) assms(6)] by (simp add: wf_order_def)
  have "written sv (aw_idempotencyKey input) (en_sha256 e) a w1"
    using triple_val [OF project_write_triple [OF assms(8)] _ _ assms(2)] by simp
  then have "written sv (aw_idempotencyKey input) (en_sha256 e) a w2"
    by (rule written_kept [OF assms(3,4)])
  then have "written sv (aw_idempotencyKey input) (en_sha256 e) a w3"
    by (rule written_kept [OF respD [OF kept.writing(3) assms(6)] respD [OF content.writing(3) assms(6)]])
  moreover have "written sv (aw_idempotencyKey input) (en_sha256 e') a' w3"
    using triple_val [OF project_write_triple [OF assms(9)] _ _ assms(6)] assms(7) by simp
  ultimately show ?thesis by (rule written_unique [OF wf3])
qed


text \<open>C24: Reading answers only owned, intact content: the manifest that was read belongs to the
  workspace, the project and the kind asked for, the bytes on the disk have the recorded sizes and
  hash, and the bundle is canonical, so that none of its paths leaves the project.\<close>

theorem read_only_owned:
  assumes "readOwnedBundle sv a ws p k w = (Inr c, w')"
  shows "canonical_bundle c \<and> (\<exists>m. manifest_at a m w' \<and> owned_manifest ws p k m \<and> stored_project sv m c w')"
proof -
  have "read_from sv a (owned_manifest ws p k) c w'"
    using triple_val [OF read_triple _ _ assms [unfolded readOwnedBundle_def]] by simp
  then obtain m where m: "manifest_at a m w'" "owned_manifest ws p k m" "stored_project sv m c w'"
    unfolding read_from_def by blast
  from m(3) obtain bytes where
    "decodeProjectArtifact (as_codec sv) bytes (integrityFor m) (as_limits sv) = Inr c"
    unfolding stored_project_def by blast
  then have "canonical_bundle c" using decode_parts by blast
  with m show ?thesis by blast
qed

section \<open>A concrete service\<close>

definition demo_service :: artifact_service where
  "demo_service = \<lparr>as_root = ''/data'', as_limits = demo_limits,
     as_codec = demo_codec\<lparr>cd_sha256 := (\<lambda>raw. replicate 64 (if raw = [] then CHR ''0'' else CHR ''1''))\<rparr>,
     as_uuid = (\<lambda>n. replicate 32 (if n = 0 then CHR ''a'' else CHR ''b'')), as_random = (\<lambda>n. ''r'')\<rparr>"

definition demo_write :: artifact_write where
  "demo_write = \<lparr>aw_workspaceId = ''w'', aw_projectId = ''p'', aw_createdByRunId = ''r'',
     aw_kind = KProjectSnapshot, aw_idempotencyKey = ''snapshot:r''\<rparr>"

definition demo_store :: world where
  "demo_store = empty_world\<lparr>w_nodes := [''/data'' \<mapsto> FDir, ''/data/v1'' \<mapsto> FDir, ''/data/v1/aa'' \<mapsto> FDir,
     ''/data/v1/aa/aa'' \<mapsto> FDir]\<rparr>"

abbreviation demo_id :: string where
  "demo_id \<equiv> replicate 32 (CHR ''a'')"

lemma demo_uuid: "as_uuid demo_service 0 = demo_id" "as_root demo_service = ''/data''"
    "as_limits demo_service = demo_limits" "as_random demo_service n = ''r''"
  by (simp_all add: demo_service_def)

lemma demo_storage: "resolveKey ''/data'' (storageKeyFor demo_id) = Inr (''/data/'' @ storageKeyFor demo_id)"
  by (simp add: resolveKey_def storage_key_def storageKeyFor_def join_root_def Let_def is_hex_def is_digit_def
      starts_with_def eval_nat_numeral)

lemma valid_new:
  assumes "encodeProjectArtifact cd b l = Inr e" "storage_key (storageKeyFor a)"
    and "length (en_sha256 e) = 64" "list_all is_hex (en_sha256 e)"
  shows "valid_manifest (new_manifest input e a)"
proof -
  from assms(1) obtain c where l: "validateLimits l = Inr ()" "int (length (b_files b)) \<le> maxFiles l"
    "canonicalizeBundle (bundle_json b) = Inr c"
    and sizes: "int (length (en_uncompressedBytes e)) \<le> maxUncompressedBytes l"
      "int (length (en_compressedBytes e)) \<le> maxCompressedBytes l"
    and mf: "en_manifest e = \<lparr>ig_format = artifactFormat, ig_formatVersion = 1, ig_sha256 = en_sha256 e,
      ig_uncompressedBytes = int (length (en_uncompressedBytes e)),
      ig_compressedBytes = int (length (en_compressedBytes e)), ig_fileCount = int (length (b_files c))\<rparr>"
    by (rule encode_parts)
  show ?thesis
    using limits_safe [OF l(1)] sizes l(2) canonicalize_length [OF l(3)] assms(2-4)
    by (auto simp: valid_manifest_def new_manifest_def mf isSafeInteger_def)
qed

abbreviation demo_project :: project_bundle where
  "demo_project \<equiv> demo_bundle [''b.ts'', ''a.ts'']"

lemma encode_other_hash:
  "encodeProjectArtifact cd b l = Inr e \<Longrightarrow> \<exists>e'. encodeProjectArtifact (cd\<lparr>cd_sha256 := f\<rparr>) b l = Inr e'"
  unfolding encodeProjectArtifact_def encode_project_json_def encode_canonical_def Let_def by (auto simp: and_then_Inr)

lemma demo_service_encodes:
  "\<exists>e. encodeProjectArtifact (as_codec demo_service) demo_project (as_limits demo_service) = Inr e \<and>
     length (en_sha256 e) = 64 \<and> list_all is_hex (en_sha256 e)"
proof -
  obtain e where e: "encodeProjectArtifact (as_codec demo_service) demo_project (as_limits demo_service) = Inr e"
    using demo_encodes encode_other_hash unfolding demo_service_def artifact_service.simps by blast
  then have "en_sha256 e = cd_sha256 (as_codec demo_service) (en_uncompressedBytes e)" by (rule encode_parts)
  then have "length (en_sha256 e) = 64 \<and> list_all is_hex (en_sha256 e)"
    by (simp add: demo_service_def list_all_iff is_hex_def is_digit_def)
  with e show ?thesis by blast
qed

lemma demo_codec_of_service: "gunzip_inverts (as_codec demo_service)"
  by (simp add: gunzip_inverts_def demo_service_def demo_codec_def)

lemma demo_written:
  obtains e w' m where "encodeProjectArtifact (as_codec demo_service) demo_project (as_limits demo_service) = Inr e"
    and "service_writeBundle demo_service demo_write demo_project demo_store = (Inr demo_id, w')"
    and "w_sched w' = []" "dirs_at (''/data'' # key_dirs ''/data'' (storageKeyFor demo_id)) w'"
    and "file_at (''/data/'' @ storageKeyFor demo_id) (en_compressedBytes e) w'"
    and "w_manifestIds w' = [demo_id]" "w_manifests w' demo_id = Some m" "integrityFor m = en_manifest e"
    and "am_state m = MReady" "am_sha256 m = en_sha256 e" "am_kind m = KProjectSnapshot"
    and "am_idempotencyKey m = ''snapshot:r''" "am_storageKey m = storageKeyFor demo_id"
    and "am_workspaceId m = ''w''" "am_projectId m = ''p''"
proof -
  obtain e where e: "encodeProjectArtifact (as_codec demo_service) demo_project (as_limits demo_service) = Inr e"
    "length (en_sha256 e) = 64" "list_all is_hex (en_sha256 e)"
    using demo_service_encodes by blast
  have key: "storage_key (storageKeyFor demo_id)" using resolveKey_parts(1) [OF demo_storage] .
  have dirs: "dirs_at (''/data'' # key_dirs ''/data'' (storageKeyFor demo_id)) demo_store"
    by (simp add: key_dirs_def storageKeyFor_def dirs_at_def demo_store_def eval_nat_numeral)
  have free: "w_nodes demo_store (''/data/'' @ storageKeyFor demo_id) = None"
    "w_nodes demo_store (temp_path (''/data/'' @ storageKeyFor demo_id) ''r'') = None"
    by (simp_all add: demo_store_def storageKeyFor_def temp_path_def empty_world_def)
  have "\<exists>w'. service_writeBundle demo_service demo_write demo_project demo_store = (Inr demo_id, w') \<and>
      w_nodes w' = (w_nodes demo_store)(''/data/'' @ storageKeyFor demo_id \<mapsto> FFile (en_compressedBytes e)) \<and>
      w_manifests w' = (w_manifests demo_store)(demo_id \<mapsto>
        (new_manifest demo_write e demo_id)\<lparr>am_state := MReady, am_updatedAt := w_now demo_store\<rparr>) \<and>
      w_sched w' = [] \<and> w_manifestIds w' = w_manifestIds demo_store @ [demo_id] \<and> w_now w' = w_now demo_store \<and>
      w_nextId w' = w_nextId demo_store + 2"
    by (rule write_idle [OF e(1) demo_codec_of_service])
       (use dirs free valid_new [OF e(1) key e(2,3)] in \<open>simp_all add: demo_store_def empty_world_def
          demo_uuid demo_storage manifest_with_key_def List.map_filter_def demo_write_def\<close>)
  then obtain w' where run: "service_writeBundle demo_service demo_write demo_project demo_store = (Inr demo_id, w')"
    and w': "w_nodes w' = (w_nodes demo_store)(''/data/'' @ storageKeyFor demo_id \<mapsto> FFile (en_compressedBytes e))"
      "w_manifests w' = (w_manifests demo_store)(demo_id \<mapsto>
        (new_manifest demo_write e demo_id)\<lparr>am_state := MReady, am_updatedAt := w_now demo_store\<rparr>)"
      "w_sched w' = []" "w_manifestIds w' = w_manifestIds demo_store @ [demo_id]" by blast
  let ?m = "(new_manifest demo_write e demo_id)\<lparr>am_state := MReady, am_updatedAt := w_now demo_store\<rparr>"
  have integrity: "integrityFor ?m = en_manifest e"
    using integrity_new(1) [OF e(1), of "w_now demo_store" demo_write demo_id] by (simp add: integrityFor_def)
  have dirs': "dirs_at (''/data'' # key_dirs ''/data'' (storageKeyFor demo_id)) w'"
    using dirs free(1) by (auto simp: dirs_at_def w'(1))
  have sha: "am_sha256 ?m = en_sha256 e" using integrity_new(2) [OF e(1)] by simp
  have blob: "file_at (''/data/'' @ storageKeyFor demo_id) (en_compressedBytes e) w'" by (simp add: file_at_def w'(1))
  have ids: "w_manifestIds w' = [demo_id]" by (simp add: w'(4) demo_store_def empty_world_def)
  have at: "w_manifests w' demo_id = Some ?m" by (simp add: w'(2))
  show ?thesis
    by (rule that [OF e(1) run w'(3) dirs' blob ids at integrity _ sha])
       (simp_all add: new_manifest_def demo_write_def)
qed

text \<open>A state of the theorems' hypotheses: the artifact written, and the schedule empty.\<close>

lemma demo_wf: "manifests_wf demo_store"
  by (simp add: manifests_wf_def demo_store_def empty_world_def)

lemma demo_read:
  assumes "w_sched w' = []" "dirs_at (''/data'' # key_dirs ''/data'' (storageKeyFor demo_id)) w'"
    and "file_at (''/data/'' @ storageKeyFor demo_id) bytes w'"
  shows "store_get (as_root demo_service) (storageKeyFor demo_id) w' = (Inr bytes, w')"
  using get_idle [OF demo_storage assms(2,3,1)] by (simp add: demo_uuid)

theorem write_establishes_witness:
  "\<exists>e w'. service_writeBundle demo_service demo_write demo_project demo_store = (Inr demo_id, w') \<and>
     written demo_service ''snapshot:r'' (en_sha256 (e :: encoded_artifact)) demo_id w'"
proof -
  obtain e w' where e: "encodeProjectArtifact (as_codec demo_service) demo_project (as_limits demo_service) = Inr e"
    and run: "service_writeBundle demo_service demo_write demo_project demo_store = (Inr demo_id, w')"
    by (rule demo_written)
  from write_establishes [OF e run] run show ?thesis by (auto simp: demo_write_def)
qed

theorem write_idempotent_witness:
  "\<exists>w1 w2. service_writeBundle demo_service demo_write demo_project demo_store = (Inr demo_id, w1) \<and>
     service_writeBundle demo_service demo_write demo_project w1 = (Inr demo_id, w2)"
proof -
  obtain e w' m where e: "encodeProjectArtifact (as_codec demo_service) demo_project (as_limits demo_service) = Inr e"
    and run: "service_writeBundle demo_service demo_write demo_project demo_store = (Inr demo_id, w')"
    and idle: "w_sched w' = []" and dirs: "dirs_at (''/data'' # key_dirs ''/data'' (storageKeyFor demo_id)) w'"
    and blob: "file_at (''/data/'' @ storageKeyFor demo_id) (en_compressedBytes e) w'"
    and ids: "w_manifestIds w' = [demo_id]" and at: "w_manifests w' demo_id = Some m"
    and m: "integrityFor m = en_manifest e" "am_state m = MReady" "am_sha256 m = en_sha256 e"
      "am_kind m = KProjectSnapshot" "am_idempotencyKey m = ''snapshot:r''" "am_storageKey m = storageKeyFor demo_id"
    by (rule demo_written)
  obtain c where c: "decodeProjectArtifact (as_codec demo_service) (en_compressedBytes e) (en_manifest e) (as_limits demo_service) = Inr c"
    using decode_encoded [OF demo_codec_of_service e] by blast
  have hash: "length (en_sha256 e) = 64" "list_all is_hex (en_sha256 e)"
    using demo_service_encodes e by auto
  have key: "storage_key (storageKeyFor (as_uuid demo_service n))" for n
    by (simp add: storage_key_def storageKeyFor_def Let_def is_hex_def is_digit_def eval_nat_numeral demo_service_def)
  have again: "service_writeBundle demo_service demo_write demo_project w' = (Inr demo_id, w'\<lparr>w_nextId := w_nextId w' + 1\<rparr>)"
  proof (rule write_again_idle [OF e idle valid_new [OF e key hash]])
    show "manifest_with_key (aw_idempotencyKey demo_write) w' = Some (demo_id, m)"
      using ids at m(5) by (simp add: manifest_with_key_def List.map_filter_def demo_write_def)
    show "store_get (as_root demo_service) (am_storageKey m) (w'\<lparr>w_nextId := w_nextId w' + 1\<rparr>) =
        (Inr (en_compressedBytes e), w'\<lparr>w_nextId := w_nextId w' + 1\<rparr>)"
      using idle dirs blob m(6) demo_read [of "w'\<lparr>w_nextId := w_nextId w' + 1\<rparr>"] by (simp add: resolve_here)
  qed (use m c in simp_all)
  obtain a' w'' where second: "service_writeBundle demo_service demo_write demo_project w' = (Inr a', w'')"
    using again by blast
  have "a' = demo_id"
    using write_idempotent [OF demo_wf run kept_disk.R_refl blobs.R_refl wf_disk.R_refl second refl e e] by blast
  with run second show ?thesis by blast
qed

lemma demo_read_back:
  obtains e w1 c where "encodeProjectArtifact (as_codec demo_service) demo_project (as_limits demo_service) = Inr e"
    and "service_writeBundle demo_service demo_write demo_project demo_store = (Inr demo_id, w1)"
    and "canonicalizeBundle (bundle_json demo_project) = Inr c"
    and "readOwnedBundle demo_service demo_id ''w'' ''p'' KProjectSnapshot w1 = (Inr c, w1)"
proof -
  obtain e w' m where e: "encodeProjectArtifact (as_codec demo_service) demo_project (as_limits demo_service) = Inr e"
    and run: "service_writeBundle demo_service demo_write demo_project demo_store = (Inr demo_id, w')"
    and idle: "w_sched w' = []" and dirs: "dirs_at (''/data'' # key_dirs ''/data'' (storageKeyFor demo_id)) w'"
    and blob: "file_at (''/data/'' @ storageKeyFor demo_id) (en_compressedBytes e) w'"
    and at: "w_manifests w' demo_id = Some m"
    and m: "integrityFor m = en_manifest e" "am_state m = MReady" "am_kind m = KProjectSnapshot"
      "am_storageKey m = storageKeyFor demo_id" "am_workspaceId m = ''w''" "am_projectId m = ''p''"
    by (rule demo_written)
  obtain c where c: "canonicalizeBundle (bundle_json demo_project) = Inr c"
    "decodeProjectArtifact (as_codec demo_service) (en_compressedBytes e) (en_manifest e) (as_limits demo_service) = Inr c"
    using decode_encoded [OF demo_codec_of_service e] by blast
  have "readOwnedBundle demo_service demo_id ''w'' ''p'' KProjectSnapshot w' = (Inr c, w')"
    using idle at m c(2) demo_read [OF idle dirs blob]
    by (simp add: readOwnedBundle_def find_manifest_def find_doc_def db_op_idle reads_def seq_def owned_manifest_def
        readManifest_def catch_def verifyStored_def lift_result_def)
  with e run c(1) show ?thesis by (rule that)
qed


theorem read_only_owned_witness:
  "\<exists>w1 c w2. readOwnedBundle demo_service demo_id ''w'' ''p'' KProjectSnapshot w1 = (Inr c, w2 :: world) \<and>
     canonical_bundle c"
proof -
  obtain w1 c where "readOwnedBundle demo_service demo_id ''w'' ''p'' KProjectSnapshot w1 = (Inr c, w1 :: world)"
    by (rule demo_read_back)
  with read_only_owned show ?thesis by blast
qed

end
