(* ===== verification/SandboxService.thy ===== *)
theory SandboxService
  imports SandboxProvider ArtifactService
begin

text \<open>
  The service that builds in sandboxes: \<open>sandbox/SandboxService.ts\<close>. It reserves a lease, creates and
  fills the provider's resource, runs the build commands in it, exports the build output and terminates it.
  Providers are a parameter. The timer of the heartbeat loop (\<open>sandbox/heartbeatLoop.ts\<close>) is a step
  of the schedule; its first beat is made by the service itself.
\<close>

record 'z sandbox_options =
  sb_artifacts :: artifact_service
  sb_config :: sandbox_config
  sb_lock :: quota_lock
  sb_providers :: "(string \<times> 'z sandbox_provider) list"
  sb_production :: bool

record build_input =
  bi_workspaceId :: object_id
  bi_projectId :: object_id
  bi_branchId :: object_id
  bi_requestedByUserId :: object_id
  bi_runId :: object_id
  bi_sourceArtifact :: "string \<times> source_kind"
  bi_provider :: string
  bi_image :: string
  bi_attempt :: nat
  bi_resources :: resource_profile

fun artifact_kind_of :: "source_kind \<Rightarrow> artifact_kind" where
  "artifact_kind_of SourceSnapshot = KProjectSnapshot"
| "artifact_kind_of SourceCandidate = KValidationCandidate"

section \<open>Checks and lookups\<close>

definition service_error :: "string \<Rightarrow> string \<Rightarrow> js_error" where
  "service_error code msg = sandbox_error code msg False"

definition provider_of :: "'z sandbox_options \<Rightarrow> string \<Rightarrow> js_error + 'z sandbox_provider" where
  "provider_of sb kind = (case map_of (sb_providers sb) kind of
     None \<Rightarrow> Inl (sandbox_error ''SANDBOX_PROVIDER_UNAVAILABLE'' ''Sandbox Provider is not configured'' True)
   | Some p \<Rightarrow> Inr p)"

definition requireLease :: "object_id \<Rightarrow> (('z) world_scheme, js_error, lease_doc) comp" where
  "requireLease i = seq (repo_findById i) (\<lambda>d.
     case d of None \<Rightarrow> throw (service_error ''SANDBOX_NOT_FOUND'' ''Sandbox Lease not found'') | Some d \<Rightarrow> ret d)"

text \<open>\<open>updated ?? await this.requireLease(id)\<close>.\<close>

definition or_require :: "object_id \<Rightarrow> lease_doc option \<Rightarrow> (('z) world_scheme, js_error, lease_doc) comp" where
  "or_require i updated = (case updated of Some d \<Rightarrow> ret d | None \<Rightarrow> requireLease i)"

definition assertOwnership :: "sandbox_lease \<Rightarrow> sandbox_ownership \<Rightarrow> js_error + unit" where
  "assertOwnership l expected =
     check (sl_workspaceId l = so_workspaceId expected \<and> sl_projectId l = so_projectId expected \<and>
        sl_branchId l = so_branchId expected \<and> sl_runId l = so_runId expected \<and>
        sl_snapshotId l = so_snapshotId expected \<and> sl_purpose l = so_purpose expected)
       (service_error ''SANDBOX_OWNERSHIP_MISMATCH'' ''Sandbox Lease ownership does not match'')"

definition buildSpec :: "'z sandbox_options \<Rightarrow> build_input \<Rightarrow> sandbox_spec" where
  "buildSpec sb input = \<lparr>sp_provisioningKey = ''build:'' @ bi_runId input @ '':'' @ show_nat (bi_attempt input),
     sp_ownership = \<lparr>so_workspaceId = bi_workspaceId input, so_projectId = bi_projectId input,
       so_branchId = bi_branchId input, so_runId = Some (bi_runId input), so_snapshotId = None, so_purpose = BuildSandbox\<rparr>,
     sp_image = bi_image input, sp_workingDirectory = ''/workspace'', sp_resources = bi_resources input,
     sp_networkPolicy = \<lparr>np_defaultAction = AllowAll, np_allowedDomains = [], np_allowedCidrs = []\<rparr>,
     sp_lifecycle = \<lparr>lf_leaseSeconds = sx_leaseSeconds (sb_config sb), lf_autoStopSeconds = None,
       lf_autoDeleteSeconds = sx_autoDeleteSeconds (sb_config sb)\<rparr>,
     sp_labels = [(''managed-by'', ''open-v0''), (''workspaceId'', bi_workspaceId input),
       (''projectId'', bi_projectId input), (''branchId'', bi_branchId input), (''purpose'', ''build'')]\<rparr>"

definition source_unavailable :: js_error where
  "source_unavailable = service_error ''SANDBOX_SOURCE_UNAVAILABLE'' ''Sandbox source Artifact is unavailable''"

definition read_source :: "'z sandbox_options \<Rightarrow> string \<times> source_kind \<Rightarrow> object_id \<Rightarrow> object_id \<Rightarrow>
    ('z world_scheme, js_error, project_bundle) comp" where
  "read_source sb source ws p =
     catch (readOwnedBundle (sb_artifacts sb) (fst source) ws p (artifact_kind_of (snd source)))
       (\<lambda>_. throw source_unavailable)"

fun missing_capability :: "capabilities \<Rightarrow> string list \<Rightarrow> string option" where
  "missing_capability c [] = None"
| "missing_capability c (x # xs) = (if has_capability c x then missing_capability c xs else Some x)"

definition assertCapabilities :: "'z sandbox_provider \<Rightarrow> sandbox_spec \<Rightarrow> ('z world_scheme, js_error, unit) comp" where
  "assertCapabilities pv spec =
     seq (catch (pv_describe pv) (\<lambda>_. throw (sandbox_error ''SANDBOX_PROVIDER_UNAVAILABLE'' ''Sandbox Provider is unavailable'' True))) (\<lambda>c.
     case missing_capability c (requiredCapabilities spec) of
       None \<Rightarrow> ret ()
     | Some x \<Rightarrow> throw (service_error ''SANDBOX_CAPABILITY_MISSING'' (''Sandbox Provider lacks required capability: '' @ x)))"

text \<open>The files of the bundle by path, with the \<open>package.json\<close> of the bundle.\<close>

definition uploadFiles :: "project_bundle \<Rightarrow> (string \<times> bytes) list" where
  "uploadFiles b = map_set ''package.json'' (utf8_encode (stringifyPackage (b_packageJson b) @ [newline]))
     (foldl (\<lambda>m f. map_set (path f) (utf8_encode (content f)) m) [] (b_files b))"

definition lease_ref :: "sandbox_lease \<Rightarrow> string \<Rightarrow> sandbox_ref" where
  "lease_ref l externalId = \<lparr>rf_provider = sl_provider l, rf_externalId = externalId\<rparr>"

section \<open>Provisioning\<close>

definition set_terminated :: "time \<Rightarrow> sandbox_lease \<Rightarrow> sandbox_lease" where
  "set_terminated now = (\<lambda>l. l\<lparr>sl_terminatedAt := Some now\<rparr>)"

definition set_error :: "string \<Rightarrow> string \<Rightarrow> bool \<Rightarrow> sandbox_lease \<Rightarrow> sandbox_lease" where
  "set_error code msg retryable =
     (\<lambda>l. l\<lparr>sl_error := Some \<lparr>le_code = code, le_message = msg, le_retryable = retryable\<rparr>\<rparr>)"

definition cleanupFailedProvisioning :: "object_id \<Rightarrow> sandbox_ref \<Rightarrow> 'z sandbox_provider \<Rightarrow>
    ('z world_scheme, js_error, unit) comp" where
  "cleanupFailedProvisioning i ref pv =
     seq (transition i [SProvisioning] STerminating
       (set_error ''SANDBOX_PROVISION_FAILED'' ''Sandbox provisioning failed'' True)) (\<lambda>_.
     seq (catch (seq (pv_destroy pv ref) (\<lambda>x. ret (Some x))) (\<lambda>_. ret None)) (\<lambda>receipt.
     case receipt of
       None \<Rightarrow> ret ()
     | Some x \<Rightarrow>
         if dr_pending x then ret ()
         else seq Date_now (\<lambda>now. seq (transition i [STerminating] STerminated (set_terminated now)) (\<lambda>_. ret ()))))"

definition fill_sandbox :: "'z sandbox_options \<Rightarrow> 'z sandbox_provider \<Rightarrow> lease_doc \<Rightarrow> sandbox_ref \<Rightarrow>
    ('z world_scheme, js_error, lease_doc) comp" where
  "fill_sandbox sb pv lease ref =
     seq (read_source sb (sl_sourceArtifact (snd lease)) (sl_workspaceId (snd lease)) (sl_projectId (snd lease))) (\<lambda>bundle.
     seq (pv_connect pv ref) (\<lambda>handle.
     seq (hd_waitUntilReady handle (sx_readinessTimeoutMs (sb_config sb))) (\<lambda>_.
     seq (hd_writeFiles handle (uploadFiles bundle)) (\<lambda>_.
     seq Date_now (\<lambda>now.
     seq (transition (fst lease) [SProvisioning] SReady
       (\<lambda>l. l\<lparr>sl_readyAt := Some now, sl_lastHeartbeatAt := Some now\<rparr>)) (\<lambda>ready.
     or_require (fst lease) ready))))))"

definition resumeProvisioning :: "'z sandbox_options \<Rightarrow> object_id \<Rightarrow> ('z world_scheme, js_error, lease_doc) comp" where
  "resumeProvisioning sb i =
     seq (requireLease i) (\<lambda>lease.
     if sl_state (snd lease) = SReady \<or> sl_state (snd lease) = SRunning then ret lease
     else (case sl_externalId (snd lease) of
       Some x \<Rightarrow>
         if sl_state (snd lease) \<noteq> SProvisioning
         then throw (sandbox_error ''SANDBOX_NOT_READY'' ''Sandbox has no bound Provider resource'' True)
         else seq (lift_result (provider_of sb (sl_provider (snd lease)))) (\<lambda>pv.
           catch (fill_sandbox sb pv lease (lease_ref (snd lease) x)) (\<lambda>e.
             seq (cleanupFailedProvisioning (fst lease) (lease_ref (snd lease) x) pv) (\<lambda>_.
             if isSandboxError e then throw e
             else throw (sandbox_error ''SANDBOX_PROVISION_FAILED'' ''Sandbox provisioning failed'' True))))
     | None \<Rightarrow> throw (sandbox_error ''SANDBOX_NOT_READY'' ''Sandbox has no bound Provider resource'' True)))"

definition create_resource :: "'z sandbox_provider \<Rightarrow> sandbox_spec \<Rightarrow> object_id \<Rightarrow> ('z world_scheme, js_error, sandbox_ref) comp" where
  "create_resource pv spec i =
     catch (pv_create pv spec) (\<lambda>e.
       seq (if err_notCreated e
            then seq (transition i [SProvisioning] SFailed
                   (set_error (case err_code e of None \<Rightarrow> [] | Some c \<Rightarrow> c) (err_message e) (err_retryable e))) (\<lambda>_. ret ())
            else ret ()) (\<lambda>_.
       throw e))"

definition provision :: "'z sandbox_options \<Rightarrow> 'z sandbox_provider \<Rightarrow> sandbox_spec \<Rightarrow> lease_doc \<Rightarrow>
    ('z world_scheme, js_error, lease_doc) comp" where
  "provision sb pv spec reserved =
     (if sl_state (snd reserved) = SReady \<or> sl_state (snd reserved) = SRunning then ret reserved
      else seq (if sl_state (snd reserved) = SReserved
                then seq (transition (fst reserved) [SReserved] SProvisioning (\<lambda>l. l)) (or_require (fst reserved))
                else ret reserved) (\<lambda>lease.
        if sl_state (snd lease) \<noteq> SProvisioning
        then throw (service_error ''SANDBOX_INVALID_STATE'' ''Sandbox Lease cannot be provisioned from its current state'')
        else if sl_externalId (snd lease) \<noteq> None then resumeProvisioning sb (fst lease)
        else seq (create_resource pv spec (fst lease)) (\<lambda>ref.
             seq (bindExternalId (fst lease) (rf_provider ref) (rf_externalId ref)) (\<lambda>bound.
             seq (or_require (fst lease) bound) (\<lambda>lease.
             if sl_provider (snd lease) \<noteq> rf_provider ref \<or> sl_externalId (snd lease) \<noteq> Some (rf_externalId ref)
             then throw (service_error ''SANDBOX_OWNERSHIP_MISMATCH'' ''Sandbox Lease is bound to a different Provider resource'')
             else resumeProvisioning sb (fst lease))))))"

definition build_request :: "build_input \<Rightarrow> sandbox_spec \<Rightarrow> time \<Rightarrow> reservation_request" where
  "build_request input spec now = \<lparr>rq_workspaceId = bi_workspaceId input, rq_projectId = bi_projectId input,
     rq_branchId = bi_branchId input, rq_requestedByUserId = bi_requestedByUserId input, rq_runId = Some (bi_runId input),
     rq_snapshotId = None, rq_sourceArtifact = bi_sourceArtifact input, rq_purpose = BuildSandbox,
     rq_provider = bi_provider input, rq_provisioningKey = sp_provisioningKey spec,
     rq_spec = \<lparr>ls_image = sp_image spec, ls_workingDirectory = sp_workingDirectory spec,
       ls_networkPolicy = sp_networkPolicy spec, ls_lifecycle = sp_lifecycle spec\<rparr>,
     rq_resourceProfile = sp_resources spec, rq_expiresAt = now + lf_leaseSeconds (sp_lifecycle spec) * 1000\<rparr>"

definition createBuildSandbox :: "'z sandbox_options \<Rightarrow> build_input \<Rightarrow> ('z world_scheme, js_error, lease_doc) comp" where
  "createBuildSandbox sb input =
     (let spec = buildSpec sb input
      in seq (lift_result (provider_of sb (bi_provider input))) (\<lambda>pv.
         seq (lift_result (assertProviderAllowed (sb_config sb) (bi_provider input) (sb_production sb))) (\<lambda>_.
         seq (lift_result (assertSpecAllowed (sb_config sb) spec)) (\<lambda>_.
         seq (read_source sb (bi_sourceArtifact input) (bi_workspaceId input) (bi_projectId input)) (\<lambda>_.
         seq (assertCapabilities pv spec) (\<lambda>_.
         seq Date_now (\<lambda>now.
         seq (reserve (sb_lock sb) (build_request input spec now)) (\<lambda>lease.
         provision sb pv spec lease))))))))"

section \<open>Commands\<close>

definition is_code :: "string \<Rightarrow> js_error \<Rightarrow> bool" where
  "is_code code e \<longleftrightarrow> isSandboxError e \<and> err_code e = Some code"

text \<open>The abort reason of a command: its own, or the one of the run when a signal was given.\<close>

definition command_abort :: "bool \<Rightarrow> ('z) world_scheme \<Rightarrow> js_error option" where
  "command_abort signal w = (case w_commandAbort w of Some e \<Rightarrow> Some e
     | None \<Rightarrow> if signal \<and> w_aborted w then Some runCancelledError else None)"

definition throw_command_abort :: "bool \<Rightarrow> (('z) world_scheme, js_error, unit) comp" where
  "throw_command_abort signal = seq (reads (command_abort signal)) (\<lambda>x.
     case x of None \<Rightarrow> ret () | Some e \<Rightarrow> throw e)"

definition throw_if_signalled :: "bool \<Rightarrow> (('z) world_scheme, js_error, unit) comp" where
  "throw_if_signalled signal = (if signal then throwIfAborted else ret ())"

definition command_heartbeat :: "'z sandbox_handle \<Rightarrow> object_id \<Rightarrow> sandbox_ref \<Rightarrow> ('z world_scheme, js_error, unit) comp" where
  "command_heartbeat handle i ref =
     seq (hd_heartbeat handle) (\<lambda>_.
     seq Date_now (\<lambda>now.
     seq (heartbeatRunning i (rf_provider ref) (rf_externalId ref) now) (\<lambda>stored.
     if stored = None then throw (service_error ''SANDBOX_LOST'' ''Sandbox Lease heartbeat ownership was lost'')
     else ret ())))"

text \<open>Starting the loop checks its interval; its beats are steps of the schedule.\<close>

definition startSandboxHeartbeatLoop :: "int \<Rightarrow> js_error + unit" where
  "startSandboxHeartbeatLoop intervalMs = check (positiveSafeInteger intervalMs)
     (plain_error ''Sandbox heartbeat interval must be a positive safe integer'')"

definition run_with_heartbeat :: "'z sandbox_options \<Rightarrow> 'z sandbox_handle \<Rightarrow> object_id \<Rightarrow> sandbox_ref \<Rightarrow> sandbox_command \<Rightarrow> bool \<Rightarrow>
    ('z world_scheme, js_error, command_result) comp" where
  "run_with_heartbeat sb handle i ref command signal =
     seq (modify (\<lambda>w. w\<lparr>w_commandAbort := if signal \<and> w_aborted w then Some runCancelledError else None\<rparr>)) (\<lambda>_.
     seq (lift_result (startSandboxHeartbeatLoop (sx_heartbeatIntervalMs (sb_config sb)))) (\<lambda>_.
     seq (catch (command_heartbeat handle i ref) (\<lambda>e.
       if isSandboxError e then throw e
       else throw (sandbox_error ''SANDBOX_PROVIDER_UNAVAILABLE'' ''Sandbox heartbeat failed'' True))) (\<lambda>_.
     seq (throw_command_abort signal) (\<lambda>_.
     seq (hd_run handle command) (\<lambda>result.
     seq (throw_command_abort signal) (\<lambda>_.
     if cr_timedOut result
     then throw (sandbox_error ''SANDBOX_COMMAND_TIMEOUT'' ''Sandbox command timed out'' True)
     else ret result))))))"

definition connect_or_lose :: "'z sandbox_provider \<Rightarrow> lease_doc \<Rightarrow> sandbox_ref \<Rightarrow>
    ('z world_scheme, js_error, 'z sandbox_handle) comp" where
  "connect_or_lose pv lease ref =
     catch (pv_connect pv ref) (\<lambda>e.
       if is_code ''SANDBOX_NOT_FOUND'' e
       then seq (transition (fst lease) [sl_state (snd lease)] SLost (\<lambda>l. l)) (\<lambda>_.
            throw (service_error ''SANDBOX_LOST'' ''Sandbox Provider resource was lost''))
       else throw e)"

definition start_running :: "lease_doc \<Rightarrow> ('z world_scheme, js_error, lease_doc) comp" where
  "start_running lease =
     (if sl_state (snd lease) \<noteq> SReady then ret lease
      else seq Date_now (\<lambda>now.
           seq (transition (fst lease) [SReady] SRunning (\<lambda>l. l\<lparr>sl_lastHeartbeatAt := Some now\<rparr>)) (\<lambda>next'.
           seq (or_require (fst lease) next') (\<lambda>lease.
           if sl_state (snd lease) \<noteq> SRunning
           then throw (service_error ''SANDBOX_INVALID_STATE'' ''Sandbox Lease did not enter running state'')
           else ret lease))))"

text \<open>\<open>lease.externalId!\<close> after the second read.\<close>

definition external_of :: "sandbox_lease \<Rightarrow> string" where
  "external_of l = (case sl_externalId l of None \<Rightarrow> ''undefined'' | Some x \<Rightarrow> x)"

definition runBuildCommand :: "'z sandbox_options \<Rightarrow> object_id \<Rightarrow> sandbox_ownership \<Rightarrow> build_command_name \<Rightarrow> bool \<Rightarrow>
    ('z world_scheme, js_error, command_result) comp" where
  "runBuildCommand sb i expected name signal =
     seq (throw_if_signalled signal) (\<lambda>_.
     seq (requireLease i) (\<lambda>lease.
     seq (lift_result (assertOwnership (snd lease) expected)) (\<lambda>_.
     case sl_externalId (snd lease) of
       None \<Rightarrow> throw (service_error ''SANDBOX_INVALID_STATE'' ''Sandbox Lease cannot execute commands'')
     | Some x \<Rightarrow>
         if sl_state (snd lease) \<noteq> SReady \<and> sl_state (snd lease) \<noteq> SRunning
         then throw (service_error ''SANDBOX_INVALID_STATE'' ''Sandbox Lease cannot execute commands'')
         else seq (lift_result (provider_of sb (sl_provider (snd lease)))) (\<lambda>pv.
           seq (connect_or_lose pv lease (lease_ref (snd lease) x)) (\<lambda>handle.
           seq (find_doc (\<lambda>w. w_workspaces w (sl_workspaceId (snd lease)))) (\<lambda>workspace.
           case workspace of
             None \<Rightarrow> throw (denied ''Sandbox Workspace is unavailable'')
           | Some k \<Rightarrow>
               seq (hd_exists handle ''package-lock.json'') (\<lambda>hasPackageLock.
               seq (lift_result (buildCommand (sb_config sb) name hasPackageLock (xl_maxLogBytesPerCommand (wk_executionLimits k)))) (\<lambda>command.
               seq (start_running lease) (\<lambda>lease.
               run_with_heartbeat sb handle (fst lease) (lease_ref (snd lease) (external_of (snd lease))) command signal))))))))) "

section \<open>Build output\<close>

definition EXPORT_LIMIT :: nat where
  "EXPORT_LIMIT = 40 * 1024 * 1024"

fun export_loop :: "'z sandbox_handle \<Rightarrow> string list \<Rightarrow> nat \<Rightarrow> ('z world_scheme, js_error, (string \<times> bytes) list) comp" where
  "export_loop handle [] used = ret []"
| "export_loop handle (p # ps) used =
     (if \<not> starts_with ''dist/'' p
      then throw (service_error ''SANDBOX_OWNERSHIP_MISMATCH'' ''Sandbox build output escaped the dist directory'')
      else seq (hd_readFile handle p) (\<lambda>c.
           if EXPORT_LIMIT < used + length c
           then throw (service_error ''SANDBOX_SOURCE_UNAVAILABLE'' ''Sandbox build output exceeds the preview size limit'')
           else seq (export_loop handle ps (used + length c)) (\<lambda>rest. ret ((drop 5 p, c) # rest))))"

definition exportBuildOutput :: "'z sandbox_options \<Rightarrow> object_id \<Rightarrow> sandbox_ownership \<Rightarrow>
    ('z world_scheme, js_error, preview_bundle) comp" where
  "exportBuildOutput sb i expected =
     seq (requireLease i) (\<lambda>lease.
     seq (lift_result (assertOwnership (snd lease) expected)) (\<lambda>_.
     case sl_externalId (snd lease) of
       None \<Rightarrow> throw (service_error ''SANDBOX_INVALID_STATE'' ''Sandbox Lease cannot export build output'')
     | Some x \<Rightarrow>
         if sl_state (snd lease) \<noteq> SReady \<and> sl_state (snd lease) \<noteq> SRunning
         then throw (service_error ''SANDBOX_INVALID_STATE'' ''Sandbox Lease cannot export build output'')
         else seq (lift_result (provider_of sb (sl_provider (snd lease)))) (\<lambda>pv.
           seq (pv_connect pv (lease_ref (snd lease) x)) (\<lambda>handle.
           seq (hd_listFiles handle ''dist'') (\<lambda>paths.
           if paths = [] \<or> 5000 < length paths
           then throw (service_error ''SANDBOX_SOURCE_UNAVAILABLE'' ''Sandbox build output is empty or exceeds the file limit'')
           else seq (export_loop handle paths 0) (\<lambda>files.
                case createPreviewArtifactBundle files of
                  Inr b \<Rightarrow> ret b
                | Inl _ \<Rightarrow> throw (service_error ''SANDBOX_SOURCE_UNAVAILABLE'' ''Sandbox build output cannot be published as a preview'')))))))"

section \<open>Termination\<close>

definition finish_terminating :: "object_id \<Rightarrow> ('z world_scheme, js_error, lease_doc) comp" where
  "finish_terminating i =
     seq Date_now (\<lambda>now.
     seq (transition i [STerminating] STerminated (set_terminated now)) (or_require i))"

definition terminate :: "'z sandbox_options \<Rightarrow> object_id \<Rightarrow> sandbox_ownership \<Rightarrow>
    ('z world_scheme, js_error, lease_doc) comp" where
  "terminate sb i expected =
     seq (requireLease i) (\<lambda>lease.
     seq (lift_result (assertOwnership (snd lease) expected)) (\<lambda>_.
     if sl_state (snd lease) = STerminated then ret lease
     else seq (if sl_state (snd lease) \<noteq> STerminating
               then seq (transition i [sl_state (snd lease)] STerminating (\<lambda>l. l)) (or_require i)
               else ret lease) (\<lambda>lease.
       if sl_state (snd lease) \<noteq> STerminating
       then throw (service_error ''SANDBOX_INVALID_STATE'' ''Sandbox Lease cannot be terminated'')
       else (case sl_externalId (snd lease) of
           None \<Rightarrow> finish_terminating i
         | Some x \<Rightarrow>
             seq (lift_result (provider_of sb (sl_provider (snd lease)))) (\<lambda>pv.
             seq (pv_destroy pv (lease_ref (snd lease) x)) (\<lambda>receipt.
             if dr_pending receipt then requireLease i
             else seq (pv_inspect pv (lease_ref (snd lease) x)) (\<lambda>inspection.
                  if in_status inspection \<noteq> IMissing then requireLease i
                  else finish_terminating i)))))))"

section \<open>Relations every operation of the service respects\<close>

definition handle_respects :: "('z world_scheme \<Rightarrow> 'z world_scheme \<Rightarrow> bool) \<Rightarrow> 'z sandbox_handle \<Rightarrow> bool" where
  "handle_respects R h \<longleftrightarrow> (\<forall>t. resp R (hd_waitUntilReady h t)) \<and> (\<forall>fs. resp R (hd_writeFiles h fs)) \<and>
     (\<forall>p. resp R (hd_readFile h p)) \<and> (\<forall>d. resp R (hd_listFiles h d)) \<and> (\<forall>p. resp R (hd_exists h p)) \<and>
     (\<forall>c. resp R (hd_run h c)) \<and> resp R (hd_stopAll h) \<and> resp R (hd_heartbeat h) \<and> resp R (hd_stop h)"

definition provider_respects :: "('z world_scheme \<Rightarrow> 'z world_scheme \<Rightarrow> bool) \<Rightarrow> 'z sandbox_provider \<Rightarrow> bool" where
  "provider_respects R pv \<longleftrightarrow> resp R (pv_describe pv) \<and> (\<forall>sp. resp R (pv_create pv sp)) \<and>
     (\<forall>r. resp R (pv_connect pv r) \<and> returns (handle_respects R) (pv_connect pv r)) \<and> (\<forall>r. resp R (pv_inspect pv r)) \<and>
     (\<forall>f. resp R (pv_list pv f)) \<and> (\<forall>r. resp R (pv_destroy pv r))"

definition providers_respect :: "('z world_scheme \<Rightarrow> 'z world_scheme \<Rightarrow> bool) \<Rightarrow> 'z sandbox_options \<Rightarrow> bool" where
  "providers_respect R sb \<longleftrightarrow> (\<forall>(k, pv) \<in> set (sb_providers sb). provider_respects R pv)"

lemma provider_ofD: "providers_respect R sb \<Longrightarrow> provider_of sb kind = Inr pv \<Longrightarrow> provider_respects R pv"
  by (auto simp: providers_respect_def provider_of_def dest: map_of_SomeD split: option.splits)

lemma provider_calls:
  assumes "provider_respects R pv"
  shows "resp R (pv_describe pv)" "resp R (pv_create pv sp)" "resp R (pv_connect pv r)" "resp R (pv_inspect pv r)"
    "resp R (pv_list pv f)" "resp R (pv_destroy pv r)"
  using assms by (simp_all add: provider_respects_def)

lemma handle_calls:
  assumes "handle_respects R h"
  shows "resp R (hd_waitUntilReady h t)" "resp R (hd_writeFiles h fs)" "resp R (hd_readFile h p)" "resp R (hd_listFiles h d)"
    "resp R (hd_exists h p)" "resp R (hd_run h c)" "resp R (hd_stopAll h)" "resp R (hd_heartbeat h)" "resp R (hd_stop h)"
  using assms by (simp_all add: handle_respects_def)

text \<open>
  The contract of such a relation: besides the steps of others and the artifact service it respects the
  updates of leases the repository makes, reservations, and the abort flag of commands.
\<close>

locale sandbox_host = artifact_order R for R :: "('z) world_scheme \<Rightarrow> 'z world_scheme \<Rightarrow> bool" +
  assumes R_move: "keeps_identity f \<Longrightarrow> resp R (transition i sources target f)"
    and R_bind: "resp R (bindExternalId i pr x)" and R_clear: "resp R (clearExternalId i pr x)"
    and R_beat: "resp R (heartbeatRunning i pr x t)"
    and R_claim: "resp R (claimProvisioning i t u)" "resp R (claimStaleRunning i pr x t)"
    and R_reserve: "resp R (reserve lk rq)"
    and R_abort: "R w (w\<lparr>w_commandAbort := a\<rparr>)"
begin

lemma lookups: "resp R (repo_findById i)" "resp R (findByProviderRef a b)" "resp R (requireLease i)" "resp R (or_require i d)"
  unfolding or_require_def requireLease_def repo_findById_def findByProviderRef_def
  by (intro resp_rules resp_seq resp_find_doc)+

lemmas host_steps = resp_rules resp_seq resp_catch resp_find_doc resp_Date_now lookups R_move R_bind R_clear R_beat R_claim R_reserve

lemma kept_fields: "keeps_identity (set_terminated now)" "keeps_identity (set_error c m r)"
  unfolding set_terminated_def set_error_def by simp_all

lemma source: "resp R (read_source sb a ws p)"
  unfolding read_source_def by (intro host_steps reading)

lemma with_provider:
  assumes "providers_respect R sb" "\<And>pv. provider_respects R pv \<Longrightarrow> resp R (k pv)"
  shows "resp R (seq (lift_result (provider_of sb kind)) k)"
  by (rule resp_seq_with [OF resp_lift returns_lift [OF provider_ofD [OF assms(1)]] assms(2)])

lemma with_handle:
  assumes "provider_respects R pv" "\<And>h. handle_respects R h \<Longrightarrow> resp R (k h)"
  shows "resp R (seq (pv_connect pv r) k)"
  by (rule resp_seq_with [where Q = "handle_respects R"]) (use assms in \<open>auto simp: provider_respects_def\<close>)

lemma cleanup: "provider_respects R pv \<Longrightarrow> resp R (cleanupFailedProvisioning i ref pv)"
  unfolding cleanupFailedProvisioning_def by (intro host_steps kept_fields provider_calls)

lemma fill: "provider_respects R pv \<Longrightarrow> resp R (fill_sandbox sb pv lease ref)"
  unfolding fill_sandbox_def by (intro host_steps source with_handle handle_calls keeps_identity_fields)

lemma resume: "providers_respect R sb \<Longrightarrow> resp R (resumeProvisioning sb i)"
  unfolding resumeProvisioning_def by (intro host_steps with_provider fill cleanup)

lemma provisioning:
  assumes "providers_respect R sb" "provider_respects R pv" shows "resp R (provision sb pv spec lease)"
  unfolding provision_def create_resource_def
  by (intro host_steps resume provider_calls assms kept_fields keeps_identity_fields)

lemma create_build: "providers_respect R sb \<Longrightarrow> resp R (createBuildSandbox sb input)"
  unfolding createBuildSandbox_def assertCapabilities_def
  by (intro resp_let with_provider host_steps source provisioning provider_calls)

lemma aborting: "resp R (throw_command_abort s)" "resp R (throw_if_signalled s)"
  unfolding throw_command_abort_def throw_if_signalled_def throwIfAborted_def by (intro host_steps)+

lemma running: "handle_respects R h \<Longrightarrow> resp R (run_with_heartbeat sb h i ref c s)"
  unfolding run_with_heartbeat_def command_heartbeat_def
  by (intro host_steps aborting handle_calls resp_modify R_abort)

lemma connected:
  assumes "provider_respects R pv" "\<And>h. handle_respects R h \<Longrightarrow> resp R (k h)"
  shows "resp R (seq (connect_or_lose pv lease ref) k)"
proof (rule resp_seq_with [where Q = "handle_respects R"])
  show "resp R (connect_or_lose pv lease ref)"
    unfolding connect_or_lose_def by (intro host_steps provider_calls assms(1) keeps_identity_fields)
  show "returns (handle_respects R) (connect_or_lose pv lease ref)"
    unfolding connect_or_lose_def
    by (intro returns_intros) (use assms(1) in \<open>simp add: provider_respects_def\<close>)
qed (rule assms(2))

lemma starting: "resp R (start_running lease)"
  unfolding start_running_def by (intro host_steps keeps_identity_fields)

lemma build_command: "providers_respect R sb \<Longrightarrow> resp R (runBuildCommand sb i expected name s)"
  unfolding runBuildCommand_def
  by (intro host_steps aborting with_provider connected starting running handle_calls)

lemma export_respects: "handle_respects R h \<Longrightarrow> resp R (export_loop h ps n)"
  by (induction h ps n rule: export_loop.induct) (auto intro!: host_steps handle_calls)

lemma export_output: "providers_respect R sb \<Longrightarrow> resp R (exportBuildOutput sb i expected)"
  unfolding exportBuildOutput_def by (intro host_steps with_provider with_handle export_respects handle_calls)

lemma finishing: "resp R (finish_terminating i)"
  unfolding finish_terminating_def by (intro host_steps kept_fields)

lemma terminating: "providers_respect R sb \<Longrightarrow> resp R (terminate sb i expected)"
  unfolding terminate_def by (intro host_steps with_provider provider_calls finishing keeps_identity_fields)

end

interpretation leases_disk: disk_order "sandbox_order :: ('z) world_scheme \<Rightarrow> 'z world_scheme \<Rightarrow> bool"
  by unfold_locales simp

interpretation leases_store: artifact_order "sandbox_order :: ('z) world_scheme \<Rightarrow> 'z world_scheme \<Rightarrow> bool"
  by unfold_locales
    (simp_all add: leases_disk.disk_operations, auto simp: resp_def insert_manifest_def set_manifest_state_def Let_def
      sandbox_order_refl split: option.split)

interpretation lease_host: sandbox_host "sandbox_order :: ('z) world_scheme \<Rightarrow> 'z world_scheme \<Rightarrow> bool"
  by unfold_locales (simp_all add: repo_order reserve_order)

text \<open>The in-memory provider changes its own field of the store only.\<close>

locale fake_blind = store_order R for R :: "('y) fake_world_scheme \<Rightarrow> 'y fake_world_scheme \<Rightarrow> bool" +
  assumes R_fake: "R w (w\<lparr>w_fake := st\<rparr>)"
begin

lemma fake_steps: "resp R (fake_reads f)" "resp R (fake_updates g)"
  by (auto simp: resp_def fake_reads_def fake_updates_def R_refl R_fake split: sum.split prod.split)

lemma fake_handle_respects: "handle_respects R (fake_handle r)"
  unfolding handle_respects_def fake_handle_def sandbox_handle.simps fake_waitUntilReady_def fake_readFile_def
    fake_listFiles_def fake_exists_def fake_run_def fake_heartbeat_def fake_stop_def
  by (intro conjI allI resp_rules resp_seq fake_steps resp_db_op resp_modify R_fake)
    (auto simp: resp_def fake_writeFiles_def R_refl R_fake split: sum.split prod.split)

lemma fake_provider_respects: "provider_respects R fake_provider"
proof -
  have "resp R (fake_create sp)" for sp
    by (auto simp: resp_def fake_create_def Let_def R_refl R_fake split: list.split option.split prod.split)
  moreover have "resp R fake_describe" by (simp add: resp_def fake_describe_def R_refl)
  moreover have "returns (handle_respects R) (fake_connect r)" for r
    by (auto simp: returns_def fake_connect_def fake_reads_def fake_handle_respects and_then_Inr elim!: seq_elim
      split: sum.splits)
  ultimately show ?thesis
    unfolding provider_respects_def fake_provider_def sandbox_provider.simps fake_connect_def fake_inspect_def
      fake_list_def fake_destroy_def
    by (intro conjI allI resp_rules resp_seq fake_steps) simp_all
qed

end

interpretation fake_leases: fake_blind "sandbox_order :: ('y) fake_world_scheme \<Rightarrow> 'y fake_world_scheme \<Rightarrow> bool"
  by unfold_locales simp

section \<open>Concrete inputs\<close>

definition demo_sandbox_config :: sandbox_config where
  "demo_sandbox_config = \<lparr>sx_provider = ''fake'', sx_localEnabled = False, sx_localRoot = [],
     sx_daytona = \<lparr>dy_apiKey = None, dy_jwtToken = None, dy_organizationId = None, dy_apiUrl = None, dy_target = None\<rparr>,
     sx_allowedBuildImages = [''node:22''], sx_quotaLockTtlMs = 5000, sx_quotaLockWaitMs = 2000,
     sx_readinessTimeoutMs = 1000, sx_leaseSeconds = 900, sx_autoDeleteSeconds = 1800, sx_orphanGraceMs = 1000,
     sx_reconcileIntervalMs = 1000, sx_heartbeatIntervalMs = 1000, sx_heartbeatTimeoutMs = 5000,
     sx_commandTimeouts = \<lparr>cto_install = 1000, cto_typeCheck = 1000, cto_build = 1000\<rparr>\<rparr>"

definition demo_ownership :: sandbox_ownership where
  "demo_ownership = \<lparr>so_workspaceId = ''ws'', so_projectId = ''p'', so_branchId = ''b'', so_runId = Some ''r'',
     so_snapshotId = None, so_purpose = BuildSandbox\<rparr>"

definition demo_spec :: sandbox_spec where
  "demo_spec = \<lparr>sp_provisioningKey = ''build:r:1'', sp_ownership = demo_ownership, sp_image = ''node:22'',
     sp_workingDirectory = ''/workspace'', sp_resources = rq_resourceProfile demo_request,
     sp_networkPolicy = ls_networkPolicy (rq_spec demo_request), sp_lifecycle = ls_lifecycle (rq_spec demo_request),
     sp_labels = []\<rparr>"

definition demo_options :: "unit fake_world_ext sandbox_options" where
  "demo_options = \<lparr>sb_artifacts = demo_service, sb_config = demo_sandbox_config, sb_lock = demo_lock,
     sb_providers = [(''fake'', fake_provider)], sb_production = False\<rparr>"

text \<open>A ready lease and its resource.\<close>

definition demo_lease :: sandbox_lease where
  "demo_lease = (reservation_record demo_request 0)\<lparr>sl_state := SReady, sl_externalId := Some ''fake-1''\<rparr>"

definition demo_fake :: fake_state where
  "demo_fake = snd (fake_insert demo_spec \<lparr>fk_entries = [], fk_sequence = 0, fk_nextCreateFailure = None,
     fk_commandResults = [], fk_buildOutput = [], fk_readinessTimeouts = [], fk_heartbeats = 0, fk_blockNextCommand = False\<rparr>)"

definition demo_fake_world :: "unit fake_world_scheme" where
  "demo_fake_world = world.extend (demo_sandbox_world\<lparr>w_sandboxLeases := [''l'' \<mapsto> demo_lease], w_sandboxIds := [''l'']\<rparr>)
     (fake_world.fields demo_fake)"

lemma demo_providers: "providers_respect sandbox_order demo_options"
  by (simp add: providers_respect_def demo_options_def fake_leases.fake_provider_respects)

lemma demo_lease_valid: "valid_lease demo_lease"
  by code_simp

lemma demo_fake_wf: "leases_wf demo_fake_world"
  by (simp add: leases_wf_def demo_lease_valid demo_fake_world_def world.defs fake_world.defs demo_sandbox_world_def)

end
