(* ===== verification/SandboxReconciler.thy ===== *)
theory SandboxReconciler
  imports SandboxService
begin

text \<open>
  The periodic clean-up of sandboxes: \<open>sandbox/SandboxReconciler.ts\<close>. Its counters are an object the
  passes share and change, so they are a second part of the state: they keep their value when a pass
  throws. \<open>ObjectId.isValid\<close> and \<open>localeCompare\<close> are parameters.
\<close>

record reconcile_result =
  rr_failedReservations :: nat
  rr_resumedProvisioning :: nat
  rr_lost :: nat
  rr_terminated :: nat
  rr_destroyedDuplicates :: nat
  rr_destroyedOrphans :: nat
  rr_staleHeartbeats :: nat
  rr_errors :: nat

record 'z reconciler =
  rc_service :: "'z sandbox_options"
  rc_providers :: "(string \<times> 'z sandbox_provider) list"
  rc_orphanGraceMs :: int
  rc_heartbeatTimeoutMs :: int
  rc_isValidId :: "string \<Rightarrow> bool"
  rc_collate :: "string \<Rightarrow> string \<Rightarrow> bool"

definition SANDBOX_RECONCILER_BATCH_SIZE :: nat where
  "SANDBOX_RECONCILER_BATCH_SIZE = 100"

type_synonym ('z, 'a) counted = "('z world_scheme \<times> reconcile_result, js_error, 'a) comp"

definition count_if :: "bool \<Rightarrow> (reconcile_result \<Rightarrow> reconcile_result) \<Rightarrow> ('z, unit) counted" where
  "count_if b f = (if b then change f else ret ())"

section \<open>Projections of a lease\<close>

definition lease_ownership :: "sandbox_lease \<Rightarrow> sandbox_ownership" where
  "lease_ownership l = \<lparr>so_workspaceId = sl_workspaceId l, so_projectId = sl_projectId l, so_branchId = sl_branchId l,
     so_runId = sl_runId l, so_snapshotId = sl_snapshotId l, so_purpose = sl_purpose l\<rparr>"

fun purpose_text :: "sandbox_purpose \<Rightarrow> string" where
  "purpose_text BuildSandbox = ''build''"
| "purpose_text PreviewSandbox = ''preview''"

definition lease_to_spec :: "sandbox_lease \<Rightarrow> sandbox_spec" where
  "lease_to_spec l = \<lparr>sp_provisioningKey = sl_provisioningKey l, sp_ownership = lease_ownership l,
     sp_image = ls_image (sl_spec l), sp_workingDirectory = ls_workingDirectory (sl_spec l),
     sp_resources = sl_resourceProfile l, sp_networkPolicy = ls_networkPolicy (sl_spec l),
     sp_lifecycle = ls_lifecycle (sl_spec l),
     sp_labels = [(''managed-by'', ''open-v0''), (''workspaceId'', sl_workspaceId l), (''projectId'', sl_projectId l),
       (''branchId'', sl_branchId l), (''purpose'', purpose_text (sl_purpose l))]\<rparr>"

definition label_or_empty :: "labels \<Rightarrow> string \<Rightarrow> string" where
  "label_or_empty ls k = (case map_of ls k of None \<Rightarrow> [] | Some v \<Rightarrow> v)"

definition validOwnershipLabels :: "(string \<Rightarrow> bool) \<Rightarrow> labels \<Rightarrow> bool" where
  "validOwnershipLabels isValid ls \<longleftrightarrow> map_of ls ''managed-by'' = Some ''open-v0'' \<and>
     isValid (label_or_empty ls ''workspaceId'') \<and> isValid (label_or_empty ls ''projectId'') \<and>
     isValid (label_or_empty ls ''branchId'') \<and>
     (map_of ls ''purpose'' = Some ''build'' \<or> map_of ls ''purpose'' = Some ''preview'')"

definition inspect_or_missing :: "'z sandbox_provider \<Rightarrow> sandbox_ref \<Rightarrow>
    ('z world_scheme, js_error, sandbox_inspection option) comp" where
  "inspect_or_missing pv r =
     catch (seq (pv_inspect pv r) (\<lambda>x. ret (Some x))) (\<lambda>e.
       if is_code ''SANDBOX_NOT_FOUND'' e then ret None else throw e)"

definition is_gone :: "sandbox_inspection option \<Rightarrow> bool" where
  "is_gone x \<longleftrightarrow> (case x of None \<Rightarrow> True | Some v \<Rightarrow> in_status v = IMissing)"

section \<open>Provisioning that stopped half way\<close>

text \<open>The resources found for a key, oldest first; \<open>Promise.all\<close> inspects them in their order.\<close>

fun inspect_all :: "'z sandbox_provider \<Rightarrow> sandbox_ref list \<Rightarrow>
    ('z world_scheme, js_error, (sandbox_ref \<times> sandbox_inspection) list) comp" where
  "inspect_all pv [] = ret []"
| "inspect_all pv (r # rs) =
     seq (inspect_or_missing pv r) (\<lambda>x.
     seq (inspect_all pv rs) (\<lambda>rest.
     ret (case x of None \<Rightarrow> rest | Some v \<Rightarrow> if in_status v = IMissing then rest else (r, v) # rest)))"

definition found_le :: "(string \<Rightarrow> string \<Rightarrow> bool) \<Rightarrow> sandbox_ref \<times> sandbox_inspection \<Rightarrow> sandbox_ref \<times> sandbox_inspection \<Rightarrow> bool" where
  "found_le collate a b \<longleftrightarrow> in_createdAt (snd a) < in_createdAt (snd b) \<or>
     in_createdAt (snd a) = in_createdAt (snd b) \<and> collate (rf_externalId (fst a)) (rf_externalId (fst b))"

definition find_or_create :: "'z reconciler \<Rightarrow> 'z sandbox_provider \<Rightarrow> lease_doc \<Rightarrow> ('z, string option) counted" where
  "find_or_create rc pv lease =
     seq (call (pv_list pv \<lparr>ft_provisioningKey = Some (sl_provisioningKey (snd lease)),
       ft_labels = sp_labels (lease_to_spec (snd lease))\<rparr>)) (\<lambda>refs.
     seq (call (inspect_all pv refs)) (\<lambda>found.
     let sorted = sort_by (found_le (rc_collate rc)) found
     in seq (case sorted of [] \<Rightarrow> call (pv_create pv (lease_to_spec (snd lease))) | x # _ \<Rightarrow> ret (fst x)) (\<lambda>retained.
        seq (for_each (tl sorted) (\<lambda>d.
          seq (call (pv_destroy pv (fst d))) (\<lambda>receipt.
          count_if (\<not> dr_pending receipt) (\<lambda>n. n\<lparr>rr_destroyedDuplicates := rr_destroyedDuplicates n + 1\<rparr>)))) (\<lambda>_.
        seq (call (bindExternalId (fst lease) (rf_provider retained) (rf_externalId retained))) (\<lambda>bound.
        case bound of
          Some d \<Rightarrow> (case sl_externalId (snd d) of
              Some x \<Rightarrow> ret (Some x)
            | None \<Rightarrow> seq (call (repo_findById (fst lease))) (\<lambda>d. ret (case d of None \<Rightarrow> None | Some d \<Rightarrow> sl_externalId (snd d))))
        | None \<Rightarrow> seq (call (repo_findById (fst lease))) (\<lambda>d.
            ret (case d of None \<Rightarrow> None | Some d \<Rightarrow> sl_externalId (snd d))))))))"

text \<open>The resource already bound, unless it is gone; the inner \<open>None\<close> asks for a new one, the outer one stops.\<close>

definition bound_resource :: "'z sandbox_provider \<Rightarrow> lease_doc \<Rightarrow> ('z, string option option) counted" where
  "bound_resource pv lease = (case sl_externalId (snd lease) of
     None \<Rightarrow> ret (Some None)
   | Some x \<Rightarrow>
       seq (call (inspect_or_missing pv (lease_ref (snd lease) x))) (\<lambda>inspection.
       if \<not> is_gone inspection then ret (Some (Some x))
       else seq (call (clearExternalId (fst lease) (sl_provider (snd lease)) x)) (\<lambda>cleared.
            ret (if cleared = None then None else Some None))))"

definition claim_and_resume :: "'z reconciler \<Rightarrow> lease_doc \<Rightarrow> ('z, unit) counted" where
  "claim_and_resume rc lease =
     seq (call (repo_findById (fst lease))) (\<lambda>before.
     case before of
       None \<Rightarrow> ret ()
     | Some b \<Rightarrow>
         if sl_state (snd b) \<noteq> SProvisioning then ret ()
         else seq (call Date_now) (\<lambda>now.
              seq (call (claimProvisioning (fst lease) (sl_updatedAt (snd b)) now)) (\<lambda>claimed.
              if claimed = None then ret ()
              else seq (call (resumeProvisioning (rc_service rc) (fst lease))) (\<lambda>resumed.
                   count_if (sl_state (snd resumed) = SReady)
                     (\<lambda>n. n\<lparr>rr_resumedProvisioning := rr_resumedProvisioning n + 1\<rparr>)))))"

definition reconcileProvisioning :: "'z reconciler \<Rightarrow> lease_doc \<Rightarrow> ('z, unit) counted" where
  "reconcileProvisioning rc lease = (case map_of (rc_providers rc) (sl_provider (snd lease)) of
     None \<Rightarrow> ret ()
   | Some pv \<Rightarrow>
       seq (bound_resource pv lease) (\<lambda>bound.
       case bound of
         None \<Rightarrow> ret ()
       | Some (Some x) \<Rightarrow> claim_and_resume rc lease
       | Some None \<Rightarrow>
           seq (find_or_create rc pv lease) (\<lambda>externalId.
           if externalId = None then ret () else claim_and_resume rc lease)))"

section \<open>One lease\<close>

definition terminate_counted :: "'z reconciler \<Rightarrow> lease_doc \<Rightarrow> ('z, unit) counted" where
  "terminate_counted rc lease =
     seq (call (terminate (rc_service rc) (fst lease) (lease_ownership (snd lease)))) (\<lambda>d.
     count_if (sl_state (snd d) = STerminated) (\<lambda>n. n\<lparr>rr_terminated := rr_terminated n + 1\<rparr>))"

definition check_resource :: "'z reconciler \<Rightarrow> lease_doc \<Rightarrow> ('z, unit) counted" where
  "check_resource rc lease = (case (sl_externalId (snd lease), map_of (rc_providers rc) (sl_provider (snd lease))) of
     (Some x, Some pv) \<Rightarrow>
       seq (call (inspect_or_missing pv (lease_ref (snd lease) x))) (\<lambda>inspection.
       if is_gone inspection
       then seq (call (transition (fst lease) [sl_state (snd lease)] SLost (\<lambda>l. l))) (\<lambda>changed.
            count_if (changed \<noteq> None) (\<lambda>n. n\<lparr>rr_lost := rr_lost n + 1\<rparr>))
       else ret ())
   | _ \<Rightarrow> ret ())"

definition stale_heartbeat :: "'z reconciler \<Rightarrow> time \<Rightarrow> sandbox_lease \<Rightarrow> bool" where
  "stale_heartbeat rc now l \<longleftrightarrow> sl_state l = SRunning \<and>
     (case sl_lastHeartbeatAt l of None \<Rightarrow> False | Some t \<Rightarrow> t \<le> now - rc_heartbeatTimeoutMs rc)"

definition reconcileLease :: "'z reconciler \<Rightarrow> lease_doc \<Rightarrow> ('z, unit) counted" where
  "reconcileLease rc lease =
     seq (call Date_now) (\<lambda>now.
     let l = snd lease; expired = sl_expiresAt l \<le> now
     in if sl_state l = SReserved \<and> expired
        then seq (call (transition (fst lease) [SReserved] SFailed
               (set_error ''SANDBOX_PROVISION_FAILED'' ''Sandbox reservation expired'' True))) (\<lambda>changed.
             count_if (changed \<noteq> None) (\<lambda>n. n\<lparr>rr_failedReservations := rr_failedReservations n + 1\<rparr>))
        else if expired \<and> sl_state l \<in> {SProvisioning, SReady, SRunning, SLost, SFailed} then terminate_counted rc lease
        else if stale_heartbeat rc now l
        then (case sl_externalId l of
            None \<Rightarrow> ret ()
          | Some x \<Rightarrow>
              seq (call (claimStaleRunning (fst lease) (sl_provider l) x (now - rc_heartbeatTimeoutMs rc))) (\<lambda>claimed.
              if claimed = None then ret ()
              else seq (change (\<lambda>n. n\<lparr>rr_staleHeartbeats := rr_staleHeartbeats n + 1\<rparr>)) (\<lambda>_. terminate_counted rc lease)))
        else if sl_state l = SProvisioning then reconcileProvisioning rc lease
        else if sl_state l = SReady \<or> sl_state l = SRunning then check_resource rc lease
        else if sl_state l = SFailed \<or> sl_state l = SLost \<or> sl_state l = STerminating then terminate_counted rc lease
        else ret ())"

section \<open>Orphans and the whole pass\<close>

definition orphan_candidate :: "'z reconciler \<Rightarrow> time \<Rightarrow> sandbox_inspection option \<Rightarrow> bool" where
  "orphan_candidate rc cutoff x \<longleftrightarrow> (case x of None \<Rightarrow> False
     | Some v \<Rightarrow> in_status v \<noteq> IMissing \<and> in_createdAt v \<le> cutoff \<and> validOwnershipLabels (rc_isValidId rc) (in_labels v))"

definition reconcile_orphan :: "'z reconciler \<Rightarrow> 'z sandbox_provider \<Rightarrow> time \<Rightarrow> sandbox_ref \<Rightarrow> ('z, unit) counted" where
  "reconcile_orphan rc pv cutoff r =
     seq (call (inspect_or_missing pv r)) (\<lambda>inspection.
     if \<not> orphan_candidate rc cutoff inspection then ret ()
     else seq (call (findByProviderRef (rf_provider r) (rf_externalId r))) (\<lambda>owner.
       if owner \<noteq> None then ret ()
       else seq (call (pv_destroy pv r)) (\<lambda>receipt.
            count_if (\<not> dr_pending receipt) (\<lambda>n. n\<lparr>rr_destroyedOrphans := rr_destroyedOrphans n + 1\<rparr>))))"

definition reconcileOrphans :: "'z reconciler \<Rightarrow> 'z sandbox_provider \<Rightarrow> ('z, unit) counted" where
  "reconcileOrphans rc pv =
     seq (call (pv_list pv \<lparr>ft_provisioningKey = None, ft_labels = [(''managed-by'', ''open-v0'')]\<rparr>)) (\<lambda>refs.
     seq (call Date_now) (\<lambda>now.
     for_each (take SANDBOX_RECONCILER_BATCH_SIZE refs) (reconcile_orphan rc pv (now - rc_orphanGraceMs rc))))"

definition count_error :: "js_error \<Rightarrow> ('z, unit) counted" where
  "count_error e = change (\<lambda>n. n\<lparr>rr_errors := rr_errors n + 1\<rparr>)"

definition reconcile_pass :: "'z reconciler \<Rightarrow> ('z, unit) counted" where
  "reconcile_pass rc =
     seq (call (find_doc (\<lambda>w. take SANDBOX_RECONCILER_BATCH_SIZE
       (filter (\<lambda>d. sl_state (snd d) \<noteq> STerminated) (lease_list w))))) (\<lambda>leases.
     seq (for_each leases (\<lambda>d. catch (reconcileLease rc d) count_error)) (\<lambda>_.
     for_each (map snd (rc_providers rc)) (\<lambda>pv. catch (reconcileOrphans rc pv) count_error)))"

definition no_counts :: reconcile_result where
  "no_counts = \<lparr>rr_failedReservations = 0, rr_resumedProvisioning = 0, rr_lost = 0, rr_terminated = 0,
     rr_destroyedDuplicates = 0, rr_destroyedOrphans = 0, rr_staleHeartbeats = 0, rr_errors = 0\<rparr>"

definition reconcile :: "'z reconciler \<Rightarrow> ('z world_scheme, js_error, reconcile_result) comp" where
  "reconcile rc = (\<lambda>w. case reconcile_pass rc (w, no_counts) of (r, (w', n)) \<Rightarrow>
     (case r of Inl e \<Rightarrow> Inl e | Inr _ \<Rightarrow> Inr n, w'))"

section \<open>Relations the passes respect\<close>

sublocale sandbox_host \<subseteq> counted: effect_order "pair_order R :: 'z world_scheme \<times> reconcile_result \<Rightarrow> _ \<Rightarrow> bool"
  by (rule pairs)

definition reconciler_respects :: "('z world_scheme \<Rightarrow> 'z world_scheme \<Rightarrow> bool) \<Rightarrow> 'z reconciler \<Rightarrow> bool" where
  "reconciler_respects R rc \<longleftrightarrow> providers_respect R (rc_service rc) \<and>
     (\<forall>(k, pv) \<in> set (rc_providers rc). provider_respects R pv)"

lemma reconciler_provider: "reconciler_respects R rc \<Longrightarrow> map_of (rc_providers rc) k = Some pv \<Longrightarrow> provider_respects R pv"
  by (auto simp: reconciler_respects_def dest: map_of_SomeD)

context sandbox_host
begin

lemmas counted_steps = counted.resp_rules counted.resp_seq counted.resp_catch resp_call resp_change

lemma counting: "resp (pair_order R) (count_if b f :: ('z, unit) counted)" "resp (pair_order R) (count_error e :: ('z, unit) counted)"
  unfolding count_if_def count_error_def by (intro counted_steps)+

lemma inspecting:
  assumes "provider_respects R pv"
  shows "resp R (inspect_or_missing pv r)" "resp R (inspect_all pv rs)"
proof -
  show one: "resp R (inspect_or_missing pv r)" for r
    unfolding inspect_or_missing_def by (intro host_steps provider_calls assms)
  show "resp R (inspect_all pv rs)"
    by (induction rs) (auto intro!: host_steps one)
qed

lemma finding:
  "provider_respects R pv \<Longrightarrow> resp (pair_order R) (find_or_create rc pv lease :: ('z, _) counted)"
  unfolding find_or_create_def list.case_eq_if
  by (intro counted_steps counting counted.resp_for_each host_steps inspecting provider_calls)

lemma bound: "provider_respects R pv \<Longrightarrow> resp (pair_order R) (bound_resource pv lease :: ('z, _) counted)"
  unfolding bound_resource_def by (intro counted_steps host_steps inspecting)

lemma claiming: "reconciler_respects R rc \<Longrightarrow> resp (pair_order R) (claim_and_resume rc lease)"
  unfolding claim_and_resume_def by (intro counted_steps counting host_steps resume) (simp add: reconciler_respects_def)

lemma reconciling_provisioning:
  assumes "reconciler_respects R rc" shows "resp (pair_order R) (reconcileProvisioning rc lease)"
  unfolding reconcileProvisioning_def
  by (intro counted_steps bound finding claiming reconciler_provider [OF assms] assms)

lemma terminating_counted: "reconciler_respects R rc \<Longrightarrow> resp (pair_order R) (terminate_counted rc lease)"
  unfolding terminate_counted_def by (intro counted_steps counting terminating) (simp add: reconciler_respects_def)

lemma checking_resource:
  assumes "reconciler_respects R rc" shows "resp (pair_order R) (check_resource rc lease)"
  unfolding check_resource_def
  by (intro counted_steps counting host_steps inspecting reconciler_provider [OF assms] keeps_identity_fields) auto

lemma reconciling_lease:
  assumes "reconciler_respects R rc" shows "resp (pair_order R) (reconcileLease rc lease)"
  unfolding reconcileLease_def Let_def
  by (intro counted_steps counting host_steps kept_fields terminating_counted reconciling_provisioning checking_resource assms)

lemma reconciling_orphans:
  assumes "provider_respects R pv" shows "resp (pair_order R) (reconcileOrphans rc pv)"
  unfolding reconcileOrphans_def reconcile_orphan_def
  by (intro counted_steps counted.resp_for_each counting host_steps inspecting provider_calls assms)

lemma reconciling:
  assumes "reconciler_respects R rc" shows "resp R (reconcile rc)"
proof -
  have "provider_respects R pv" if "pv \<in> set (map snd (rc_providers rc))" for pv
    using that assms by (auto simp: reconciler_respects_def)
  then have "resp (pair_order R) (reconcile_pass rc)"
    unfolding reconcile_pass_def
    by (intro counted_steps counted.resp_for_each counting host_steps reconciling_lease reconciling_orphans assms) auto
  then have "pair_order R (w, no_counts) (snd (reconcile_pass rc (w, no_counts)))" for w
    by (simp add: resp_def)
  then show ?thesis
    by (auto simp: resp_def reconcile_def pair_order_def split: prod.split) (metis fst_conv snd_conv)
qed

end

section \<open>The lifecycle of leases\<close>






section \<open>The pass over orphans\<close>

text \<open>A lease names the resource; the pass must then leave the resource alone.\<close>

definition names_ref :: "sandbox_ref \<Rightarrow> sandbox_lease \<Rightarrow> bool" where
  "names_ref r l \<longleftrightarrow> sl_provider l = rf_provider r \<and> sl_externalId l = Some (rf_externalId r)"

definition bound_ref :: "sandbox_ref \<Rightarrow> ('z) world_scheme \<Rightarrow> bool" where
  "bound_ref r w \<longleftrightarrow> (\<exists>i \<in> set (w_sandboxIds w). \<exists>l. w_sandboxLeases w i = Some l \<and> names_ref r l)"

definition spares :: "sandbox_ref \<Rightarrow> ('y) fake_world_scheme \<Rightarrow> 'y fake_world_scheme \<Rightarrow> bool" where
  "spares r w w' \<longleftrightarrow> (bound_ref r w \<longrightarrow> bound_ref r w' \<and> fake_get r (w_fake w') = fake_get r (w_fake w))"

lemma bound_ref_found: "lease_find (names_ref r) w = None \<longleftrightarrow> \<not> bound_ref r w"
  by (auto simp: lease_find_def bound_ref_def find_None_iff split: option.splits)

lemma names_ref_updated [simp]:
  "names_ref r (l\<lparr>sl_state := s\<rparr>) = names_ref r l" "names_ref r (l\<lparr>sl_updatedAt := t\<rparr>) = names_ref r l"
  "names_ref r (l\<lparr>sl_lastHeartbeatAt := b\<rparr>) = names_ref r l"
  by (simp_all add: names_ref_def)

lemma spares_same:
  "w_sandboxLeases w' = w_sandboxLeases w \<Longrightarrow> w_sandboxIds w' = w_sandboxIds w \<Longrightarrow> w_fake w' = w_fake w \<Longrightarrow> spares r w w'"
  by (simp add: spares_def bound_ref_def)

lemma bound_ref_update:
  "w_sandboxLeases w i = Some l \<Longrightarrow> names_ref r l' = names_ref r l \<Longrightarrow>
     bound_ref r (w\<lparr>w_sandboxLeases := (w_sandboxLeases w)(i \<mapsto> l')\<rparr>) = bound_ref r w"
  by (auto simp: bound_ref_def) (metis option.inject)+

lemma bound_ref_env: "bound_ref r w \<Longrightarrow> bound_ref r (env_apply e w)"
proof (cases e)
  case (EnvSandboxCreate i l)
  then show "bound_ref r w \<Longrightarrow> ?thesis"
    by (auto simp: bound_ref_def split: option.split) (metis option.distinct(1))
next
  case (EnvSandboxState i st)
  then show "bound_ref r w \<Longrightarrow> ?thesis" by (auto simp: bound_ref_update split: option.split)
next
  case (EnvSandboxBeat i)
  then show "bound_ref r w \<Longrightarrow> ?thesis" by (auto simp: bound_ref_update split: option.split)
qed (auto simp: bound_ref_def split: option.split)

lemma fake_env: "w_fake (env_apply e w) = w_fake w"
  by (cases e) (auto split: option.split)

interpretation sparing: store_order "spares r :: ('y) fake_world_scheme \<Rightarrow> 'y fake_world_scheme \<Rightarrow> bool" for r
  by unfold_locales (auto simp: spares_def fake_env bound_ref_env, auto simp: bound_ref_def)

interpretation sparing_counted: effect_order "pair_order (spares r) ::
    'y fake_world_scheme \<times> reconcile_result \<Rightarrow> _ \<Rightarrow> bool" for r
  by (rule sparing.pairs)

lemma reads_spare: "resp (spares r) (fake_reads f)"
  by (simp add: resp_def fake_reads_def sparing.R_refl split: sum.split)

lemma destroy_spares:
  assumes "\<not> bound_ref r' w" "rf_provider r = ''fake''"
  shows "spares r w (snd (fake_destroy r' w))"
proof (cases "rf_provider r' = ''fake'' \<and> r' \<noteq> r")
  case True
  then have "refKey r' \<noteq> refKey r"
    using assms(2) by (cases r; cases r') (auto simp: refKey_def)
  then show ?thesis
    by (auto simp: fake_destroy_def fake_updates_def seq_def lift_result_def assertRef_def check_def fake_get_def fake_put_def
      spares_def bound_ref_def split: option.split prod.split sum.split)
next
  case False
  then show ?thesis
    using assms by (auto simp: fake_destroy_def fake_updates_def seq_def lift_result_def assertRef_def check_def spares_def
      split: option.split prod.split sum.split if_splits)
qed

lemma orphan_spares:
  assumes "rf_provider r = ''fake''"
  shows "resp (pair_order (spares r)) (reconcile_orphan rc fake_provider cutoff r' :: ('y fake_world_ext, unit) counted)"
proof -
  let ?K = "\<lambda>owner. if owner \<noteq> None then ret () else seq (call (pv_destroy fake_provider r')) (\<lambda>receipt.
      count_if (\<not> dr_pending receipt) (\<lambda>n. n\<lparr>rr_destroyedOrphans := rr_destroyedOrphans n + 1\<rparr>))"
  have inspect: "resp (spares r) (inspect_or_missing fake_provider r')"
    unfolding inspect_or_missing_def fake_provider_def sandbox_provider.simps fake_inspect_def
    by (intro sparing.resp_rules sparing.resp_seq sparing.resp_catch reads_spare)
  have inner: "resp (pair_order (spares r)) (seq (call (findByProviderRef (rf_provider r') (rf_externalId r'))) ?K ::
      ('y fake_world_ext, unit) counted)"
  proof (rule respI)
    fix s :: "'y fake_world_scheme \<times> reconcile_result" and q t
    have first: "pair_order (spares r) s u"
      if "call (findByProviderRef (rf_provider r') (rf_externalId r')) s = (x, u)" for x u
      using resp_call [OF sparing.resp_find_doc] that unfolding findByProviderRef_def by (rule respD)
    assume "seq (call (findByProviderRef (rf_provider r') (rf_externalId r'))) ?K s = (q, t)"
    then show "pair_order (spares r) s t"
    proof (cases rule: seq_elim)
      case (val owner u)
      have su: "pair_order (spares r) s u" using first val(1) .
      show ?thesis
      proof (cases owner)
        case None
        have "lease_find (names_ref r') (fst u) = None"
          using val(1) None by (auto simp: call_def findByProviderRef_def find_doc_def db_op_at_call reads_def names_ref_def [abs_def]
            split: prod.splits fault.splits)
        then have "\<not> bound_ref r' (fst u)" by (simp add: bound_ref_found)
        then have "spares r (fst u) (snd (fake_destroy r' (fst u)))" using destroy_spares assms by blast
        then have "pair_order (spares r) u t"
          using val(2) None by (auto simp: fake_provider_def call_def count_if_def change_def modify_def ret_def seq_def
            pair_order_def split: prod.splits sum.splits if_splits)
        then show ?thesis using su sparing_counted.R_trans by blast
      next
        case (Some d)
        then show ?thesis using val su by (simp add: ret_def)
      qed
    next
      case (exn e)
      then show ?thesis using first by blast
    qed
  qed
  show ?thesis
    unfolding reconcile_orphan_def
    by (rule sparing_counted.resp_seq, rule resp_call, rule inspect, rule sparing_counted.resp_if,
      rule sparing_counted.resp_ret, rule inner)
qed

text \<open>C31: The pass over orphans never touches a resource a lease names. If some lease is bound to a resource
  of the in-memory provider when the pass starts, then after the pass, whatever other processes did to the
  leases meanwhile and whichever database calls failed, a lease is still bound to it and the resource
  is unchanged.\<close>

theorem orphan_pass_spares_bound:
  assumes "reconcileOrphans rc fake_provider (w, n) = (res, (w', n'))" "bound_ref r w" "rf_provider r = ''fake''"
  shows "bound_ref r w' \<and> fake_get r (w_fake w') = fake_get r (w_fake w)"
proof -
  have "resp (pair_order (spares r)) (reconcileOrphans rc fake_provider)"
    unfolding reconcileOrphans_def
    by (intro sparing_counted.resp_seq sparing_counted.resp_for_each orphan_spares assms(3) resp_call sparing.resp_Date_now)
       (simp add: fake_provider_def fake_list_def reads_spare)
  from respD [OF this assms(1)] assms(2) show ?thesis by (simp add: pair_order_def spares_def)
qed

section \<open>Concrete inputs\<close>

definition demo_reconciler :: "unit fake_world_ext reconciler" where
  "demo_reconciler = \<lparr>rc_service = demo_options, rc_providers = sb_providers demo_options, rc_orphanGraceMs = 1000,
     rc_heartbeatTimeoutMs = 5000, rc_isValidId = (\<lambda>s. s \<noteq> []), rc_collate = collate_ascii\<rparr>"



text \<open>A second resource that no lease names is destroyed by the same pass.\<close>

definition demo_orphan_world :: "unit fake_world_scheme" where
  "demo_orphan_world = demo_fake_world\<lparr>w_now := 5000, w_fake := snd (fake_insert (demo_spec\<lparr>sp_labels :=
     [(''managed-by'', ''open-v0''), (''workspaceId'', ''ws''), (''projectId'', ''p''), (''branchId'', ''b''), (''purpose'', ''build'')]\<rparr>)
     (w_fake demo_fake_world))\<rparr>"

definition demo_ref :: "string \<Rightarrow> sandbox_ref" where
  "demo_ref x = \<lparr>rf_provider = ''fake'', rf_externalId = x\<rparr>"

lemma orphan_pass_spares_bound_witness:
  "\<exists>w' n'. reconcileOrphans demo_reconciler fake_provider (demo_orphan_world, no_counts) = (Inr (), (w', n')) \<and>
     fake_get (demo_ref ''fake-1'') (w_fake w') = fake_get (demo_ref ''fake-1'') (w_fake demo_orphan_world) \<and>
     map_option fr_status (fake_get (demo_ref ''fake-2'') (w_fake w')) = Some IMissing"
proof -
  let ?run = "reconcileOrphans demo_reconciler fake_provider (demo_orphan_world, no_counts)"
  have "fst ?run = Inr ()" by code_simp
  moreover have "map_option fr_status (fake_get (demo_ref ''fake-2'') (w_fake (fst (snd ?run)))) = Some IMissing" by code_simp
  moreover have "bound_ref (demo_ref ''fake-1'') demo_orphan_world"
    by (simp add: bound_ref_def demo_orphan_world_def demo_fake_world_def world.defs fake_world.defs names_ref_def demo_lease_def
      reservation_record_def demo_request_def demo_ref_def)
  moreover have "rf_provider (demo_ref ''fake-1'') = ''fake''" by (simp add: demo_ref_def)
  ultimately show ?thesis
    using orphan_pass_spares_bound [of demo_reconciler demo_orphan_world no_counts "fst ?run" "fst (snd ?run)" "snd (snd ?run)"]
    by (metis prod.collapse)
qed

end
