(* ===== verification/Styling.thy ===== *)
theory Styling
  imports Validation
begin

text \<open>
  Which styling systems a project uses, and the checks of each: \<open>agent/styling/resolveCapabilities.ts\<close>,
  \<open>registry.ts\<close> and \<open>tailwindAdapter.ts\<close>. The predicates on strings stand for the regular expressions;
  the collation order and \<open>JSON.parse\<close> are parameters.
\<close>

section \<open>Matching\<close>

fun somewhere :: "(string \<Rightarrow> bool) \<Rightarrow> string \<Rightarrow> bool" where
  "somewhere p [] = p []"
| "somewhere p (c # cs) = (p (c # cs) \<or> somewhere p cs)"

definition skip_spaces :: "string \<Rightarrow> string" where
  "skip_spaces s = dropWhile is_space s"

definition tailwind_directive_at :: "string \<Rightarrow> bool" where
  "tailwind_directive_at s \<longleftrightarrow> starts_with ''@tailwind'' s \<and>
     (let r = drop 9 s; n = skip_spaces r
      in n \<noteq> r \<and> list_ex (\<lambda>w. starts_with w n \<and> starts_with '';'' (skip_spaces (drop (length w) n)))
           [''base'', ''components'', ''utilities''])"

definition has_tailwind_directive :: "string \<Rightarrow> bool" where
  "has_tailwind_directive = somewhere tailwind_directive_at"

definition mentions_tailwind :: "string \<Rightarrow> bool" where
  "mentions_tailwind = somewhere (\<lambda>s. starts_with ''@tailwind'' s \<and> drop 9 s \<noteq> [] \<and> is_space (hd (drop 9 s)))"

definition is_quote :: "char \<Rightarrow> bool" where
  "is_quote c \<longleftrightarrow> c = CHR 0x22 \<or> c = CHR 0x27"

definition quoted_styled :: "string \<Rightarrow> bool" where
  "quoted_styled s \<longleftrightarrow> s \<noteq> [] \<and> is_quote (hd s) \<and> starts_with ''styled-components'' (tl s) \<and>
     (case drop 18 s of [] \<Rightarrow> False | c # _ \<Rightarrow> is_quote c)"

definition imports_styled :: "string \<Rightarrow> bool" where
  "imports_styled = somewhere (\<lambda>s.
     (starts_with ''from'' s \<and> (let r = drop 4 s in skip_spaces r \<noteq> r \<and> quoted_styled (skip_spaces r))) \<or>
     (starts_with ''require('' s \<and> quoted_styled (drop 8 s)))"

definition configNames :: "string list" where
  "configNames = [''tailwind.config.js'', ''tailwind.config.cjs'', ''tailwind.config.mjs'', ''tailwind.config.ts'']"

section \<open>agent/styling/resolveCapabilities.ts\<close>

record styling_resolution =
  sr_capabilities :: "styling_capability list"
  sr_evidence :: "(styling_capability, string list) jsmap"
  sr_issues :: "styling_issue list"

definition capabilityOrder :: "styling_capability list" where
  "capabilityOrder = [PlainCss, Tailwind, CssModules, StyledComponents]"

fun capability_text :: "styling_capability \<Rightarrow> string" where
  "capability_text PlainCss = ''plain-css''"
| "capability_text Tailwind = ''tailwind''"
| "capability_text CssModules = ''css-modules''"
| "capability_text StyledComponents = ''styled-components''"

fun truthy :: "json \<Rightarrow> bool" where
  "truthy JNull = False"
| "truthy (JBool b) = b"
| "truthy (JNum n) = (n \<noteq> 0)"
| "truthy (JReal l) = True"
| "truthy (JStr s) = (s \<noteq> [])"
| "truthy _ = True"

text \<open>The entry of one name in the merged dependency maps; an unreadable \<open>package.json\<close> has none.\<close>

definition packageMaps :: "(string \<Rightarrow> json option) \<Rightarrow> project_file list \<Rightarrow> string \<Rightarrow> json option" where
  "packageMaps parse files name = (case find (\<lambda>f. path f = ''package.json'') files of
     None \<Rightarrow> None
   | Some f \<Rightarrow> (case parse (content f) of
       None \<Rightarrow> None
     | Some v \<Rightarrow> (case member_of (member_of (Some v) ''devDependencies'') name of
         Some x \<Rightarrow> Some x | None \<Rightarrow> member_of (member_of (Some v) ''dependencies'') name)))"

definition addEvidence :: "styling_capability \<Rightarrow> string \<Rightarrow> (styling_capability, string list) jsmap \<Rightarrow>
    (styling_capability, string list) jsmap" where
  "addEvidence c d m = map_set c ((case map_of m c of None \<Rightarrow> [] | Some ds \<Rightarrow> ds) @ [d]) m"

definition add_if :: "bool \<Rightarrow> styling_capability \<Rightarrow> string \<Rightarrow> (styling_capability, string list) jsmap \<Rightarrow>
    (styling_capability, string list) jsmap" where
  "add_if b c d m = (if b then addEvidence c d m else m)"

definition file_evidence :: "project_file \<Rightarrow> (styling_capability, string list) jsmap \<Rightarrow>
    (styling_capability, string list) jsmap" where
  "file_evidence f m =
     add_if (imports_styled (content f)) StyledComponents (path f @ '' imports styled-components'')
    (add_if (path f \<in> set configNames) Tailwind (path f @ '' configures Tailwind'')
    (add_if (has_tailwind_directive (content f)) Tailwind (path f @ '' contains @tailwind directives'')
    (add_if (ends_with ''.module.css'' (path f)) CssModules (path f @ '' is a CSS Module'')
    (add_if (ends_with ''.css'' (path f)) PlainCss (path f @ '' is a CSS stylesheet'') m))))"

definition includes_package :: "(string \<Rightarrow> json option) \<Rightarrow> project_file list \<Rightarrow> string \<Rightarrow> bool" where
  "includes_package parse files name = (case packageMaps parse files name of None \<Rightarrow> False | Some v \<Rightarrow> truthy v)"

definition collect_evidence :: "(string \<Rightarrow> string \<Rightarrow> bool) \<Rightarrow> (string \<Rightarrow> json option) \<Rightarrow> project_file list \<Rightarrow>
    (styling_capability, string list) jsmap" where
  "collect_evidence collate parse files =
     add_if (includes_package parse files ''styled-components'') StyledComponents ''package.json includes styled-components''
    (add_if (includes_package parse files ''tailwindcss'') Tailwind ''package.json includes tailwindcss''
    (fold file_evidence (sort_by (\<lambda>a b. collate (path a) (path b)) files) []))"

definition has_evidence :: "(styling_capability, string list) jsmap \<Rightarrow> styling_capability \<Rightarrow> bool" where
  "has_evidence m c \<longleftrightarrow> (case map_of m c of None \<Rightarrow> False | Some ds \<Rightarrow> ds \<noteq> [])"

definition hint_issues :: "string option \<Rightarrow> styling_capability list \<Rightarrow> styling_issue list" where
  "hint_issues hint detected = (case hint of
     None \<Rightarrow> []
   | Some h \<Rightarrow> (case find (\<lambda>c. capability_text c = h) capabilityOrder of
       None \<Rightarrow> []
     | Some c \<Rightarrow>
         if c \<notin> set detected \<and> list_ex (\<lambda>d. d \<noteq> PlainCss) detected
         then [\<lparr>si_capability = c, si_code = METADATA_CONFLICT, si_phase = SourceContract,
                si_message = ''Project styling hint '' @ h @ '' conflicts with source evidence'', si_file = None,
                si_previewRecoverable = True\<rparr>]
         else []))"

definition resolveStylingCapabilities :: "(string \<Rightarrow> string \<Rightarrow> bool) \<Rightarrow> (string \<Rightarrow> json option) \<Rightarrow> project_file list \<Rightarrow>
    string option \<Rightarrow> styling_resolution" where
  "resolveStylingCapabilities collate parse files hint =
     (let evidence = collect_evidence collate parse files; found = filter (has_evidence evidence) capabilityOrder;
          evidence' = add_if (found = []) PlainCss ''plain CSS is the default styling capability'' evidence;
          detected = (if found = [] then [PlainCss] else found)
      in \<lparr>sr_capabilities = detected, sr_evidence = evidence', sr_issues = hint_issues hint detected\<rparr>)"

section \<open>agent/styling/tailwindAdapter.ts\<close>

definition tailwindVersions :: dep_map where
  "tailwindVersions = [(''tailwindcss'', ''^3.4.17''), (''postcss'', ''^8.4.49''), (''autoprefixer'', ''^10.4.20'')]"

definition createTailwindConfig :: string where
  "createTailwindConfig = ''/** @type {import('tailwindcss').Config} */'' @ [newline] @
     ''module.exports = {'' @ [newline] @
     ''  content: ['./index.html', './src/**/*.{js,ts,jsx,tsx}'],'' @ [newline] @
     ''  theme: { extend: {} },'' @ [newline] @ ''  plugins: []'' @ [newline] @ ''};'' @ [newline]"

definition createPostcssConfig :: string where
  "createPostcssConfig = ''module.exports = { plugins: { tailwindcss: {}, autoprefixer: {} } };'' @ [newline]"

definition tailwind_issue :: "styling_code \<Rightarrow> styling_phase \<Rightarrow> string \<Rightarrow> string option \<Rightarrow> bool \<Rightarrow> styling_issue" where
  "tailwind_issue code phase msg f recoverable = \<lparr>si_capability = Tailwind, si_code = code, si_phase = phase,
     si_message = msg, si_file = f, si_previewRecoverable = recoverable\<rparr>"

definition without_src :: "string \<Rightarrow> string" where
  "without_src p = (if starts_with ''src/'' p then drop 4 p else p)"

definition imports_stylesheet :: "project_file option \<Rightarrow> project_file list \<Rightarrow> bool" where
  "imports_stylesheet entry css = (case entry of None \<Rightarrow> False
     | Some e \<Rightarrow> list_ex (\<lambda>f. has_substring (''./'' @ without_src (path f)) (content e)) css)"

definition tailwind_validateSource :: "project_file list \<Rightarrow> styling_issue list" where
  "tailwind_validateSource files =
     (let hasTailwindConfig = list_ex (\<lambda>f. path f \<in> set configNames) files;
          hasPostcssConfig = list_ex (\<lambda>f. path f \<in> {''postcss.config.js'', ''postcss.config.cjs'', ''postcss.config.mjs''} \<and>
            has_substring ''tailwindcss'' (content f)) files;
          cssFiles = filter (\<lambda>f. mentions_tailwind (content f)) files;
          entry = find (\<lambda>f. path f = ''src/main.tsx'' \<or> path f = ''src/index.tsx'') files
      in (if \<not> hasTailwindConfig \<or> \<not> hasPostcssConfig
          then [tailwind_issue MISSING_CONFIGURATION SourceContract
                  ''Tailwind directives require Tailwind and PostCSS configuration'' None True] else []) @
         (if cssFiles \<noteq> [] \<and> \<not> imports_stylesheet entry cssFiles
          then [tailwind_issue MISSING_ENTRY_IMPORT SourceContract
                  ''The application entry does not import the Tailwind stylesheet'' (map_option path entry) False] else []))"

text \<open>\<open>tailwindUtilityPattern\<close>: variants ended by a colon, then the name of a utility and a hyphen.\<close>

definition utility_names :: "string list" where
  "utility_names = [''bg'', ''text'', ''font'', ''border'', ''rounded'', ''shadow'', ''opacity'', ''flex'', ''grid'', ''block'',
     ''inline'', ''hidden'', ''items'', ''justify'', ''content'', ''self'', ''place'', ''gap'', ''space-x'', ''space-y''] @
     ''p'' # map (\<lambda>c. [CHR ''p'', c]) ''trblxy'' @ ''m'' # map (\<lambda>c. [CHR ''m'', c]) ''trblxy'' @
     [''w'', ''min-w'', ''max-w'', ''h'', ''min-h'', ''max-h'', ''top'', ''right'', ''bottom'', ''left'', ''inset'', ''z'',
      ''overflow'', ''object'', ''cursor'', ''select'', ''transition'', ''duration'', ''ease'', ''animate'', ''scale'', ''rotate'',
      ''translate-x'', ''translate-y'', ''origin'']"

definition variant_char :: "char \<Rightarrow> bool" where
  "variant_char c \<longleftrightarrow> (let n = of_char c :: nat in 97 \<le> n \<and> n \<le> 122) \<or> c = CHR ''-''"

definition utility_at :: "string \<Rightarrow> bool" where
  "utility_at s \<longleftrightarrow> list_ex (\<lambda>w. starts_with (w @ ''-'') s) utility_names"

function is_utility :: "string \<Rightarrow> bool" where
  "is_utility s = (utility_at s \<or>
     (takeWhile variant_char s \<noteq> [] \<and> (case dropWhile variant_char s of [] \<Rightarrow> False
        | c # r \<Rightarrow> c = CHR '':'' \<and> is_utility r)))"
  by pat_completeness auto
termination
proof (relation "measure length")
  fix s :: string and c r assume "dropWhile variant_char s = c # r"
  then have "length (c # r) \<le> length s" by (metis length_dropWhile_le)
  then show "(r, s) \<in> measure length" by simp
qed simp

declare is_utility.simps [simp del]

definition css_special :: string where
  "css_special = ''!'' @ [CHR 0x22] @ ''#$%&'' @ [CHR 0x27] @ ''()*+,./:;<=>?@['' @ [backslash] @ '']^'' @ [CHR 0x60] @ ''{|}~''"

definition escapeCssClass :: "string \<Rightarrow> string" where
  "escapeCssClass name = concat (map (\<lambda>c. if c \<in> set css_special then [backslash, c] else [c]) name)"

text \<open>The values of the \<open>className\<close> attributes, from left to right.\<close>

definition class_value_at :: "string \<Rightarrow> (string \<times> string) option" where
  "class_value_at s =
     (if \<not> starts_with ''className='' s then None
      else (case drop 10 s of [] \<Rightarrow> None
        | q # r \<Rightarrow>
            let v = takeWhile (\<lambda>c. \<not> is_quote c) r; rest = dropWhile (\<lambda>c. \<not> is_quote c) r
            in if is_quote q \<and> v \<noteq> [] \<and> rest \<noteq> [] then Some (v, tl rest) else None))"

lemma class_value_shorter: "class_value_at s = Some (v, rest) \<Longrightarrow> length rest < length s"
proof -
  assume "class_value_at s = Some (v, rest)"
  then obtain q r where "drop 10 s = q # r" "rest = tl (dropWhile (\<lambda>c. \<not> is_quote c) r)"
    by (auto simp: class_value_at_def Let_def split: if_splits list.splits)
  moreover have "length (tl (dropWhile (\<lambda>c. \<not> is_quote c) r)) \<le> length r"
    by (metis length_dropWhile_le length_tl diff_le_self order_trans)
  moreover have "length (drop 10 s) \<le> length s" by simp
  ultimately show ?thesis by (metis length_Cons less_eq_Suc_le order_trans not_less_eq_eq)
qed

function class_values :: "string \<Rightarrow> string list" where
  "class_values [] = []"
| "class_values (c # s) = (case class_value_at (c # s) of
     Some (v, rest) \<Rightarrow> v # class_values rest | None \<Rightarrow> class_values s)"
  by pat_completeness auto
termination
  by (relation "measure length") (auto dest: class_value_shorter)

text \<open>\<open>split(/\s+/)\<close>.\<close>

function split_spaces :: "string \<Rightarrow> string list" where
  "split_spaces s = (let w = takeWhile (\<lambda>c. \<not> is_space c) s; r = dropWhile (\<lambda>c. \<not> is_space c) s
     in if r = [] then [w] else w # split_spaces (skip_spaces r))"
  by pat_completeness auto
termination
proof (relation "measure length")
  fix s w r assume r: "r = dropWhile (\<lambda>c. \<not> is_space c) s" "r \<noteq> []"
  then have "is_space (hd r)" by (metis hd_dropWhile)
  then have "length (skip_spaces r) < length r" using r(2)
    by (cases r) (auto simp: skip_spaces_def le_imp_less_Suc length_dropWhile_le)
  also have "length r \<le> length s" using r(1) by (simp add: length_dropWhile_le)
  finally show "(skip_spaces r, s) \<in> measure length" by simp
qed simp

declare split_spaces.simps [simp del]

definition used_classes :: "project_file list \<Rightarrow> string list" where
  "used_classes files = concat (map (\<lambda>f. filter is_utility (concat (map split_spaces (class_values (content f))))) files)"

definition tailwind_validateBuild :: "project_file list \<Rightarrow> string list \<Rightarrow> styling_issue list" where
  "tailwind_validateBuild files cssAssets =
     (if cssAssets = []
      then [tailwind_issue MISSING_BUILD_OUTPUT BuildEvidence ''The production build emitted no CSS assets'' None False]
      else let css = join_with [newline] cssAssets
        in if has_tailwind_directive css
           then [tailwind_issue UNEXPANDED_DIRECTIVE BuildEvidence
                   ''The emitted CSS still contains unexpanded Tailwind directives'' None False]
           else (case find (\<lambda>name. \<not> has_substring (''.'' @ escapeCssClass name) css) (used_classes files) of
               None \<Rightarrow> []
             | Some name \<Rightarrow> [tailwind_issue MISSING_BUILD_OUTPUT BuildEvidence
                 (''Tailwind utility '' @ name @ '' was not emitted'') None False]))"

definition previewCompatibility :: "project_file list \<Rightarrow> (string, string) jsmap \<times> dep_map" where
  "previewCompatibility files =
     ((if list_ex (\<lambda>f. path f = ''tailwind.config.js'') files then [] else [(''tailwind.config.js'', createTailwindConfig)]) @
      (if list_ex (\<lambda>f. starts_with ''postcss.config.'' (path f)) files then [] else [(''postcss.config.cjs'', createPostcssConfig)]),
      tailwindVersions)"

section \<open>agent/styling/registry.ts\<close>

record styling_adapter =
  sa_capability :: styling_capability
  sa_validateSource :: "project_file list \<Rightarrow> styling_issue list"

definition passiveAdapter :: "styling_capability \<Rightarrow> styling_adapter" where
  "passiveAdapter c = \<lparr>sa_capability = c, sa_validateSource = (\<lambda>_. [])\<rparr>"

definition tailwindAdapter :: styling_adapter where
  "tailwindAdapter = \<lparr>sa_capability = Tailwind, sa_validateSource = tailwind_validateSource\<rparr>"

definition styling_registry :: "(styling_capability, styling_adapter) jsmap" where
  "styling_registry = [(PlainCss, passiveAdapter PlainCss), (Tailwind, tailwindAdapter), (CssModules, passiveAdapter CssModules),
     (StyledComponents, passiveAdapter StyledComponents)]"

definition adaptersFor :: "styling_resolution \<Rightarrow> styling_adapter list" where
  "adaptersFor r = List.map_filter (map_of styling_registry) (sr_capabilities r)"

end
