(* ===== verification/SandboxValidator.thy ===== *)
theory SandboxValidator
  imports SandboxService Styling
begin

text \<open>
  The project validator that builds in a sandbox: \<open>agent/sandboxValidator.ts\<close>. The list of checks, the
  lease and the current phase outlive the exceptions of the body, so they are the second part of the
  state. \<open>localeCompare\<close> is a parameter.
\<close>

record 'z validator_options =
  vo_service :: "'z sandbox_options"
  vo_artifacts :: artifact_service
  vo_provider :: string
  vo_image :: string
  vo_resources :: resource_profile
  vo_verification :: verification
  vo_collate :: "string \<Rightarrow> string \<Rightarrow> bool"

record validation_run =
  vr_checks :: "check_result list"
  vr_lease :: "lease_doc option"
  vr_phase :: validation_phase

type_synonym ('z, 'a) validating = "('z world_scheme \<times> validation_run, js_error, 'a) comp"

section \<open>Projections\<close>

fun command_name :: "build_command_name \<Rightarrow> check_name" where
  "command_name CmdInstall = NInstall"
| "command_name CmdTypeCheck = NTypeCheck"
| "command_name CmdBuild = NBuild"

fun command_phase :: "build_command_name \<Rightarrow> validation_phase" where
  "command_phase CmdInstall = PhDependencies"
| "command_phase CmdTypeCheck = PhTypeCheck"
| "command_phase CmdBuild = PhBuild"

fun command_line :: "build_command_name \<Rightarrow> string" where
  "command_line CmdInstall = ''npm install''"
| "command_line CmdTypeCheck = ''npm run type-check''"
| "command_line CmdBuild = ''npm run build''"

fun phase_name :: "validation_phase \<Rightarrow> check_name" where
  "phase_name PhStructure = NStructure"
| "phase_name PhDependencies = NInstall"
| "phase_name PhTypeCheck = NTypeCheck"
| "phase_name PhBuild = NBuild"

definition packageJsonFrom :: "project_file list \<Rightarrow> js_error + json" where
  "packageJsonFrom files = (case find (\<lambda>f. path f = ''package.json'') files of
     None \<Rightarrow> Inl (plain_error ''package.json is required for Sandbox validation'')
   | Some f \<Rightarrow> (case JSON_parse (content f) of
       None \<Rightarrow> Inl (plain_error ''Unexpected token in JSON'')
     | Some v \<Rightarrow>
         (case (member_of (Some v) ''dependencies'', member_of (Some v) ''devDependencies'', member_of (Some v) ''scripts'') of
            (Some d, Some e, Some s) \<Rightarrow>
              if truthy d \<and> truthy e \<and> truthy s
              then Inr (JObj [(''dependencies'', d), (''devDependencies'', e), (''scripts'', s)])
              else Inl (plain_error ''package.json is incomplete for Sandbox validation'')
          | _ \<Rightarrow> Inl (plain_error ''package.json is incomplete for Sandbox validation''))))"

definition candidate_json :: "project_file list \<Rightarrow> json \<Rightarrow> json" where
  "candidate_json files pkg = JObj [(''version'', JNum 1), (''files'', JArr (map file_json files)), (''packageJson'', pkg)]"

definition ownershipFor :: "sandbox_scope \<Rightarrow> sandbox_ownership" where
  "ownershipFor s = \<lparr>so_workspaceId = sc_workspaceId s, so_projectId = sc_projectId s, so_branchId = sc_branchId s,
     so_runId = Some (sc_runId s), so_snapshotId = None, so_purpose = BuildSandbox\<rparr>"

definition cache_of :: "validation_phase \<Rightarrow> cache_state" where
  "cache_of p = (if p = PhDependencies then CacheMiss else CacheNotApplicable)"

section \<open>Checks and results\<close>

definition push_check :: "check_result \<Rightarrow> ('z, unit) validating" where
  "push_check c = change (\<lambda>v. v\<lparr>vr_checks := vr_checks v @ [c]\<rparr>)"

definition failed_result :: "'z validator_options \<Rightarrow> error_category option \<Rightarrow> bool \<Rightarrow> ('z, validation_result) validating" where
  "failed_result vo category retryable =
     seq (reads (\<lambda>(w, v). vr_checks v)) (\<lambda>checks.
     ret \<lparr>v_status = VFailed, v_verification = Some (vo_verification vo), v_previewArtifactId = None, v_checks = checks,
       v_category = category, v_retryable = Some retryable\<rparr>)"

definition infrastructureResult :: "'z validator_options \<Rightarrow> validation_phase \<Rightarrow> js_error \<Rightarrow> ('z, validation_result) validating" where
  "infrastructureResult vo phase e =
     seq (push_check \<lparr>ck_name = phase_name phase, ck_phase = Some phase, ck_status = Some CsFailed,
       ck_category = Some INFRA_ERROR, ck_command = None, ck_exitCode = None, ck_stdout = [], ck_stderr = err_message e,
       ck_durationMs = 0, ck_cache = Some (cache_of phase), ck_attempt = Some 0, ck_stylingIssues = None\<rparr>) (\<lambda>_.
     failed_result vo (Some INFRA_ERROR) (if isSandboxError e then err_retryable e else True))"

definition structure_text :: "structure_result \<Rightarrow> string \<times> string" where
  "structure_text s = (case s of StructurePassed \<Rightarrow> (''Project structure is valid'', []) | StructureFailed c m \<Rightarrow> ([], m))"

definition structure_category :: "structure_result \<Rightarrow> error_category option" where
  "structure_category s = (case s of StructurePassed \<Rightarrow> None | StructureFailed c m \<Rightarrow> Some c)"

definition progress_of :: "validation_phase \<Rightarrow> check_status \<Rightarrow> error_category option \<Rightarrow> cache_state \<Rightarrow>
    styling_issue list option \<Rightarrow> string \<Rightarrow> validation_progress" where
  "progress_of phase status category cache issues msg = \<lparr>vp_phase = phase, vp_status = Some status,
     vp_category = category, vp_attempt = 0, vp_retryDelayMs = None, vp_cache = Some cache, vp_stylingIssues = issues,
     vp_message = msg\<rparr>"

definition failure_progress :: "validation_phase \<Rightarrow> string \<Rightarrow> validation_progress" where
  "failure_progress phase msg = progress_of phase CsFailed (Some INFRA_ERROR) (cache_of phase) None msg"

definition current_phase :: "('z, validation_phase) validating" where
  "current_phase = reads (\<lambda>(w, v). vr_phase v)"

section \<open>The build\<close>

definition command_check :: "build_command_name \<Rightarrow> command_result \<Rightarrow> error_category option \<Rightarrow> check_result" where
  "command_check c r category = \<lparr>ck_name = command_name c, ck_phase = Some (command_phase c),
     ck_status = Some (if cr_exitCode r = Some 0 then CsPassed else CsFailed), ck_category = category,
     ck_command = Some (command_line c), ck_exitCode = cr_exitCode r, ck_stdout = cr_stdout r, ck_stderr = cr_stderr r,
     ck_durationMs = cr_durationMs r, ck_cache = Some (if c = CmdInstall then CacheMiss else CacheNotApplicable),
     ck_attempt = Some 0, ck_stylingIssues = None\<rparr>"

definition command_category :: "build_command_name \<Rightarrow> command_result \<Rightarrow> error_category option" where
  "command_category c r = (if cr_exitCode r = Some 0 then None
     else Some (classifyValidationFailure \<lparr>fd_phase = command_phase c, fd_exitCode = cr_exitCode r,
       fd_stdout = cr_stdout r, fd_stderr = cr_stderr r\<rparr>))"

definition command_progress :: "build_command_name \<Rightarrow> command_result \<Rightarrow> validation_progress" where
  "command_progress c r = progress_of (command_phase c) (if cr_exitCode r = Some 0 then CsPassed else CsFailed)
     (command_category c r) (if c = CmdInstall then CacheMiss else CacheNotApplicable) None
     (if cr_exitCode r = Some 0 then check_name_text (command_name c) @ '' passed''
      else if cr_stderr r \<noteq> [] then cr_stderr r else check_name_text (command_name c) @ '' failed'')"

text \<open>The loop over the commands answers with the result of the first one that fails.\<close>

fun run_commands :: "'z validator_options \<Rightarrow> (validation_progress \<Rightarrow> ('z world_scheme, js_error, unit) comp) \<Rightarrow>
    object_id \<Rightarrow> sandbox_ownership \<Rightarrow> build_command_name list \<Rightarrow> ('z, validation_result option) validating" where
  "run_commands vo progress i ownership [] = ret None"
| "run_commands vo progress i ownership (c # cs) =
     seq (call throwIfAborted) (\<lambda>_.
     seq (change (\<lambda>v. v\<lparr>vr_phase := command_phase c\<rparr>)) (\<lambda>_.
     seq (call (runBuildCommand (vo_service vo) i ownership c True)) (\<lambda>r.
     seq (push_check (command_check c r (command_category c r))) (\<lambda>_.
     seq (call (progress (command_progress c r))) (\<lambda>_.
     if command_category c r \<noteq> None
     then seq (failed_result vo (command_category c r) (command_category c r = Some INFRA_ERROR)) (\<lambda>x. ret (Some x))
     else run_commands vo progress i ownership cs)))))"

definition write_candidate :: "'z validator_options \<Rightarrow> sandbox_scope \<Rightarrow> project_file list \<Rightarrow>
    ('z world_scheme, js_error, string) comp" where
  "write_candidate vo s files =
     seq (lift_result (packageJsonFrom files)) (\<lambda>pkg.
     seq (lift_result (encode_project_json (as_codec (vo_artifacts vo)) (candidate_json files pkg) (as_limits (vo_artifacts vo))))
       (writeEncoded (vo_artifacts vo) \<lparr>aw_workspaceId = sc_workspaceId s, aw_projectId = sc_projectId s,
          aw_createdByRunId = sc_runId s, aw_kind = KValidationCandidate,
          aw_idempotencyKey = ''sandbox-validation:'' @ sc_runId s @ '':'' @ show_nat (sc_attempt s)\<rparr>))"

definition write_preview :: "'z validator_options \<Rightarrow> sandbox_scope \<Rightarrow> preview_bundle \<Rightarrow>
    ('z world_scheme, js_error, string) comp" where
  "write_preview vo s b = service_writePreviewBundle (vo_artifacts vo) \<lparr>aw_workspaceId = sc_workspaceId s,
     aw_projectId = sc_projectId s, aw_createdByRunId = sc_runId s, aw_kind = KPreviewBuild,
     aw_idempotencyKey = ''sandbox-preview:'' @ sc_runId s @ '':'' @ show_nat (sc_attempt s)\<rparr> b"

definition sandbox_input :: "'z validator_options \<Rightarrow> sandbox_scope \<Rightarrow> string \<Rightarrow> build_input" where
  "sandbox_input vo s artifact = \<lparr>bi_workspaceId = sc_workspaceId s, bi_projectId = sc_projectId s,
     bi_branchId = sc_branchId s, bi_requestedByUserId = sc_requestedByUserId s, bi_runId = sc_runId s,
     bi_sourceArtifact = (artifact, SourceCandidate), bi_provider = vo_provider vo, bi_image = vo_image vo,
     bi_attempt = sc_attempt s, bi_resources = vo_resources vo\<rparr>"

definition export_preview :: "'z validator_options \<Rightarrow> sandbox_scope \<Rightarrow> object_id \<Rightarrow> ('z, string option) validating" where
  "export_preview vo s i =
     (if vo_verification vo \<noteq> Verified then ret None
      else seq (call throwIfAborted) (\<lambda>_.
           seq (change (\<lambda>v. v\<lparr>vr_phase := PhBuild\<rparr>)) (\<lambda>_.
           seq (call (exportBuildOutput (vo_service vo) i (ownershipFor s))) (\<lambda>b.
           seq (call (write_preview vo s b)) (\<lambda>a. ret (Some a))))))"

definition build_in_sandbox :: "'z validator_options \<Rightarrow> (validation_progress \<Rightarrow> ('z world_scheme, js_error, unit) comp) \<Rightarrow>
    sandbox_scope \<Rightarrow> project_file list \<Rightarrow> ('z, validation_result) validating" where
  "build_in_sandbox vo progress s files =
     seq (call throwIfAborted) (\<lambda>_.
     seq (call (write_candidate vo s files)) (\<lambda>artifact.
     seq (call (createBuildSandbox (vo_service vo) (sandbox_input vo s artifact))) (\<lambda>lease.
     seq (change (\<lambda>v. v\<lparr>vr_lease := Some lease\<rparr>)) (\<lambda>_.
     seq (run_commands vo progress (fst lease) (ownershipFor s) [CmdInstall, CmdTypeCheck, CmdBuild]) (\<lambda>failed.
     case failed of
       Some x \<Rightarrow> ret x
     | None \<Rightarrow>
         seq (export_preview vo s (fst lease)) (\<lambda>preview.
         seq (reads (\<lambda>(w, v). vr_checks v)) (\<lambda>checks.
         ret \<lparr>v_status = VPassed, v_verification = Some (vo_verification vo), v_previewArtifactId = preview,
           v_checks = checks, v_category = None, v_retryable = None\<rparr>)))))))"

section \<open>The validator\<close>

text \<open>The outcome of the body: \<open>Inl\<close> the reason of a cancellation, \<open>Inr\<close> a result.\<close>

definition try_build :: "'z validator_options \<Rightarrow> (validation_progress \<Rightarrow> ('z world_scheme, js_error, unit) comp) \<Rightarrow>
    sandbox_scope \<Rightarrow> project_file list \<Rightarrow> ('z, js_error + validation_result) validating" where
  "try_build vo progress s files =
     catch (seq (build_in_sandbox vo progress s files) (\<lambda>x. ret (Inr x))) (\<lambda>e.
       seq (call (reads w_aborted)) (\<lambda>aborted.
       if aborted then ret (Inl runCancelledError)
       else seq current_phase (\<lambda>phase.
            seq (infrastructureResult vo phase e) (\<lambda>x.
            seq (call (progress (failure_progress phase (err_message e)))) (\<lambda>_. ret (Inr x))))))"

definition clean_up :: "'z validator_options \<Rightarrow> (validation_progress \<Rightarrow> ('z world_scheme, js_error, unit) comp) \<Rightarrow>
    sandbox_scope \<Rightarrow> js_error + validation_result \<Rightarrow> ('z, js_error + validation_result) validating" where
  "clean_up vo progress s outcome =
     seq (reads (\<lambda>(w, v). vr_lease v)) (\<lambda>lease.
     case lease of
       None \<Rightarrow> ret outcome
     | Some d \<Rightarrow>
         catch (seq (call (terminate (vo_service vo) (fst d) (ownershipFor s))) (\<lambda>_. ret outcome)) (\<lambda>e.
           case outcome of
             Inl _ \<Rightarrow> ret outcome
           | Inr _ \<Rightarrow>
               seq current_phase (\<lambda>phase.
               seq (infrastructureResult vo phase e) (\<lambda>x.
               seq (call (progress (failure_progress phase (''Sandbox cleanup failed: '' @ err_message e)))) (\<lambda>_.
               ret (Inr x))))))"

definition styling_issues :: "'z validator_options \<Rightarrow> project_file list \<Rightarrow> styling_issue list" where
  "styling_issues vo files = concat (map (\<lambda>a. sa_validateSource a files)
     (adaptersFor (resolveStylingCapabilities (vo_collate vo) JSON_parse files None)))"

definition structure_check :: "int \<Rightarrow> structure_result \<Rightarrow> check_result" where
  "structure_check ms s = \<lparr>ck_name = NStructure, ck_phase = Some PhStructure,
     ck_status = Some (if s = StructurePassed then CsPassed else CsFailed), ck_category = structure_category s,
     ck_command = None, ck_exitCode = None, ck_stdout = fst (structure_text s), ck_stderr = snd (structure_text s),
     ck_durationMs = ms, ck_cache = Some CacheNotApplicable, ck_attempt = Some 0, ck_stylingIssues = None\<rparr>"

definition styling_check :: "styling_issue list \<Rightarrow> check_result" where
  "styling_check issues = \<lparr>ck_name = NStructure, ck_phase = Some PhStructure, ck_status = Some CsFailed,
     ck_category = Some STYLING_CONFIGURATION_ERROR, ck_command = None, ck_exitCode = None, ck_stdout = [],
     ck_stderr = join_with [newline] (map si_message issues), ck_durationMs = 0, ck_cache = Some CacheNotApplicable,
     ck_attempt = Some 0, ck_stylingIssues = Some issues\<rparr>"

definition validate_body :: "'z validator_options \<Rightarrow> validate_input \<Rightarrow>
    (validation_progress \<Rightarrow> ('z world_scheme, js_error, unit) comp) \<Rightarrow> ('z, validation_result) validating" where
  "validate_body vo input progress =
     seq (call throwIfAborted) (\<lambda>_.
     seq (call Date_now) (\<lambda>started.
     seq (lift_result (validateProjectStructure JSON_parse (vi_files input))) (\<lambda>structure.
     seq (call Date_now) (\<lambda>ended.
     seq (push_check (structure_check (ended - started) structure)) (\<lambda>_.
     seq (call (progress (progress_of PhStructure (if structure = StructurePassed then CsPassed else CsFailed)
       (structure_category structure) CacheNotApplicable None
       (if structure = StructurePassed then ''Project structure checked'' else snd (structure_text structure))))) (\<lambda>_.
     if structure \<noteq> StructurePassed then failed_result vo (structure_category structure) False
     else let issues = styling_issues vo (vi_files input) in
       if issues \<noteq> []
       then seq (push_check (styling_check issues)) (\<lambda>_.
            seq (call (progress (progress_of PhStructure CsFailed (Some STYLING_CONFIGURATION_ERROR) CacheNotApplicable
              (Some issues) (join_with [newline] (map si_message issues))))) (\<lambda>_.
            failed_result vo (Some STYLING_CONFIGURATION_ERROR) False))
       else (case vi_sandboxScope input of
           None \<Rightarrow> infrastructureResult vo PhStructure (plain_error ''Sandbox validation ownership scope is required'')
         | Some s \<Rightarrow>
             seq (try_build vo progress s (vi_files input)) (\<lambda>outcome.
             seq (clean_up vo progress s outcome) lift_result))))))))"

definition sandbox_validate :: "'z validator_options \<Rightarrow> 'z world_scheme validator" where
  "sandbox_validate vo input progress = (\<lambda>w.
     case validate_body vo input progress (w, \<lparr>vr_checks = [], vr_lease = None, vr_phase = PhDependencies\<rparr>) of
       (r, (w', v)) \<Rightarrow> (r, w'))"

section \<open>Relations the validator respects\<close>

sublocale sandbox_host \<subseteq> validating: effect_order "pair_order R :: 'z world_scheme \<times> validation_run \<Rightarrow> _ \<Rightarrow> bool"
  by (rule pairs)

context sandbox_host
begin

lemmas validating_steps = validating.resp_rules validating.resp_seq validating.resp_catch resp_call resp_change

lemma results:
  "resp (pair_order R) (push_check c :: ('z, _) validating)" "resp (pair_order R) (failed_result vo g b)"
  "resp (pair_order R) (infrastructureResult vo ph e)" "resp (pair_order R) (current_phase :: ('z, _) validating)"
  unfolding infrastructureResult_def push_check_def failed_result_def current_phase_def
  by (intro validating_steps)+

lemma cancelling: "resp R throwIfAborted"
  unfolding throwIfAborted_def by (intro host_steps)

lemma commands:
  assumes "providers_respect R (vo_service vo)" "\<And>x. resp R (progress x)"
  shows "resp (pair_order R) (run_commands vo progress i own cs)"
  by (induction cs) (auto intro!: validating_steps results cancelling build_command assms)

lemma storing: "resp R (write_candidate vo s files)" "resp R (write_preview vo s b)"
  unfolding write_candidate_def write_preview_def by (intro host_steps writing)+

lemma building:
  assumes "providers_respect R (vo_service vo)" "\<And>x. resp R (progress x)"
  shows "resp (pair_order R) (build_in_sandbox vo progress s files)"
  unfolding build_in_sandbox_def export_preview_def
  by (intro validating_steps cancelling storing create_build commands export_output assms)

lemma validates:
  assumes "providers_respect R (vo_service vo)" "\<And>x. resp R (progress x)"
  shows "resp R (sandbox_validate vo input progress)"
proof -
  have "resp (pair_order R) (validate_body vo input progress)"
    unfolding validate_body_def try_build_def clean_up_def
    by (intro validating_steps resp_let host_steps cancelling results building terminating assms)
  then show ?thesis
    by (auto simp: resp_def sandbox_validate_def pair_order_def split: prod.split) (metis fst_conv snd_conv)
qed

end

section \<open>What a passed validation means\<close>

text \<open>\<open>post v m Q\<close>: if \<open>m\<close> answers from the record \<open>v\<close>, the answer and the record then satisfy \<open>Q\<close>.\<close>

definition post :: "validation_run \<Rightarrow> ('z, 'a) validating \<Rightarrow> ('a \<Rightarrow> validation_run \<Rightarrow> bool) \<Rightarrow> bool" where
  "post v m Q \<longleftrightarrow> (\<forall>w a t. m (w, v) = (Inr a, t) \<longrightarrow> Q a (snd t))"

lemma post_seq: "post v m (\<lambda>a v'. post v' (k a) Q) \<Longrightarrow> post v (seq m k) Q"
  unfolding post_def by (auto elim!: seq_elim)

lemma post_catch: "post v m Q \<Longrightarrow> (\<And>e v'. post v' (h e) Q) \<Longrightarrow> post v (catch m h) Q"
  unfolding post_def by (auto elim!: catch_elim)

lemma post_ret: "Q a v \<Longrightarrow> post v (ret a) Q"
  by (auto simp: post_def ret_def)

lemma post_throw: "post v (throw e) Q"
  by (auto simp: post_def throw_def)

lemma post_change: "Q () (f v) \<Longrightarrow> post v (change f) Q"
  by (auto simp: post_def change_def modify_def)

lemma post_call: "(\<And>a. Q a v) \<Longrightarrow> post v (call m) Q"
  by (auto simp: post_def call_def split: prod.splits)

lemma post_lift: "(\<And>a. r = Inr a \<Longrightarrow> Q a v) \<Longrightarrow> post v (lift_result r) Q"
  by (auto simp: post_def lift_result_def)

lemma post_reads: "(\<And>w. Q (f (w, v)) v) \<Longrightarrow> post v (reads f) Q"
  by (auto simp: post_def reads_def)

lemma post_if: "(b \<Longrightarrow> post v m Q) \<Longrightarrow> (\<not> b \<Longrightarrow> post v n Q) \<Longrightarrow> post v (if b then m else n) Q"
  by simp

lemma post_option:
  "(x = None \<Longrightarrow> post v m Q) \<Longrightarrow> (\<And>y. x = Some y \<Longrightarrow> post v (k y) Q) \<Longrightarrow> post v (case x of None \<Rightarrow> m | Some y \<Rightarrow> k y) Q"
  by (cases x) auto

lemma post_weaken: "post v m P \<Longrightarrow> (\<And>a v'. P a v' \<Longrightarrow> Q a v') \<Longrightarrow> post v m Q"
  by (auto simp: post_def)

lemmas post_rules = post_ret post_throw post_change post_call post_lift post_reads post_seq post_if post_option

lemma failing_result: "post v (failed_result vo g b) (\<lambda>x v'. v_status x \<noteq> VPassed)"
  "post v (infrastructureResult vo ph e) (\<lambda>x v'. v_status x \<noteq> VPassed)"
  unfolding infrastructureResult_def failed_result_def push_check_def by (auto intro!: post_rules)

definition passing :: "build_command_name list \<Rightarrow> check_result list \<Rightarrow> bool" where
  "passing cs ks \<longleftrightarrow> map ck_name ks = map command_name cs \<and>
     list_all (\<lambda>k. ck_status k = Some CsPassed \<and> ck_exitCode k = Some 0 \<and> ck_category k = None) ks"

lemma commands_pass:
  "post v (run_commands vo progress i own cs) (\<lambda>r v'. case r of
     None \<Rightarrow> \<exists>ks. passing cs ks \<and> vr_checks v' = vr_checks v @ ks
   | Some x \<Rightarrow> v_status x \<noteq> VPassed)"
proof (induction cs arbitrary: v)
  case Nil
  then show ?case by (auto intro!: post_rules simp: passing_def)
next
  case (Cons c cs)
  show ?case
    unfolding run_commands.simps push_check_def
  proof (intro post_rules)
    fix a r b assume none: "\<not> command_category c r \<noteq> None"
    then have "passing [c] [command_check c r (command_category c r)]"
      by (auto simp: passing_def command_check_def command_category_def split: if_splits)
    then show "post (v\<lparr>vr_phase := command_phase c, vr_checks := vr_checks (v\<lparr>vr_phase := command_phase c\<rparr>) @
        [command_check c r (command_category c r)]\<rparr>) (run_commands vo progress i own cs)
        (\<lambda>r v'. case r of None \<Rightarrow> \<exists>ks. passing (c # cs) ks \<and> vr_checks v' = vr_checks v @ ks | Some x \<Rightarrow> v_status x \<noteq> VPassed)"
      by (intro post_weaken [OF Cons.IH]) (auto simp: passing_def split: option.splits)
  qed (auto intro!: post_weaken [OF failing_result(1)] post_rules)
qed

definition passed_result :: "'z validator_options \<Rightarrow> check_result list \<Rightarrow> validation_result \<Rightarrow> bool" where
  "passed_result vo earlier x \<longleftrightarrow> v_verification x = Some (vo_verification vo) \<and> v_category x = None \<and>
     (v_previewArtifactId x \<noteq> None \<longleftrightarrow> vo_verification vo = Verified) \<and>
     (\<exists>ks. passing [CmdInstall, CmdTypeCheck, CmdBuild] ks \<and> v_checks x = earlier @ ks)"

definition sound_outcome :: "'z validator_options \<Rightarrow> check_result list \<Rightarrow> js_error + validation_result \<Rightarrow> bool" where
  "sound_outcome vo earlier out \<longleftrightarrow> (case out of Inl _ \<Rightarrow> True | Inr x \<Rightarrow> v_status x = VPassed \<longrightarrow> passed_result vo earlier x)"

lemma preview_post:
  "post v (export_preview vo s i) (\<lambda>p v'. vr_checks v' = vr_checks v \<and> (p \<noteq> None \<longleftrightarrow> vo_verification vo = Verified))"
  unfolding export_preview_def by (auto intro!: post_rules)

lemma build_post:
  "post v (build_in_sandbox vo progress s files) (\<lambda>x v'. v_status x = VPassed \<longrightarrow> passed_result vo (vr_checks v) x)"
  unfolding build_in_sandbox_def
  by (intro post_seq post_call post_change post_weaken [OF commands_pass])
    (auto intro!: post_option post_ret post_seq post_reads post_weaken [OF preview_post] simp: passed_result_def)

lemma outcome_failed: "v_status x \<noteq> VPassed \<Longrightarrow> sound_outcome vo ks (Inr x)"
  by (simp add: sound_outcome_def)

lemma try_build_post: "post v (try_build vo progress s files) (\<lambda>out v'. sound_outcome vo (vr_checks v) out)"
  unfolding try_build_def current_phase_def
  by (intro post_catch post_seq post_weaken [OF build_post] post_call post_if post_ret post_reads post_weaken [OF failing_result(2)])
    (auto simp: sound_outcome_def)

lemma clean_up_post: "sound_outcome vo ks out \<Longrightarrow> post v (clean_up vo progress s out) (\<lambda>out v'. sound_outcome vo ks out)"
  unfolding clean_up_def current_phase_def
  by (auto intro!: post_catch post_seq post_call post_option post_ret post_reads post_weaken [OF failing_result(2)] outcome_failed
    split: sum.split)

lemma body_post:
  "post v (validate_body vo input progress) (\<lambda>x v'. v_status x = VPassed \<longrightarrow>
     validateProjectStructure JSON_parse (vi_files input) = Inr StructurePassed \<and> styling_issues vo (vi_files input) = [] \<and>
     (\<exists>ms. passed_result vo (vr_checks v @ [structure_check ms StructurePassed]) x))"
proof -
  have failed: "post u (failed_result vo g b) (\<lambda>x v'. v_status x = VPassed \<longrightarrow> P x)"
    "post u (infrastructureResult vo ph e) (\<lambda>x v'. v_status x = VPassed \<longrightarrow> P x)" for u g b ph e P
    by (rule post_weaken [OF failing_result(1)], simp, rule post_weaken [OF failing_result(2)], simp)
  have build: "post u (seq (try_build vo progress s (vi_files input)) (\<lambda>out. seq (clean_up vo progress s out) lift_result))
      (\<lambda>x v'. v_status x = VPassed \<longrightarrow> passed_result vo (vr_checks u) x)" for u s
    by (intro post_seq post_weaken [OF try_build_post] post_weaken [OF clean_up_post] post_lift)
      (auto simp: sound_outcome_def)
  show ?thesis
    unfolding validate_body_def push_check_def Let_def
    by (auto intro!: post_seq post_call post_lift post_change post_if post_option failed failing_result post_weaken [OF build])
qed

text \<open>What a verdict may claim about the files.\<close>

definition sound_verdict :: "'z validator_options \<Rightarrow> project_file list \<Rightarrow> validation_result \<Rightarrow> bool" where
  "sound_verdict vo files v \<longleftrightarrow> (v_status v = VPassed \<longrightarrow>
     v_verification v = Some (vo_verification vo) \<and> v_category v = None \<and>
     (v_previewArtifactId v \<noteq> None \<longleftrightarrow> vo_verification vo = Verified) \<and>
     validateProjectStructure JSON_parse files = Inr StructurePassed \<and> styling_issues vo files = [] \<and>
     map ck_name (v_checks v) = [NStructure, NInstall, NTypeCheck, NBuild] \<and>
     list_all (\<lambda>c. ck_status c = Some CsPassed \<and> ck_category c = None) (v_checks v) \<and>
     map ck_exitCode (tl (v_checks v)) = [Some 0, Some 0, Some 0])"

text \<open>C32: A validation in a sandbox passes only when everything passed. Whatever the provider, the stored
  artifacts and other processes do: if the validator answers with \<open>passed\<close>, the structure check accepted
  the files and no styling adapter objected; the four checks are, in this order, structure, install,
  type-check and build, each passed, the three commands with exit code 0; the verification level is the
  one of the runtime; and a preview artifact was published exactly when that level is \<open>verified\<close>. So no
  error, time-out, lost lease or failed clean-up is ever reported as a pass.\<close>

theorem sandbox_validation_passed:
  "returns (sound_verdict vo (vi_files input)) (sandbox_validate vo input progress)"
  unfolding returns_def
proof (intro allI impI)
  fix w v w' assume run: "sandbox_validate vo input progress w = (Inr v, w')"
  show "sound_verdict vo (vi_files input) v"
  proof (cases "v_status v = VPassed")
    case True
    obtain t where "validate_body vo input progress (w, \<lparr>vr_checks = [], vr_lease = None, vr_phase = PhDependencies\<rparr>) = (Inr v, t)"
      using run by (auto simp: sandbox_validate_def split: prod.splits)
    with body_post [of _ vo input progress] True obtain ms where
      res: "validateProjectStructure JSON_parse (vi_files input) = Inr StructurePassed" "styling_issues vo (vi_files input) = []"
        "passed_result vo [structure_check ms StructurePassed] v"
      unfolding post_def by fastforce
    then obtain ks where "passing [CmdInstall, CmdTypeCheck, CmdBuild] ks" "v_checks v = structure_check ms StructurePassed # ks"
      by (auto simp: passed_result_def)
    with res show ?thesis
      by (auto simp: sound_verdict_def passed_result_def passing_def structure_check_def structure_category_def
        Cons_eq_map_conv map_eq_Cons_conv)
  qed (simp add: sound_verdict_def)
qed

end
