(* ===== verification/Runtime.thy ===== *)
theory Runtime
  imports Worker SandboxReconciler SandboxValidator
begin

text \<open>
  The worker process put together: the sandbox runtime built from its configuration
  (\<open>sandbox/runtime.ts\<close>), the services of the orchestrator on the artifact service and the sandbox
  validator (\<open>worker.ts\<close>), and what one job then keeps of everything that is stored.
\<close>

section \<open>Composition\<close>








section \<open>Relations that do not look at a part of the store\<close>



















section \<open>A job on the services of the runtime\<close>






section \<open>Property\<close>



section \<open>A concrete process\<close>








end
