(* ===== verification/ArtifactReconciler.thy ===== *)
theory ArtifactReconciler
  imports ArtifactService Orchestrator
begin

text \<open>
  The reconciler of artifacts (\<open>artifacts/reconciler.ts\<close>): writes that were abandoned are promoted or
  marked corrupt, and artifacts nothing refers to are claimed and deleted with their blobs. The
  counters of a pass are the values its loops return: an error leaves the whole pass.
\<close>

section \<open>Data\<close>

definition ARTIFACT_BATCH_SIZE :: nat where
  "ARTIFACT_BATCH_SIZE = 100"

record reconcile_input =
  ri_service :: artifact_service
  ri_now :: "time option"
  ri_writingTimeoutMs :: int
  ri_orphanRetentionMs :: int

record artifact_counts =
  ac_promoted :: nat
  ac_corrupted :: nat
  ac_deleted :: nat
  ac_preserved :: nat

definition no_artifact_counts :: artifact_counts where
  "no_artifact_counts = \<lparr>ac_promoted = 0, ac_corrupted = 0, ac_deleted = 0, ac_preserved = 0\<rparr>"

definition isStoreUnavailable :: "js_error \<Rightarrow> bool" where
  "isStoreUnavailable e \<longleftrightarrow> err_artifact e \<and> err_code e = Some ''ARTIFACT_STORE_UNAVAILABLE''"

definition corruptionCode :: "js_error \<Rightarrow> string option" where
  "corruptionCode e = (if err_artifact e then err_code e else Some ''ARTIFACT_CORRUPT'')"

section \<open>Queries\<close>

text \<open>A cursor over at most one batch, in the order of insertion.\<close>

definition manifests_where :: "(artifact_manifest \<Rightarrow> bool) \<Rightarrow> ('z) world_scheme \<Rightarrow> (string \<times> artifact_manifest) list" where
  "manifests_where p w = take ARTIFACT_BATCH_SIZE (filter (\<lambda>am. p (snd am))
     (List.map_filter (\<lambda>a. map_option (Pair a) (w_manifests w a)) (w_manifestIds w)))"

definition snapshot_refers :: "string \<Rightarrow> ('z) world_scheme \<Rightarrow> bool" where
  "snapshot_refers a w = list_ex (\<lambda>i. case w_snapshots w i of
     Some d \<Rightarrow> sn_artifactId d = a \<or> sn_previewArtifactId d = Some a | None \<Rightarrow> False) (w_snapshotIds w)"

definition candidate_refers :: "string \<Rightarrow> ('z) world_scheme \<Rightarrow> bool" where
  "candidate_refers a w = list_ex (\<lambda>i. case w_candidates w i of
     Some d \<Rightarrow> vc_artifactId d = a | None \<Rightarrow> False) (w_candidateIds w)"

definition lease_refers :: "string \<Rightarrow> ('z) world_scheme \<Rightarrow> bool" where
  "lease_refers a w = list_ex (\<lambda>i. case w_sandboxLeases w i of
     Some l \<Rightarrow> fst (sl_sourceArtifact l) = a \<and> sl_state l \<noteq> STerminated | None \<Rightarrow> False) (w_sandboxIds w)"

definition hasReference :: "string \<Rightarrow> (('z) world_scheme, js_error, bool) comp" where
  "hasReference a = seq (find_doc (snapshot_refers a)) (\<lambda>snapshot.
     seq (find_doc (candidate_refers a)) (\<lambda>candidate.
     seq (find_doc (lease_refers a)) (\<lambda>lease. ret (snapshot \<or> candidate \<or> lease))))"

text \<open>\<open>deleteOne\<close> of a manifest that is pending deletion; the answer is \<open>deletedCount = 1\<close>.\<close>

definition remove_manifest :: "string \<Rightarrow> (('z) world_scheme, js_error, bool) comp" where
  "remove_manifest a = (\<lambda>w. case w_manifests w a of
     None \<Rightarrow> (Inr False, w)
   | Some m \<Rightarrow> if am_state m = MDeletePending
       then (Inr True, w\<lparr>w_manifests := (w_manifests w)(a := None), w_manifestIds := filter (\<lambda>x. x \<noteq> a) (w_manifestIds w)\<rparr>)
       else (Inr False, w))"

section \<open>The passes\<close>

definition reconciler_markCorrupt :: "string \<Rightarrow> js_error \<Rightarrow> (('z) world_scheme, js_error, bool) comp" where
  "reconciler_markCorrupt a e = update_manifest_state a MWriting MCorrupt (\<lambda>_. corruptionCode e)"

definition mark_and_count :: "string \<Rightarrow> js_error \<Rightarrow> artifact_counts \<Rightarrow> (('z) world_scheme, js_error, artifact_counts) comp" where
  "mark_and_count a e n = seq (reconciler_markCorrupt a e) (\<lambda>marked.
     ret (if marked then n\<lparr>ac_corrupted := ac_corrupted n + 1\<rparr> else n))"

definition size_mismatch :: js_error where
  "size_mismatch = artifact_error ''ARTIFACT_CORRUPT'' ''Artifact compressed size does not match its manifest''"

definition check_writing :: "reconcile_input \<Rightarrow> string \<times> artifact_manifest \<Rightarrow> artifact_counts \<Rightarrow>
    (('z) world_scheme, js_error, artifact_counts) comp" where
  "check_writing input am n =
     catch (seq (store_stat (as_root (ri_service input)) (am_storageKey (snd am))) (\<lambda>size.
            if size \<noteq> am_compressedBytes (snd am) then mark_and_count (fst am) size_mismatch n
            else seq (verifyStoredByKind (ri_service input) (snd am)) (\<lambda>_.
                 seq (update_manifest_state (fst am) MWriting MReady (\<lambda>_. None)) (\<lambda>promoted.
                 ret (if promoted then n\<lparr>ac_promoted := ac_promoted n + 1\<rparr> else n)))))
       (\<lambda>e. if isStoreUnavailable e then ret n else mark_and_count (fst am) e n)"

fun each_manifest :: "(string \<times> artifact_manifest \<Rightarrow> artifact_counts \<Rightarrow> (('z) world_scheme, js_error, artifact_counts) comp) \<Rightarrow>
    (string \<times> artifact_manifest) list \<Rightarrow> artifact_counts \<Rightarrow> (('z) world_scheme, js_error, artifact_counts) comp" where
  "each_manifest f [] n = ret n"
| "each_manifest f (am # ams) n = seq (f am n) (each_manifest f ams)"

definition reconcileWriting :: "reconcile_input \<Rightarrow> time \<Rightarrow> artifact_counts \<Rightarrow>
    (('z) world_scheme, js_error, artifact_counts) comp" where
  "reconcileWriting input cutoff n =
     seq (find_doc (manifests_where (\<lambda>m. am_state m = MWriting \<and> am_updatedAt m \<le> cutoff))) (\<lambda>ams.
     each_manifest (check_writing input) ams n)"

definition deletePendingManifest :: "reconcile_input \<Rightarrow> string \<times> artifact_manifest \<Rightarrow> artifact_counts \<Rightarrow>
    (('z) world_scheme, js_error, artifact_counts) comp" where
  "deletePendingManifest input am n = seq (hasReference (fst am)) (\<lambda>referenced.
     if referenced
     then seq (update_manifest_state (fst am) MDeletePending MReady id) (\<lambda>restored.
          ret (if restored then n\<lparr>ac_preserved := ac_preserved n + 1\<rparr> else n))
     else seq (catch (seq (store_delete (as_root (ri_service input)) (am_storageKey (snd am))) (\<lambda>_. ret True))
                 (\<lambda>e. if isStoreUnavailable e then ret False else throw e)) (\<lambda>gone.
          if \<not> gone then ret n
          else seq (db_op (remove_manifest (fst am))) (\<lambda>deleted.
               ret (if deleted then n\<lparr>ac_deleted := ac_deleted n + 1\<rparr> else n))))"

definition claim_orphan :: "reconcile_input \<Rightarrow> string \<times> artifact_manifest \<Rightarrow> artifact_counts \<Rightarrow>
    (('z) world_scheme, js_error, artifact_counts) comp" where
  "claim_orphan input am n = seq (hasReference (fst am)) (\<lambda>referenced.
     if referenced then ret (n\<lparr>ac_preserved := ac_preserved n + 1\<rparr>)
     else seq (update_manifest_state (fst am) MReady MDeletePending id) (\<lambda>claimed.
          if \<not> claimed then ret n else deletePendingManifest input am n))"

definition reconcileReady :: "reconcile_input \<Rightarrow> time \<Rightarrow> artifact_counts \<Rightarrow>
    (('z) world_scheme, js_error, artifact_counts) comp" where
  "reconcileReady input cutoff n =
     seq (find_doc (manifests_where (\<lambda>m. am_state m = MReady \<and> am_updatedAt m \<le> cutoff))) (\<lambda>ams.
     each_manifest (claim_orphan input) ams n)"

definition reconcileDeletePending :: "reconcile_input \<Rightarrow> artifact_counts \<Rightarrow>
    (('z) world_scheme, js_error, artifact_counts) comp" where
  "reconcileDeletePending input n =
     seq (find_doc (manifests_where (\<lambda>m. am_state m = MDeletePending))) (\<lambda>ams.
     each_manifest (deletePendingManifest input) ams n)"

definition reconcileArtifacts :: "reconcile_input \<Rightarrow> (('z) world_scheme, js_error, artifact_counts) comp" where
  "reconcileArtifacts input = seq (case ri_now input of Some t \<Rightarrow> ret t | None \<Rightarrow> Date_now) (\<lambda>now.
     seq (reconcileWriting input (now - ri_writingTimeoutMs input) no_artifact_counts) (\<lambda>n.
     seq (reconcileDeletePending input n) (\<lambda>n.
     reconcileReady input (now - ri_orphanRetentionMs input) n)))"

section \<open>What a snapshot refers to stays\<close>

lemma storageKeyFor_inj: "storageKeyFor a = storageKeyFor b \<Longrightarrow> a = b"
proof -
  assume eq: "storageKeyFor a = storageKeyFor b"
  have len: "length (storageKeyFor c) = min (length c) 2 + min (length c - 2) 2 + length c + 13" for c
    by (simp add: storageKeyFor_def)
  have "length a = length b"
    using arg_cong [OF eq, of length] unfolding len by (auto simp: min_def split: if_splits)
  then show ?thesis using eq by (simp add: storageKeyFor_def)
qed

text \<open>Manifests have the storage keys of their ids, as \<open>createOrLoadManifest\<close> makes them.\<close>

definition own_keys :: "('z) world_scheme \<Rightarrow> bool" where
  "own_keys w \<longleftrightarrow> (\<forall>a m. w_manifests w a = Some m \<longrightarrow> am_storageKey m = storageKeyFor a)"

definition blob_of :: "string \<Rightarrow> string \<Rightarrow> bytes \<Rightarrow> ('z) world_scheme \<Rightarrow> bool" where
  "blob_of base a b w \<longleftrightarrow> (\<forall>final. resolveKey base (storageKeyFor a) = Inr final \<longrightarrow> file_at final b w)"

definition referenced :: "string \<Rightarrow> string \<Rightarrow> bytes \<Rightarrow> artifact_manifest \<Rightarrow> ('z) world_scheme \<Rightarrow> bool" where
  "referenced base a b m w \<longleftrightarrow> own_keys w \<and> snapshot_refers a w \<and> manifest_at a m w \<and> blob_of base a b w"

lemma refers_same: "w_snapshots w' = w_snapshots w \<Longrightarrow> w_snapshotIds w' = w_snapshotIds w \<Longrightarrow> snapshot_refers a w' = snapshot_refers a w"
  by (simp add: snapshot_refers_def)

lemma own_keys_update: "own_keys w \<Longrightarrow> w_manifests w a = Some m \<Longrightarrow> am_storageKey m' = am_storageKey m \<Longrightarrow>
    own_keys (w\<lparr>w_manifests := (w_manifests w)(a \<mapsto> m')\<rparr>)"
  by (simp add: own_keys_def)

lemma manifest_at_update: "manifest_at a m w \<Longrightarrow> w_manifests w c = Some d \<Longrightarrow> manifest_core d' = manifest_core d \<Longrightarrow>
    manifest_at a m (w\<lparr>w_manifests := (w_manifests w)(c \<mapsto> d')\<rparr>)"
  by (auto simp: manifest_at_def)

lemma blob_env: "blob_of base a b w \<Longrightarrow> blob_of base a b (env_apply e w)"
  by (auto simp: blob_of_def file_at_def env_keeps_node)

lemma referenced_env: "referenced base a b m w \<Longrightarrow> referenced base a b m (env_apply e w)"
proof -
  assume r: "referenced base a b m w"
  have "own_keys (env_apply e w)" "snapshot_refers a (env_apply e w)"
    using r by (cases e; auto simp: referenced_def own_keys_def snapshot_refers_def split: option.split)+
  then show ?thesis using r blob_env kept_env [of w e] by (auto simp: referenced_def manifests_kept_def)
qed

lemma referenced_stable: "stable any_step (referenced base a b m)"
  by (auto simp: stable_def referenced_env)
     (simp add: referenced_def own_keys_def snapshot_refers_def manifest_at_def blob_of_def file_at_def)

text \<open>Reading from the disk respects every store order, and deleting does when the unlink does.\<close>

context store_order
begin

lemma disk_reads: "resp R (fs_lstat p)" "resp R (fs_open p)" "resp R (fs_open_nofollow p)" "resp R handle_sync"
  "resp R handle_close" "resp R (fs_op (ret a))"
  unfolding fs_lstat_def fs_open_def fs_open_nofollow_def handle_sync_def handle_close_def
  by (rule resp_fs_op; auto simp: resp_def ret_def R_refl split: option.split fs_node.split)+

lemmas reading_steps = disk_reads resp_rules resp_seq resp_catch resp_finally resp_for_each

lemma directories_read: "resp R (assertDirectory p)" "resp R (assertSafeParent base k)" "resp R (directorySync p)" "resp R close_quietly"
  unfolding assertDirectory_def assertSafeParent_def directorySync_def close_quietly_def by (intro reading_steps)+

lemma blob_read: "(\<And>b. resp R (f b)) \<Longrightarrow> resp R (with_blob base k q f)"
  unfolding with_blob_def openRegularFile_def
  by (intro reading_steps directories_read; auto split: fs_node.split intro: resp_ret resp_throw)

lemma store_reads: "resp R (store_get base k)" "resp R (store_stat base k)" "resp R (verifyStoredByKind sv m)"
proof -
  show get: "resp R (store_get base k)" "resp R (store_stat base k)" for base k
    unfolding store_get_def store_stat_def by (intro reading_steps blob_read)+
  show "resp R (verifyStoredByKind sv m)"
    unfolding verifyStoredByKind_def verifyStored_def verifyStoredPreview_def by (intro reading_steps get)
qed

lemma deleting:
  assumes "\<And>final. resolveKey base k = Inr final \<Longrightarrow> resp R (fs_unlink final)"
  shows "resp R (store_delete base k)"
proof (cases "resolveKey base k")
  case (Inl e)
  then show ?thesis by (simp add: store_delete_def resp_def lift_result_def seq_def R_refl)
next
  case (Inr final)
  have failed: "resp R (delete_failed safe parent e)" for safe parent e
    unfolding delete_failed_def by (intro reading_steps directories_read)
  have unlink: "resp R (unlink_blob parent final)" for parent
    unfolding unlink_blob_def
    by (intro reading_steps; auto split: fs_node.split intro: resp_throw resp_seq directories_read assms Inr)
  have "(store_delete base k :: ('z world_scheme, _, _) comp) = (let parent = parent_dir base k
     in seq (catch (seq (assertSafeParent base k) (\<lambda>_. ret True))
               (\<lambda>e. seq (delete_failed False parent e) (\<lambda>_. ret False))) (\<lambda>safeParent.
        if safeParent then catch (unlink_blob parent final) (delete_failed True parent) else ret ()))"
    by (rule ext) (simp add: store_delete_def Inr lift_result_def seq_def [of "Pair (Inr final)"])
  then show ?thesis by (simp only:) (intro reading_steps directories_read failed unlink)
qed

end

interpretation refs: store_order "\<lambda>w w' :: 'z world_scheme. referenced base a b m w \<longrightarrow> referenced base a b m w'" for base a b m
  by unfold_locales (use referenced_stable [of base a b m] in \<open>auto simp: stable_def referenced_env\<close>)

lemma maintains_resp: "resp (\<lambda>w w'. I w \<longrightarrow> I w') f \<Longrightarrow> maintains any_step I f"
  by (rule maintainsI) (simp add: resp_def)

lemma referenced_reads:
  "maintains any_step (referenced base a b m) (store_stat r k)"
  "maintains any_step (referenced base a b m) (verifyStoredByKind sv d)"
  by (rule maintains_resp, rule refs.store_reads)+

lemma referenced_unlink: "blob_of base a b w \<Longrightarrow> resolveKey base (storageKeyFor c) = Inr final \<Longrightarrow> c \<noteq> a \<Longrightarrow>
    blob_of base a b (w\<lparr>w_nodes := (w_nodes w)(final := x)\<rparr>)"
  by (auto simp: blob_of_def file_at_def dest!: resolveKey_parts(2) storageKeyFor_inj)

lemma referenced_delete:
  assumes "c \<noteq> a"
  shows "maintains any_step (referenced base a b m) (store_delete base (storageKeyFor c))"
proof (rule maintains_resp, rule refs.deleting)
  fix final assume final: "resolveKey base (storageKeyFor c) = Inr final"
  have "referenced base a b m (w\<lparr>w_nodes := (w_nodes w)(final := None)\<rparr>)" if "referenced base a b m w" for w :: "'z world_scheme"
    using that referenced_unlink [OF _ final assms, of b w None]
    by (simp add: referenced_def own_keys_def snapshot_refers_def manifest_at_def)
  then show "resp (\<lambda>w w' :: 'z world_scheme. referenced base a b m w \<longrightarrow> referenced base a b m w') (fs_unlink final)"
    unfolding fs_unlink_def by (intro refs.resp_fs_op) (auto simp: resp_def split: option.split fs_node.split)
qed

lemma referenced_state: "maintains any_step (referenced base a b m) (update_manifest_state c from_state to_state f)"
  unfolding update_manifest_state_def
  by (rule maintains_db_op [OF referenced_stable])
    (auto simp: referenced_def set_manifest_state_def snapshot_refers_def blob_of_def file_at_def manifest_core_def
      intro!: own_keys_update manifest_at_update split: option.split)

lemma referenced_remove: "c \<noteq> a \<Longrightarrow> maintains any_step (referenced base a b m) (db_op (remove_manifest c))"
  by (rule maintains_db_op [OF referenced_stable])
    (auto simp: referenced_def remove_manifest_def own_keys_def snapshot_refers_def blob_of_def file_at_def manifest_at_def
      split: option.split)

lemma reference_found:
  "triple any_step (referenced base a b m :: 'z world_scheme \<Rightarrow> bool) (hasReference c)
     (\<lambda>found w. referenced base a b m w \<and> (c = a \<longrightarrow> found)) (\<lambda>_. referenced base a b m)"
proof -
  let ?I = "referenced base a b m :: 'z world_scheme \<Rightarrow> bool"
  have keep: "triple any_step (\<lambda>w. ?I w \<and> (c = a \<longrightarrow> x)) (find_doc f) (\<lambda>_ w. ?I w \<and> (c = a \<longrightarrow> x)) (\<lambda>_. ?I)"
    for f :: "'z world_scheme \<Rightarrow> bool" and x
    by (rule triple_find_doc [OF stable_conj [OF referenced_stable stable_pure]]) auto
  have first: "triple any_step ?I (find_doc (snapshot_refers c)) (\<lambda>found w. ?I w \<and> (c = a \<longrightarrow> found)) (\<lambda>_. ?I)"
    by (rule triple_find_doc [OF referenced_stable]) (auto simp: referenced_def)
  show ?thesis
    unfolding hasReference_def
    by (rule triple_seq, rule first, rule triple_seq, rule keep, rule triple_seq, rule keep, rule triple_ret) auto
qed

lemma pending_keeps:
  assumes "am_storageKey (snd am) = storageKeyFor (fst am)"
  shows "maintains any_step (referenced (as_root (ri_service input)) a b m) (deletePendingManifest input am n)"
  unfolding maintains_def deletePendingManifest_def
proof (rule triple_seq [OF reference_found], rule triple_if)
  let ?I = "referenced (as_root (ri_service input)) a b m"
  have keep: "triple any_step ?I f (\<lambda>_. ?I) (\<lambda>_. ?I) \<Longrightarrow> triple any_step (\<lambda>w. ?I w \<and> x) f (\<lambda>_. ?I) (\<lambda>_. ?I)" for f x
    by (erule triple_pre) simp
  show "triple any_step (\<lambda>w. ?I w \<and> (fst am = a \<longrightarrow> found))
      (seq (update_manifest_state (fst am) MDeletePending MReady id)
        (\<lambda>restored. ret (if restored then n\<lparr>ac_preserved := ac_preserved n + 1\<rparr> else n))) (\<lambda>_. ?I) (\<lambda>_. ?I)" for found
    by (rule keep, fold maintains_def) (intro maintains_seq referenced_state maintains_ret)
  fix found assume "\<not> found"
  show "triple any_step (\<lambda>w. ?I w \<and> (fst am = a \<longrightarrow> found))
      (seq (catch (seq (store_delete (as_root (ri_service input)) (am_storageKey (snd am))) (\<lambda>_. ret True))
          (\<lambda>e. if isStoreUnavailable e then ret False else throw e))
        (\<lambda>gone. if \<not> gone then ret n else seq (db_op (remove_manifest (fst am)))
          (\<lambda>deleted. ret (if deleted then n\<lparr>ac_deleted := ac_deleted n + 1\<rparr> else n)))) (\<lambda>_. ?I) (\<lambda>_. ?I)"
  proof (rule triple_assume [where b = "fst am \<noteq> a"])
    assume other: "fst am \<noteq> a"
    show ?thesis
      unfolding assms
      by (rule keep, fold maintains_def)
        (intro maintains_seq maintains_catch maintains_rules referenced_delete referenced_remove other)
  qed (use \<open>\<not> found\<close> in simp)
qed

lemma each_keeps:
  assumes "\<And>am n. am \<in> set ams \<Longrightarrow> maintains ok I (f am n)" shows "maintains ok I (each_manifest f ams n)"
  using assms by (induction ams arbitrary: n) (auto intro: maintains_ret maintains_seq)

text \<open>A batch has the keys of its ids.\<close>

lemma batch_keys: "own_keys w \<Longrightarrow> am \<in> set (manifests_where p w) \<Longrightarrow> am_storageKey (snd am) = storageKeyFor (fst am)"
  by (auto simp: own_keys_def manifests_where_def map_filter_def dest!: in_set_takeD)

lemma with_batch:
  assumes "\<And>am n. am_storageKey (snd am) = storageKeyFor (fst am) \<Longrightarrow> maintains any_step (referenced base a b m) (f am n)"
  shows "maintains any_step (referenced base a b m) (seq (find_doc (manifests_where p)) (\<lambda>ams. each_manifest f ams n))"
  unfolding maintains_def
proof (rule triple_seq)
  show "triple any_step (referenced base a b m) (find_doc (manifests_where p))
      (\<lambda>ams w. referenced base a b m w \<and> (\<forall>am \<in> set ams. am_storageKey (snd am) = storageKeyFor (fst am)))
      (\<lambda>_. referenced base a b m)"
    by (rule triple_find_doc [OF referenced_stable]) (auto simp: referenced_def dest: batch_keys)
  fix ams
  show "triple any_step (\<lambda>w. referenced base a b m w \<and> (\<forall>am \<in> set ams. am_storageKey (snd am) = storageKeyFor (fst am)))
      (each_manifest f ams n) (\<lambda>_. referenced base a b m) (\<lambda>_. referenced base a b m)"
  proof (rule triple_assume)
    assume "\<forall>am \<in> set ams. am_storageKey (snd am) = storageKeyFor (fst am)"
    then have "maintains any_step (referenced base a b m) (each_manifest f ams n)" by (intro each_keeps assms) auto
    then show "triple any_step (\<lambda>w. referenced base a b m w \<and> (\<forall>am \<in> set ams. am_storageKey (snd am) = storageKeyFor (fst am)))
      (each_manifest f ams n) (\<lambda>_. referenced base a b m) (\<lambda>_. referenced base a b m)"
      unfolding maintains_def by (rule triple_pre) simp
  qed simp
qed

lemma passes_keep:
  "maintains any_step (referenced (as_root (ri_service input)) a b m) (reconcileWriting input cutoff n)"
  "maintains any_step (referenced (as_root (ri_service input)) a b m) (reconcileDeletePending input n)"
  "maintains any_step (referenced (as_root (ri_service input)) a b m) (reconcileReady input cutoff n)"
proof -
  let ?I = "referenced (as_root (ri_service input)) a b m"
  have mark: "maintains any_step ?I (mark_and_count c e n)" for c e n
    unfolding mark_and_count_def reconciler_markCorrupt_def by (intro maintains_seq referenced_state maintains_ret)
  show "maintains any_step ?I (reconcileWriting input cutoff n)"
    unfolding reconcileWriting_def check_writing_def
    by (intro with_batch maintains_seq maintains_catch maintains_rules mark referenced_reads referenced_state)
  show "maintains any_step ?I (reconcileDeletePending input n)"
    unfolding reconcileDeletePending_def by (intro with_batch pending_keeps)
  have claim: "maintains any_step ?I (claim_orphan input am n)"
    if "am_storageKey (snd am) = storageKeyFor (fst am)" for am n
  proof -
    have "maintains any_step ?I (hasReference c)" for c
      unfolding hasReference_def by (intro maintains_seq maintains_find maintains_ret referenced_stable)
    then show ?thesis
      unfolding claim_orphan_def by (intro maintains_seq maintains_rules referenced_state pending_keeps that)
  qed
  show "maintains any_step ?I (reconcileReady input cutoff n)"
    unfolding reconcileReady_def by (intro with_batch claim)
qed

section \<open>Property\<close>

text \<open>C34: The reconciler never deletes an artifact that a stored snapshot refers to, as its project or
  as its preview: its manifest stays, with everything but its state, and so does its blob, whatever
  fails and whatever other processes do in between, even when the manifest was marked for deletion.\<close>

theorem reconciler_spares_referenced:
  assumes "own_keys w" "snapshot_refers a w" "manifest_at a m w"
    and "resolveKey (as_root (ri_service input)) (storageKeyFor a) = Inr final" "file_at final b w"
    and "reconcileArtifacts input w = (r, w')"
  shows "snapshot_refers a w' \<and> manifest_at a m w' \<and> file_at final b w'"
proof -
  let ?I = "referenced (as_root (ri_service input)) a b m"
  have "maintains any_step ?I (reconcileArtifacts input)"
    unfolding reconcileArtifacts_def Date_now_def by (intro maintains_seq maintains_rules passes_keep)
  moreover have "?I w" using assms by (simp add: referenced_def blob_of_def)
  ultimately have "?I w'" using maintainsD [of any_step ?I "reconcileArtifacts input" w r w'] assms(6) by simp
  then show ?thesis using assms(4) by (simp add: referenced_def blob_of_def)
qed

section \<open>A concrete pass\<close>

text \<open>A referenced artifact that is marked for deletion, while another process restores it.\<close>

definition demo_manifest :: artifact_manifest where
  "demo_manifest = \<lparr>am_workspaceId = ''w'', am_projectId = ''p'', am_createdByRunId = ''r'', am_kind = KProjectSnapshot,
     am_idempotencyKey = ''snapshot:r'', am_format = artifactFormat, am_formatVersion = 1,
     am_storageKey = storageKeyFor demo_id, am_sha256 = [], am_uncompressedBytes = 1, am_compressedBytes = 1, am_fileCount = 1,
     am_state = MDeletePending, am_errorCode = None, am_updatedAt = 0\<rparr>"

definition demo_snapshot :: project_snapshot where
  "demo_snapshot = \<lparr>sn_workspaceId = ''w'', sn_branchId = ''b'', sn_userId = ''u'', sn_projectId = ''p'', sn_sourceRunId = ''r'',
     sn_parentSnapshotId = None, sn_artifactId = demo_id, sn_previewArtifactId = None, sn_validation = demo_result VPassed,
     sn_summary = []\<rparr>"

definition demo_blob_path :: string where
  "demo_blob_path = ''/data/'' @ storageKeyFor demo_id"

definition demo_artifacts :: world where
  "demo_artifacts = demo_store\<lparr>w_nodes := (w_nodes demo_store)(demo_blob_path \<mapsto> FFile [1]),
     w_manifests := [demo_id \<mapsto> demo_manifest], w_manifestIds := [demo_id], w_snapshots := [''s'' \<mapsto> demo_snapshot],
     w_snapshotIds := [''s''], w_sched := [([], NoFault), ([EnvManifestState demo_id MReady], FailAfter)]\<rparr>"

definition demo_reconcile :: reconcile_input where
  "demo_reconcile = \<lparr>ri_service = demo_service, ri_now = Some 10, ri_writingTimeoutMs = 5, ri_orphanRetentionMs = 5\<rparr>"

theorem reconciler_spares_referenced_witness:
  "\<exists>r w'. reconcileArtifacts demo_reconcile demo_artifacts = (r, w') \<and> snapshot_refers demo_id w' \<and>
     manifest_at demo_id demo_manifest w' \<and> file_at demo_blob_path [1] w'"
proof -
  obtain r w' where run: "reconcileArtifacts demo_reconcile demo_artifacts = (r, w')" by fastforce
  have keys: "own_keys demo_artifacts"
    by (simp add: own_keys_def demo_artifacts_def demo_manifest_def)
  have refers: "snapshot_refers demo_id demo_artifacts"
    by (simp add: snapshot_refers_def demo_artifacts_def demo_snapshot_def)
  have at: "manifest_at demo_id demo_manifest demo_artifacts" "file_at demo_blob_path [1] demo_artifacts"
    by (simp_all add: manifest_at_def file_at_def demo_artifacts_def)
  have "as_root (ri_service demo_reconcile) = ''/data''" by (simp add: demo_reconcile_def demo_service_def)
  moreover have "resolveKey ''/data'' (storageKeyFor demo_id) = Inr demo_blob_path" by code_simp
  ultimately have key: "resolveKey (as_root (ri_service demo_reconcile)) (storageKeyFor demo_id) = Inr demo_blob_path" by simp
  show ?thesis using reconciler_spares_referenced [OF keys refers at(1) key at(2) run] run by blast
qed

end
