(* ===== verification/EventStream.thy ===== *)
theory EventStream
  imports Json EventBus
begin

text \<open>
  The stream of events of a run (\<open>agent/sseStream.ts\<close>) as a state machine: what is published while
  the backlog is loaded is buffered, and a sequence number is written at most once. The inputs are
  the messages of the Redis channel, the answers of the subscription and of the database, the
  heartbeat timer and the ends of the connection, in any order; a write may fail.
\<close>

section \<open>Public events\<close>

fun event_type_name :: "agent_event_type \<Rightarrow> string" where
  "event_type_name RunCreated = ''run.created''"
| "event_type_name RunStarted = ''run.started''"
| "event_type_name AgentStep = ''agent.step''"
| "event_type_name AgentPlanEvent = ''agent.plan''"
| "event_type_name FileChanged = ''file.changed''"
| "event_type_name ValidationStarted = ''validation.started''"
| "event_type_name ValidationStep = ''validation.step''"
| "event_type_name ValidationFailed = ''validation.failed''"
| "event_type_name ValidationPassed = ''validation.passed''"
| "event_type_name RepairStarted = ''repair.started''"
| "event_type_name RunCompleted = ''run.completed''"
| "event_type_name RunFailed = ''run.failed''"
| "event_type_name RunCancelled = ''run.cancelled''"

definition agentEventTypes :: "agent_event_type list" where
  "agentEventTypes = [RunCreated, RunStarted, AgentStep, AgentPlanEvent, FileChanged, ValidationStarted, ValidationStep,
     ValidationFailed, ValidationPassed, RepairStarted, RunCompleted, RunFailed, RunCancelled]"

definition publicAgentEventTypes :: "string list" where
  "publicAgentEventTypes = map event_type_name agentEventTypes"

definition agentRunChannel :: "object_id \<Rightarrow> string" where
  "agentRunChannel r = ''agent-run:'' @ r"

text \<open>\<open>serializeAgentEvent\<close>: a payload that is undefined leaves no member. The id, the payload as
  JSON and the time as ISO text are given.\<close>

definition serializeAgentEvent :: "string \<Rightarrow> json option \<Rightarrow> string \<Rightarrow> agent_event \<Rightarrow> json" where
  "serializeAgentEvent i payload created e = JObj ([(''id'', JStr i), (''runId'', JStr (ev_runId e)),
     (''sequence'', JNum (int (ev_sequence e))), (''type'', JStr (event_type_name (ev_type e))),
     (''message'', JStr (ev_message e))] @ (case payload of None \<Rightarrow> [] | Some p \<Rightarrow> [(''payload'', p)]) @
     [(''createdAt'', JStr created)])"

text \<open>An event as the stream handles it: the members it reads, and the whole value it writes.\<close>

record stream_event =
  se_sequence :: int
  se_type :: string
  se_value :: json

definition is_string :: "json option \<Rightarrow> bool" where
  "is_string j = (case j of Some (JStr _) \<Rightarrow> True | _ \<Rightarrow> False)"

definition public_event :: "object_id \<Rightarrow> json \<Rightarrow> stream_event option" where
  "public_event r v =
     (case (json_member ''sequence'' v, json_member ''type'' v) of
        (Some (JNum n), Some (JStr t)) \<Rightarrow>
          if is_string (json_member ''id'' v) \<and> json_member ''runId'' v = Some (JStr r) \<and> 0 \<le> n \<and>
             t \<in> set publicAgentEventTypes \<and> is_string (json_member ''message'' v) \<and> is_string (json_member ''createdAt'' v)
          then Some \<lparr>se_sequence = n, se_type = t, se_value = v\<rparr> else None
      | _ \<Rightarrow> None)"

definition toSseFrame :: "stream_event \<Rightarrow> string" where
  "toSseFrame e = ''id: '' @ show_int (se_sequence e) @ [newline] @ ''event: '' @ se_type e @ [newline] @
     ''data: '' @ stringify (se_value e) @ [newline, newline]"

section \<open>The state of a stream\<close>

datatype stream_phase = Subscribing | Loading | Returned | Thrown

datatype stream_chunk = EventChunk stream_event | HeartbeatChunk

record stream_state =
  ss_phase :: stream_phase
  ss_closed :: bool
  ss_backlogLoaded :: bool
  ss_subscriptionReady :: bool
  ss_disconnected :: bool
  ss_lastWritten :: int
  ss_heartbeat :: bool
  ss_buffered :: "stream_event list"
  ss_out :: "stream_chunk list"
  ss_ended :: bool
  ss_quit :: bool
  ss_writeFails :: "bool list"

text \<open>The socket decides with \<open>ss_writeFails\<close> which of the next writes throw.\<close>

definition stream_start :: "int option \<Rightarrow> bool list \<Rightarrow> stream_state" where
  "stream_start lastEventId fails = \<lparr>ss_phase = Subscribing, ss_closed = False, ss_backlogLoaded = False,
     ss_subscriptionReady = False, ss_disconnected = False,
     ss_lastWritten = (case lastEventId of Some n \<Rightarrow> n | None \<Rightarrow> 0), ss_heartbeat = False, ss_buffered = [],
     ss_out = [], ss_ended = False, ss_quit = False, ss_writeFails = fails\<rparr>"

definition forceDisconnect :: "stream_state \<Rightarrow> stream_state" where
  "forceDisconnect s = (if ss_disconnected s then s else s\<lparr>ss_disconnected := True\<rparr>)"

definition cleanup :: "stream_state \<Rightarrow> stream_state" where
  "cleanup s = (if ss_closed s then s
     else let s = s\<lparr>ss_closed := True, ss_heartbeat := False, ss_ended := True\<rparr>
          in if \<not> ss_subscriptionReady s then forceDisconnect s else s\<lparr>ss_quit := True\<rparr>)"

definition write_chunk :: "stream_chunk \<Rightarrow> stream_state \<Rightarrow> bool \<times> stream_state" where
  "write_chunk c s = (case ss_writeFails s of
     [] \<Rightarrow> (True, s\<lparr>ss_out := ss_out s @ [c]\<rparr>)
   | f # fs \<Rightarrow> if f then (False, s\<lparr>ss_writeFails := fs\<rparr>)
               else (True, s\<lparr>ss_out := ss_out s @ [c], ss_writeFails := fs\<rparr>))"

definition writeEvent :: "stream_event \<Rightarrow> stream_state \<Rightarrow> stream_state" where
  "writeEvent e s = (if ss_closed s \<or> se_sequence e \<le> ss_lastWritten s then s
     else let (ok, t) = write_chunk (EventChunk e) s
          in if ok then t\<lparr>ss_lastWritten := se_sequence e\<rparr> else cleanup t)"

definition writeHeartbeat :: "stream_state \<Rightarrow> stream_state" where
  "writeHeartbeat s = (if ss_closed s then s
     else let (ok, t) = write_chunk HeartbeatChunk s in if ok then t else cleanup t)"

definition messageHandler :: "object_id \<Rightarrow> string \<Rightarrow> stream_state \<Rightarrow> stream_state" where
  "messageHandler r msg s = (case Option.bind (JSON_parse msg) (public_event r) of
     None \<Rightarrow> s
   | Some e \<Rightarrow> if ss_closed s then s
       else if \<not> ss_backlogLoaded s then s\<lparr>ss_buffered := ss_buffered s @ [e]\<rparr>
       else writeEvent e s)"

section \<open>Inputs\<close>

datatype stream_input = Message string | ConnectionClosed | ResponseError | Subscribed | SubscribeFailed
  | Loaded "stream_event list" | LoadFailed | HeartbeatTick | QuitFailed

definition write_backlog :: "stream_event list \<Rightarrow> stream_state \<Rightarrow> stream_state" where
  "write_backlog durable s = fold writeEvent (sort_key se_sequence (durable @ ss_buffered s)) s"

fun stream_step :: "object_id \<Rightarrow> stream_input \<Rightarrow> stream_state \<Rightarrow> stream_state" where
  "stream_step r (Message m) s = messageHandler r m s"
| "stream_step r ConnectionClosed s = cleanup s"
| "stream_step r ResponseError s = cleanup s"
| "stream_step r Subscribed s =
     (if ss_phase s \<noteq> Subscribing then s
      else let s = s\<lparr>ss_subscriptionReady := True\<rparr>
           in if ss_closed s then s\<lparr>ss_phase := Returned\<rparr> else s\<lparr>ss_heartbeat := True, ss_phase := Loading\<rparr>)"
| "stream_step r SubscribeFailed s = (if ss_phase s \<noteq> Subscribing then s else (cleanup s)\<lparr>ss_phase := Thrown\<rparr>)"
| "stream_step r (Loaded ds) s =
     (if ss_phase s \<noteq> Loading then s
      else if ss_closed s then s\<lparr>ss_phase := Returned\<rparr>
      else (write_backlog ds s)\<lparr>ss_backlogLoaded := True, ss_phase := Returned\<rparr>)"
| "stream_step r LoadFailed s = (if ss_phase s \<noteq> Loading then s else (cleanup s)\<lparr>ss_phase := Thrown\<rparr>)"
| "stream_step r HeartbeatTick s = (if ss_heartbeat s then writeHeartbeat s else s)"
| "stream_step r QuitFailed s = (if ss_quit s then forceDisconnect s else s)"

definition stream_run :: "object_id \<Rightarrow> stream_input list \<Rightarrow> stream_state \<Rightarrow> stream_state" where
  "stream_run r = fold (stream_step r)"

fun chunk_events :: "stream_chunk list \<Rightarrow> stream_event list" where
  "chunk_events [] = []"
| "chunk_events (EventChunk e # cs) = e # chunk_events cs"
| "chunk_events (HeartbeatChunk # cs) = chunk_events cs"

fun chunk_text :: "stream_chunk \<Rightarrow> string" where
  "chunk_text (EventChunk e) = toSseFrame e"
| "chunk_text HeartbeatChunk = '': heartbeat'' @ [newline, newline]"

definition loadDurableEvents :: "(agent_event \<Rightarrow> stream_event) \<Rightarrow> object_id \<Rightarrow> object_id \<Rightarrow> int option \<Rightarrow> ('z) world_scheme \<Rightarrow> stream_event list" where
  "loadDurableEvents serialize r u lastEventId w =
     map serialize (sort_key ev_sequence (filter (\<lambda>e. ev_runId e = r \<and> ev_userId e = u \<and>
       (case lastEventId of Some n \<Rightarrow> n < int (ev_sequence e) | None \<Rightarrow> True)) (w_events w)))"

section \<open>What is written\<close>

text \<open>The events of a list that \<open>writeEvent\<close> lets through after a sequence number.\<close>

fun news :: "int \<Rightarrow> stream_event list \<Rightarrow> stream_event list" where
  "news l [] = []"
| "news l (e # es) = (if se_sequence e \<le> l then news l es else e # news (se_sequence e) es)"

definition last_of :: "int \<Rightarrow> stream_event list \<Rightarrow> int" where
  "last_of l es = (if es = [] then l else se_sequence (last es))"

lemma chunk_events_append [simp]: "chunk_events (xs @ ys) = chunk_events xs @ chunk_events ys"
  by (induction xs rule: chunk_events.induct) auto

lemma news_append: "news l (xs @ ys) = news l xs @ news (last_of l (news l xs)) ys"
  by (induction xs arbitrary: l) (auto simp: last_of_def)

lemma news_ascending: "sorted_wrt (<) (l # map se_sequence (news l es))"
proof (induction es arbitrary: l)
  case (Cons e es)
  show ?case using Cons [of l] Cons [of "se_sequence e"] by (auto intro: less_trans)
qed simp

lemma news_subset: "set (news l es) \<subseteq> set es"
proof (induction es arbitrary: l)
  case (Cons e es)
  then show ?case using Cons [of l] Cons [of "se_sequence e"] by auto
qed simp

text \<open>The written part of the state changes in two ways only: by \<open>news\<close>, or not at all.\<close>

definition same_output :: "stream_state \<Rightarrow> stream_state \<Rightarrow> bool" where
  "same_output s t \<longleftrightarrow> chunk_events (ss_out t) = chunk_events (ss_out s) \<and> ss_lastWritten t = ss_lastWritten s \<and>
     ss_buffered t = ss_buffered s \<and> ss_backlogLoaded t = ss_backlogLoaded s \<and> ss_phase t = ss_phase s"

lemma cleanup_output: "same_output s (cleanup s)"
  by (simp add: same_output_def cleanup_def forceDisconnect_def Let_def)

lemma heartbeat_output: "same_output s (writeHeartbeat s)"
proof -
  have "same_output t (cleanup t)" for t by (rule cleanup_output)
  then show ?thesis
    by (auto simp: same_output_def writeHeartbeat_def write_chunk_def Let_def split: list.split)
qed

lemma writeEvent_cases:
  obtains "same_output s (writeEvent e s)"
  | "ss_lastWritten s < se_sequence e" "chunk_events (ss_out (writeEvent e s)) = chunk_events (ss_out s) @ [e]"
    "ss_lastWritten (writeEvent e s) = se_sequence e" "ss_buffered (writeEvent e s) = ss_buffered s"
    "ss_backlogLoaded (writeEvent e s) = ss_backlogLoaded s" "ss_phase (writeEvent e s) = ss_phase s"
proof (cases "ss_closed s \<or> se_sequence e \<le> ss_lastWritten s")
  case True
  then show ?thesis using that(1) by (auto simp: writeEvent_def same_output_def)
next
  case False
  show ?thesis
  proof (cases "fst (write_chunk (EventChunk e) s)")
    case True
    then show ?thesis
      using False that(2) by (auto simp: writeEvent_def write_chunk_def Let_def split: list.splits if_splits)
  next
    case failed: False
    have "same_output s (snd (write_chunk (EventChunk e) s))"
      using failed by (auto simp: write_chunk_def same_output_def split: list.splits if_splits)
    moreover have "writeEvent e s = cleanup (snd (write_chunk (EventChunk e) s))"
      using False failed by (auto simp: writeEvent_def Let_def split: prod.split)
    ultimately have "same_output s (writeEvent e s)"
      using cleanup_output [of "snd (write_chunk (EventChunk e) s)"] by (simp add: same_output_def)
    then show ?thesis by (rule that(1))
  qed
qed

text \<open>The invariant of a stream: what is written ascends from the last event id, and is known.\<close>

definition stream_ok :: "(stream_event \<Rightarrow> bool) \<Rightarrow> int \<Rightarrow> stream_state \<Rightarrow> bool" where
  "stream_ok known l s \<longleftrightarrow> sorted_wrt (<) (l # map se_sequence (chunk_events (ss_out s))) \<and>
     ss_lastWritten s = last_of l (chunk_events (ss_out s)) \<and>
     list_all known (chunk_events (ss_out s)) \<and> list_all known (ss_buffered s)"

lemma stream_ok_same: "stream_ok known l s \<Longrightarrow> same_output s t \<Longrightarrow> stream_ok known l t"
  by (simp add: stream_ok_def same_output_def)

lemma stream_ok_write:
  assumes "stream_ok known l s" "known e" shows "stream_ok known l (writeEvent e s)"
proof (rule writeEvent_cases [of s e])
  assume w: "ss_lastWritten s < se_sequence e" "chunk_events (ss_out (writeEvent e s)) = chunk_events (ss_out s) @ [e]"
    "ss_lastWritten (writeEvent e s) = se_sequence e" "ss_buffered (writeEvent e s) = ss_buffered s"
  have "x < se_sequence e" if "x \<in> set (l # map se_sequence (chunk_events (ss_out s)))" for x
  proof (cases "chunk_events (ss_out s)" rule: rev_cases)
    case Nil
    then show ?thesis using that assms(1) w(1) by (simp add: stream_ok_def last_of_def)
  next
    case (snoc es y)
    then have "x \<le> se_sequence y" using that assms(1) by (auto simp: stream_ok_def sorted_wrt_append)
    moreover have "ss_lastWritten s = se_sequence y" using snoc assms(1) by (simp add: stream_ok_def last_of_def)
    ultimately show ?thesis using w(1) by simp
  qed
  then show ?thesis using assms w by (auto simp: stream_ok_def sorted_wrt_append last_of_def)
qed (rule stream_ok_same [OF assms(1)])

lemma stream_ok_backlog:
  "stream_ok known l s \<Longrightarrow> list_all known es \<Longrightarrow> stream_ok known l (fold writeEvent es s)"
  by (induction es arbitrary: s) (auto intro: stream_ok_write)

text \<open>The events an input brings.\<close>

definition message_event :: "object_id \<Rightarrow> string \<Rightarrow> stream_event option" where
  "message_event r m = Option.bind (JSON_parse m) (public_event r)"

definition brings :: "object_id \<Rightarrow> stream_input list \<Rightarrow> stream_event \<Rightarrow> bool" where
  "brings r xs e \<longleftrightarrow> list_ex (\<lambda>i. case i of Message m \<Rightarrow> message_event r m = Some e | Loaded ds \<Rightarrow> e \<in> set ds | _ \<Rightarrow> False) xs"

lemma stream_ok_step:
  assumes ok: "stream_ok known l s" and brings: "\<And>e. brings r [i] e \<Longrightarrow> known e"
  shows "stream_ok known l (stream_step r i s)"
proof (cases i)
  case (Message m)
  have "known e" if "message_event r m = Some e" for e using that brings Message by (simp add: brings_def)
  then show ?thesis
    using ok stream_ok_write [OF ok] by (auto simp: Message messageHandler_def stream_ok_def simp flip: message_event_def split: option.split)
next
  case (Loaded ds)
  have "list_all known ds" using brings Loaded by (auto simp: brings_def list_all_iff)
  then have "stream_ok known l (write_backlog ds s)"
    using ok unfolding write_backlog_def by (intro stream_ok_backlog) (auto simp: stream_ok_def list_all_iff)
  then show ?thesis using ok by (auto simp: Loaded stream_ok_def)
qed (use ok stream_ok_same [OF ok cleanup_output] stream_ok_same [OF ok heartbeat_output]
  in \<open>auto simp: stream_ok_def Let_def forceDisconnect_def\<close>)

lemma stream_ok_run:
  assumes "stream_ok known l s" "\<And>e. brings r xs e \<Longrightarrow> known e"
  shows "stream_ok known l (stream_run r xs s)"
  using assms
proof (induction xs arbitrary: s)
  case (Cons i xs)
  have "known e" if "brings r [i] e" for e using that Cons.prems(2) by (auto simp: brings_def)
  then have "stream_ok known l (stream_step r i s)" using Cons.prems(1) by (blast intro: stream_ok_step)
  then have "stream_ok known l (stream_run r xs (stream_step r i s))"
    by (rule Cons.IH) (use Cons.prems(2) in \<open>auto simp: brings_def\<close>)
  then show ?case by (simp add: stream_run_def)
qed (simp add: stream_run_def)

section \<open>Nothing is lost\<close>

definition flowing :: "stream_state \<Rightarrow> bool" where
  "flowing s \<longleftrightarrow> \<not> ss_closed s \<and> ss_writeFails s = []"

text \<open>Messages and heartbeats.\<close>

definition traffic :: "stream_input list \<Rightarrow> bool" where
  "traffic xs \<longleftrightarrow> list_all (\<lambda>i. case i of Message _ \<Rightarrow> True | HeartbeatTick \<Rightarrow> True | _ \<Rightarrow> False) xs"

definition live_events :: "object_id \<Rightarrow> stream_input list \<Rightarrow> stream_event list" where
  "live_events r xs = List.map_filter (\<lambda>i. case i of Message m \<Rightarrow> message_event r m | _ \<Rightarrow> None) xs"

lemma live_events_append [simp]: "live_events r (xs @ ys) = live_events r xs @ live_events r ys"
  by (simp add: live_events_def map_filter_def)

lemma live_events_Cons: "live_events r (i # xs) = live_events r [i] @ live_events r xs"
  using live_events_append [of r "[i]" xs] by simp

lemma flowing_heartbeat: "flowing s \<Longrightarrow> flowing (writeHeartbeat s)"
  by (simp add: flowing_def writeHeartbeat_def write_chunk_def Let_def)

lemma flowing_write:
  "flowing s \<Longrightarrow> flowing (writeEvent e s) \<and> chunk_events (ss_out (writeEvent e s)) = chunk_events (ss_out s) @ news (ss_lastWritten s) [e] \<and>
     ss_lastWritten (writeEvent e s) = last_of (ss_lastWritten s) (news (ss_lastWritten s) [e]) \<and>
     ss_backlogLoaded (writeEvent e s) = ss_backlogLoaded s"
  by (simp add: flowing_def writeEvent_def write_chunk_def Let_def last_of_def)

lemma flowing_backlog:
  "flowing s \<Longrightarrow> flowing (fold writeEvent es s) \<and>
     chunk_events (ss_out (fold writeEvent es s)) = chunk_events (ss_out s) @ news (ss_lastWritten s) es \<and>
     ss_lastWritten (fold writeEvent es s) = last_of (ss_lastWritten s) (news (ss_lastWritten s) es)"
proof (induction es arbitrary: s)
  case (Cons e es)
  note w = flowing_write [OF Cons.prems, of e]
  from w have IH: "flowing (fold writeEvent es (writeEvent e s)) \<and>
     chunk_events (ss_out (fold writeEvent es (writeEvent e s))) = chunk_events (ss_out (writeEvent e s)) @ news (ss_lastWritten (writeEvent e s)) es \<and>
     ss_lastWritten (fold writeEvent es (writeEvent e s)) = last_of (ss_lastWritten (writeEvent e s)) (news (ss_lastWritten (writeEvent e s)) es)"
    by (intro Cons.IH) simp
  show ?case using w IH news_append [of "ss_lastWritten s" "[e]" es] by (auto simp: last_of_def split: if_splits)
qed (simp add: last_of_def)

lemma buffering:
  assumes "flowing s" "\<not> ss_backlogLoaded s" "traffic xs"
  shows "flowing (stream_run r xs s) \<and> \<not> ss_backlogLoaded (stream_run r xs s) \<and> ss_phase (stream_run r xs s) = ss_phase s \<and>
    ss_buffered (stream_run r xs s) = ss_buffered s @ live_events r xs \<and> ss_lastWritten (stream_run r xs s) = ss_lastWritten s \<and>
    chunk_events (ss_out (stream_run r xs s)) = chunk_events (ss_out s)"
  using assms
proof (induction xs arbitrary: s)
  case (Cons i xs)
  have t: "traffic xs" using Cons.prems(3) by (simp add: traffic_def)
  have step: "flowing (stream_step r i s) \<and> \<not> ss_backlogLoaded (stream_step r i s) \<and> ss_phase (stream_step r i s) = ss_phase s \<and>
    ss_buffered (stream_step r i s) = ss_buffered s @ live_events r [i] \<and> ss_lastWritten (stream_step r i s) = ss_lastWritten s \<and>
    chunk_events (ss_out (stream_step r i s)) = chunk_events (ss_out s)"
  proof (cases i)
    case (Message m)
    then show ?thesis using Cons.prems
      by (auto simp: messageHandler_def live_events_def map_filter_def message_event_def flowing_def split: option.split)
  next
    case HeartbeatTick
    then show ?thesis using Cons.prems heartbeat_output [of s] flowing_heartbeat [of s]
      by (auto simp: live_events_def map_filter_def same_output_def)
  qed (use Cons.prems in \<open>auto simp: traffic_def\<close>)
  then have "flowing (stream_step r i s)" "\<not> ss_backlogLoaded (stream_step r i s)" by simp_all
  from Cons.IH [OF this t] step show ?case
    using live_events_Cons [of r i xs] by (simp add: stream_run_def)
qed (simp add: stream_run_def live_events_def map_filter_def)

lemma delivering:
  assumes "flowing s" "ss_backlogLoaded s" "traffic xs"
  shows "chunk_events (ss_out (stream_run r xs s)) = chunk_events (ss_out s) @ news (ss_lastWritten s) (live_events r xs)"
  using assms
proof (induction xs arbitrary: s)
  case (Cons i xs)
  have t: "traffic xs" using Cons.prems(3) by (simp add: traffic_def)
  have step: "flowing (stream_step r i s) \<and> ss_backlogLoaded (stream_step r i s) \<and>
    chunk_events (ss_out (stream_step r i s)) = chunk_events (ss_out s) @ news (ss_lastWritten s) (live_events r [i]) \<and>
    ss_lastWritten (stream_step r i s) = last_of (ss_lastWritten s) (news (ss_lastWritten s) (live_events r [i]))"
  proof (cases i)
    case (Message m)
    then show ?thesis using Cons.prems flowing_write [of s]
      by (auto simp: messageHandler_def live_events_def map_filter_def message_event_def last_of_def flowing_def split: option.split)
  next
    case HeartbeatTick
    then show ?thesis using Cons.prems heartbeat_output [of s] flowing_heartbeat [of s]
      by (auto simp: live_events_def map_filter_def same_output_def last_of_def)
  qed (use Cons.prems in \<open>auto simp: traffic_def\<close>)
  then have "flowing (stream_step r i s)" "ss_backlogLoaded (stream_step r i s)" by simp_all
  from Cons.IH [OF this t] step show ?case
    using live_events_Cons [of r i xs] news_append [of "ss_lastWritten s" "live_events r [i]" "live_events r xs"]
    by (simp add: stream_run_def)
qed (simp add: stream_run_def live_events_def map_filter_def)

lemma upto_append: "xs @ ys = [a..n] \<Longrightarrow> a \<le> n + 1 \<Longrightarrow> \<exists>j. a - 1 \<le> j \<and> j \<le> n \<and> xs = [a..j] \<and> ys = [j + 1..n]"
proof (induction xs arbitrary: a)
  case Nil
  then show ?case by (intro exI [of _ "a - 1"]) simp
next
  case (Cons x xs)
  have an: "a \<le> n" using Cons.prems(1) by (cases "a \<le> n") auto
  then have "x = a" "xs @ ys = [a + 1..n]" using Cons.prems(1) upto.simps [of a n] by auto
  from Cons.IH [OF this(2)] an obtain j where "a \<le> j" "j \<le> n" "xs = [a + 1..j]" "ys = [j + 1..n]" by auto
  then show ?case using \<open>x = a\<close> upto.simps [of a j] by (intro exI [of _ j]) auto
qed

lemma set_news: "sorted (map se_sequence es) \<Longrightarrow> se_sequence ` set (news l es) = {x \<in> se_sequence ` set es. l < x}"
proof (induction es arbitrary: l)
  case (Cons e es)
  then have later: "\<And>x. x \<in> se_sequence ` set es \<Longrightarrow> se_sequence e \<le> x" "sorted (map se_sequence es)" by auto
  show ?case
  proof (cases "se_sequence e \<le> l")
    case True
    then show ?thesis using Cons.IH [OF later(2), of l] by auto
  next
    case False
    have "se_sequence ` set (news l (e # es)) = insert (se_sequence e) {x \<in> se_sequence ` set es. se_sequence e < x}"
      using False Cons.IH [OF later(2), of "se_sequence e"] by simp
    also have "\<dots> = {x \<in> se_sequence ` set (e # es). l < x}" using False later(1) by force
    finally show ?thesis .
  qed
qed simp

lemma news_sorted:
  assumes "sorted (map se_sequence es)" "{x \<in> se_sequence ` set es. l < x} = {l + 1..j}"
  shows "map se_sequence (news l es) = [l + 1..j]"
  using news_ascending [of l es] set_news [OF assms(1), of l] assms(2)
  by (intro strict_sorted_equal) simp_all

lemma news_filter:
  "map se_sequence (filter (\<lambda>e. k < se_sequence e) es) = [j + 1..n] \<Longrightarrow> k \<le> j \<Longrightarrow> map se_sequence (news j es) = [j + 1..n]"
proof (induction es arbitrary: j)
  case (Cons e es)
  show ?case
  proof (cases "k < se_sequence e")
    case True
    then have "j + 1 \<le> n" using Cons.prems(1) by (cases "j + 1 \<le> n") auto
    then have "se_sequence e = j + 1" "map se_sequence (filter (\<lambda>e. k < se_sequence e) es) = [j + 1 + 1..n]"
      using Cons.prems(1) True upto.simps [of "j + 1" n] by auto
    then show ?thesis using Cons.IH [of "j + 1"] Cons.prems(2) upto.simps [of "j + 1" n] \<open>j + 1 \<le> n\<close> by simp
  next
    case False
    then show ?thesis using Cons by simp
  qed
qed simp

text \<open>The backlog of a numbered log has no gap.\<close>

lemma numbered_backlog:
  assumes "numbered w" "\<And>e. e \<in> set (w_events w) \<Longrightarrow> ev_runId e = r \<Longrightarrow> ev_userId e = u"
    and "\<And>e. se_sequence (serialize e) = int (ev_sequence e)"
  shows "\<exists>k. se_sequence ` set (loadDurableEvents serialize r u (Some (int l)) w) = {int l + 1..k}"
proof -
  obtain n where n: "event_sequences r w = [1..<Suc n]" using assms(1) by (auto simp: numbered_def)
  have all: "ev_sequence ` {e \<in> set (w_events w). ev_runId e = r} = {1..n}"
    using arg_cong [OF n, of set] by (auto simp: event_sequences_def)
  have seqs: "(\<exists>e. e \<in> set (w_events w) \<and> ev_runId e = r \<and> ev_sequence e = m) \<longleftrightarrow> m \<in> {1..n}" for m
    unfolding all [symmetric] by (auto simp: image_def)
  have "x \<in> se_sequence ` set (loadDurableEvents serialize r u (Some (int l)) w) \<longleftrightarrow> x \<in> {int l + 1..int n}" for x
  proof -
    have "x \<in> se_sequence ` set (loadDurableEvents serialize r u (Some (int l)) w) \<longleftrightarrow>
        (\<exists>e. e \<in> set (w_events w) \<and> ev_runId e = r \<and> l < ev_sequence e \<and> x = int (ev_sequence e))"
      using assms(2,3) by (auto simp: loadDurableEvents_def image_iff)
    also have "\<dots> \<longleftrightarrow> (\<exists>m. m \<in> {1..n} \<and> l < m \<and> x = int m)" by (subst seqs [symmetric]) blast
    also have "\<dots> \<longleftrightarrow> x \<in> {int l + 1..int n}" by (auto intro: exI [of _ "nat x"])
    finally show ?thesis .
  qed
  then show ?thesis by blast
qed

lemma last_of_upto:
  assumes "map se_sequence es = [l + 1..j]" "l \<le> j"
  shows "last_of l es = j"
proof (cases "l = j")
  case True
  then show ?thesis using assms(1) by (simp add: last_of_def)
next
  case False
  then have ne: "es \<noteq> []" "[l + 1..j] = [l + 1..j - 1] @ [j]"
    using assms upto_rec2 [of "l + 1" j] by auto
  then show ?thesis using arg_cong [OF assms(1), of last] by (simp add: last_of_def last_map)
qed

lemma start_flowing: "flowing (stream_start l [])"
  by (simp add: flowing_def stream_start_def)

section \<open>Properties\<close>

text \<open>C35: Whatever arrives in whatever order, and whenever a write fails or the connection ends, the
  events a stream has written ascend strictly from the last event id the client named, so none is
  sent twice, and each came from the database or from a valid message of this run.\<close>

theorem stream_writes_ascending:
  "let es = chunk_events (ss_out (stream_run r xs (stream_start (Some l) fails)))
   in sorted_wrt (<) (l # map se_sequence es) \<and> list_all (brings r xs) es"
proof -
  have "stream_ok (brings r xs) l (stream_start (Some l) fails)"
    by (simp add: stream_ok_def stream_start_def last_of_def)
  then have "stream_ok (brings r xs) l (stream_run r xs (stream_start (Some l) fails))" by (rule stream_ok_run)
  then show ?thesis by (simp add: stream_ok_def)
qed

text \<open>C36: A stream loses nothing: when the database answers the events up to number \<open>k\<close>, and the
  channel brings those after \<open>k\<close> in their order, before the subscription is confirmed, while the
  backlog is loaded or later, and with any repetition of older ones, then the client is written
  exactly the events that follow its last event id, each once and in order.\<close>

theorem stream_delivers_all:
  assumes "traffic before" "traffic during" "traffic after"
    and "se_sequence ` set ds = {l + 1..k}" "l \<le> k" "k \<le> n"
    and "map se_sequence (filter (\<lambda>e. k < se_sequence e) (live_events r (before @ during @ after))) = [k + 1..n]"
  shows "map se_sequence (chunk_events (ss_out (stream_run r (before @ [Subscribed] @ during @ [Loaded ds] @ after)
    (stream_start (Some l) [])))) = [l + 1..n]"
proof -
  let ?start = "stream_start (Some l) []"
  let ?s1 = "stream_run r before ?start"
  let ?s2 = "stream_run r during (stream_step r Subscribed ?s1)"
  let ?s3 = "stream_step r (Loaded ds) ?s2"
  let ?live = "live_events r before @ live_events r during"
  let ?sorted = "sort_key se_sequence (ds @ ?live)"
  have 1: "flowing ?s1 \<and> \<not> ss_backlogLoaded ?s1 \<and> ss_phase ?s1 = Subscribing \<and> ss_buffered ?s1 = live_events r before \<and>
      ss_lastWritten ?s1 = l \<and> chunk_events (ss_out ?s1) = []"
    using buffering [OF start_flowing _ assms(1), of "Some l" r] by (simp add: stream_start_def)
  have 2: "flowing ?s2 \<and> \<not> ss_backlogLoaded ?s2 \<and> ss_phase ?s2 = Loading \<and> ss_buffered ?s2 = ?live \<and>
      ss_lastWritten ?s2 = l \<and> chunk_events (ss_out ?s2) = []"
    using buffering [of "stream_step r Subscribed ?s1" during r] 1 assms(2) by (simp add: flowing_def Let_def)
  have 3: "flowing ?s3 \<and> ss_backlogLoaded ?s3 \<and> chunk_events (ss_out ?s3) = news l ?sorted \<and>
      ss_lastWritten ?s3 = last_of l (news l ?sorted)"
    using flowing_backlog [of ?s2 ?sorted] 2 by (simp add: write_backlog_def flowing_def)
  have out: "chunk_events (ss_out (stream_run r after ?s3)) =
      news l ?sorted @ news (last_of l (news l ?sorted)) (live_events r after)"
    using delivering [of ?s3 after r] 3 assms(3) by simp
  obtain j where j: "k \<le> j" "j \<le> n" "map se_sequence (filter (\<lambda>e. k < se_sequence e) ?live) = [k + 1..j]"
    "map se_sequence (filter (\<lambda>e. k < se_sequence e) (live_events r after)) = [j + 1..n]"
    using upto_append [of "map se_sequence (filter (\<lambda>e. k < se_sequence e) ?live)"
        "map se_sequence (filter (\<lambda>e. k < se_sequence e) (live_events r after))" "k + 1" n] assms(6,7) by auto
  have high: "{x \<in> se_sequence ` set ?live. k < x} = {k + 1..j}"
    using arg_cong [OF j(3), of set] by auto
  have "{x \<in> se_sequence ` set ?sorted. l < x} = {l + 1..j}"
    using assms(4,5) j(1) high by (auto simp: set_eq_iff image_Un)
  then have a: "map se_sequence (news l ?sorted) = [l + 1..j]" by (intro news_sorted) simp_all
  then have "last_of l (news l ?sorted) = j" using assms(5) j(1) by (intro last_of_upto) auto
  then have "map se_sequence (chunk_events (ss_out (stream_run r after ?s3))) = [l + 1..j] @ [j + 1..n]"
    using out a news_filter [OF j(4,1)] by simp
  also have "\<dots> = [l + 1..n]" using upto_split1 [of "l + 1" "j + 1" n] assms(5) j(1,2) by (cases "j = n") auto
  finally show ?thesis by (simp add: stream_run_def)
qed

section \<open>A concrete stream\<close>

definition demo_value :: "nat \<Rightarrow> json" where
  "demo_value n = JObj [(''id'', JStr ''e''), (''runId'', JStr ''r''), (''sequence'', JNum (int n)),
     (''type'', JStr ''agent.step''), (''message'', JStr ''m''), (''createdAt'', JStr ''t'')]"

definition demo_event :: "nat \<Rightarrow> stream_event" where
  "demo_event n = \<lparr>se_sequence = int n, se_type = ''agent.step'', se_value = demo_value n\<rparr>"

lemma demo_message: "message_event ''r'' (stringify (demo_value n)) = Some (demo_event n)"
proof -
  have "printable (demo_value n)" by (simp add: demo_value_def)
  from parse_stringify [OF this] show ?thesis
    by (simp add: message_event_def public_event_def demo_value_def demo_event_def json_member_def is_string_def
        publicAgentEventTypes_def agentEventTypes_def)
qed

theorem stream_delivers_all_witness:
  "map se_sequence (chunk_events (ss_out (stream_run ''r'' ([Message (stringify (demo_value 3))] @ [Subscribed] @
      [HeartbeatTick, Message (stringify (demo_value 4))] @ [Loaded [demo_event 2, demo_event 3]] @
      [Message (stringify (demo_value 2)), Message (stringify (demo_value 5))]) (stream_start (Some 1) [])))) = [2, 3, 4, 5]"
proof -
  have "map se_sequence (chunk_events (ss_out (stream_run ''r'' ([Message (stringify (demo_value 3))] @ [Subscribed] @
      [HeartbeatTick, Message (stringify (demo_value 4))] @ [Loaded [demo_event 2, demo_event 3]] @
      [Message (stringify (demo_value 2)), Message (stringify (demo_value 5))]) (stream_start (Some 1) [])))) = [1 + 1..5]"
  proof (rule stream_delivers_all [where k = 3])
    show "se_sequence ` set [demo_event 2, demo_event 3] = {1 + 1..3}" by (auto simp: demo_event_def)
    show "map se_sequence (filter (\<lambda>e. 3 < se_sequence e) (live_events ''r'' ([Message (stringify (demo_value 3))] @
        [HeartbeatTick, Message (stringify (demo_value 4))] @
        [Message (stringify (demo_value 2)), Message (stringify (demo_value 5))]))) = [3 + 1..5]"
      by (simp add: live_events_def map_filter_def demo_message, simp add: demo_event_def upto.simps)
  qed (simp_all add: traffic_def)
  then show ?thesis by (simp add: upto.simps)
qed

end
