(* ===== verification/StreamClient.thy ===== *)
theory StreamClient
  imports EventStream
begin

text \<open>
  The browser's end of the event stream (\<open>apps/web/src/services/agentEventStream.ts\<close>, and the monitor
  of a run that uses it, \<open>agentRunMonitor.ts\<close>): the parser
  of server-sent events, which sees the text in arbitrary pieces, and the loop that reconnects. The
  environment, with the abort signal, is an argument: the callbacks, \<open>fetch\<close>, the reads of the body
  (decoded as text) and the sleep are computations, each of which may fail.
\<close>

section \<open>Data\<close>

definition RETRY_DELAYS_MS :: "nat list" where
  "RETRY_DELAYS_MS = [250, 500, 1000]"

definition TERMINAL_EVENT_TYPES :: "string list" where
  "TERMINAL_EVENT_TYPES = [''run.completed'', ''run.failed'', ''run.cancelled'']"

definition PUBLIC_AGENT_EVENT_TYPES :: "string list" where
  "PUBLIC_AGENT_EVENT_TYPES = [''run.created'', ''run.started'', ''agent.step'', ''agent.plan'', ''file.changed'',
     ''validation.started'', ''validation.step'', ''validation.failed'', ''validation.passed'', ''repair.started'',
     ''run.completed'', ''run.failed'', ''run.cancelled'']"

record client_event =
  ce_sequence :: int
  ce_type :: string
  ce_message :: string
  ce_payload :: "json option"

text \<open>The error classes of the module, an aborted wait, and every other error.\<close>

datatype client_error = AbortError | HttpError int string | ProtocolError string | RetryableError string
  | ApplicationError client_error | OtherError string

record sse_frame =
  fr_id :: "string option"
  fr_event :: "string option"
  fr_data :: "string list"

record 's stream_response =
  rs_ok :: bool
  rs_status :: int
  rs_statusText :: string
  rs_contentType :: "string option"
  rs_body :: "(('s, client_error, string) comp list \<times> ('s, client_error, unit) comp) option"

text \<open>A body is the reads that bring text and the read that reports the end. \<open>cl_aborted\<close> is the
  state of the signal.\<close>

record 's client_env =
  cl_aborted :: "'s \<Rightarrow> bool"
  cl_onEvent :: "client_event \<Rightarrow> ('s, client_error, unit) comp"
  cl_onState :: "string \<Rightarrow> ('s, client_error, unit) comp"
  cl_fetch :: "int option \<Rightarrow> ('s, client_error, 's stream_response) comp"
  cl_sleep :: "nat \<Rightarrow> ('s, client_error, unit) comp"

text \<open>\<open>lastEventId\<close> and \<open>lastSequence\<close>, which \<open>onProgress\<close> updates also when an error follows.\<close>

record progress =
  pg_lastEventId :: "int option"
  pg_lastSequence :: "int option"

record consumer =
  cn_frame :: sse_frame
  cn_accepted :: "int option"
  cn_id :: "int option"
  cn_terminal :: bool

datatype stream_outcome = TerminalOutcome "int option" | Exhausted "int option"

type_synonym ('s, 'a) client = "('s \<times> progress, client_error, 'a) comp"

section \<open>Parsing a frame\<close>

definition empty_frame :: sse_frame where
  "empty_frame = \<lparr>fr_id = None, fr_event = None, fr_data = []\<rparr>"

definition isNonNegativeInteger :: "string \<Rightarrow> bool" where
  "isNonNegativeInteger s \<longleftrightarrow> s \<noteq> [] \<and> list_all is_digit s"

definition invalid_frame :: "string \<Rightarrow> client_error" where
  "invalid_frame msg = ProtocolError (''Invalid agent event stream frame: '' @ msg)"

definition client_event_of :: "(string \<times> json) list \<Rightarrow> client_event option" where
  "client_event_of ms = (case (map_of ms ''sequence'', map_of ms ''type'', map_of ms ''message'') of
     (Some (JNum n), Some (JStr t), Some (JStr m)) \<Rightarrow>
       if 0 \<le> n \<and> t \<in> set PUBLIC_AGENT_EVENT_TYPES
       then (case map_of ms ''payload'' of
               None \<Rightarrow> Some \<lparr>ce_sequence = n, ce_type = t, ce_message = m, ce_payload = None\<rparr>
             | Some (JObj p) \<Rightarrow> Some \<lparr>ce_sequence = n, ce_type = t, ce_message = m, ce_payload = Some (JObj p)\<rparr>
             | Some _ \<Rightarrow> None)
       else None
   | _ \<Rightarrow> None)"

definition parseAgentEvent :: "sse_frame \<Rightarrow> client_error + (client_event \<times> int) option" where
  "parseAgentEvent frame =
     (if fr_data frame = [] then Inr None
      else case JSON_parse (join_with [newline] (fr_data frame)) of
        None \<Rightarrow> Inl (invalid_frame ''data is not valid JSON'')
      | Some (JObj ms) \<Rightarrow>
          (case client_event_of ms of
             None \<Rightarrow> Inl (invalid_frame ''invalid event fields'')
           | Some ev \<Rightarrow>
               if fr_event frame \<noteq> None \<and> fr_event frame \<noteq> Some (ce_type ev)
               then Inl (invalid_frame ''event type does not match data'')
               else (case fr_id frame of
                       Some i \<Rightarrow> if isNonNegativeInteger i \<and> digits_value i = ce_sequence ev
                         then Inr (Some (ev, digits_value i)) else Inl (invalid_frame ''id does not match sequence'')
                     | None \<Rightarrow> Inl (invalid_frame ''id does not match sequence'')))
      | Some _ \<Rightarrow> Inl (invalid_frame ''data must be an object''))"

definition processLine :: "sse_frame \<Rightarrow> string \<Rightarrow> sse_frame" where
  "processLine frame line =
     (if starts_with '':'' line then frame
      else let name = takeWhile (\<lambda>c. c \<noteq> CHR '':'') line; rest = drop (length name + 1) line;
               value = (if starts_with '' '' rest then tl rest else rest)
           in if name = ''id'' then frame\<lparr>fr_id := Some value\<rparr>
              else if name = ''event'' then frame\<lparr>fr_event := Some value\<rparr>
              else if name = ''data'' then frame\<lparr>fr_data := fr_data frame @ [value]\<rparr> else frame)"

section \<open>Lines\<close>

definition carriage_return :: char where
  "carriage_return = char_of (13 :: nat)"

definition is_break :: "char \<Rightarrow> bool" where
  "is_break c \<longleftrightarrow> c = carriage_return \<or> c = newline"

text \<open>The first line of the buffer and what follows it. A carriage return at the end of the buffer
  waits for the next piece, which may start with the newline that belongs to it.\<close>

definition next_line :: "bool \<Rightarrow> string \<Rightarrow> (string \<times> string) option" where
  "next_line endOfStream buffer = (case dropWhile (\<lambda>c. \<not> is_break c) buffer of
     [] \<Rightarrow> None
   | d # rest \<Rightarrow> if d = carriage_return \<and> rest = [] \<and> \<not> endOfStream then None
       else Some (takeWhile (\<lambda>c. \<not> is_break c) buffer,
         if d = carriage_return \<and> starts_with [newline] rest then tl rest else rest))"

lemma next_line_shorter: "next_line e buffer = Some (line, rest) \<Longrightarrow> length rest < length buffer"
proof -
  assume l: "next_line e buffer = Some (line, rest)"
  then obtain d t where t: "dropWhile (\<lambda>c. \<not> is_break c) buffer = d # t" "rest = t \<or> rest = tl t"
    by (auto simp: next_line_def split: list.splits if_splits)
  have "length (d # t) \<le> length buffer" unfolding t(1) [symmetric] by (rule length_dropWhile_le)
  then show ?thesis using t(2) by auto
qed

section \<open>Reading a response\<close>

definition throwIfAborted :: "'s client_env \<Rightarrow> ('s, unit) client" where
  "throwIfAborted env = seq (call (reads (cl_aborted env))) (\<lambda>a. if a then throw AbortError else ret ())"

definition client_dispatch :: "'s client_env \<Rightarrow> client_event \<Rightarrow> ('s, unit) client" where
  "client_dispatch env ev = catch (call (cl_onEvent env ev)) (\<lambda>e.
     seq (call (reads (cl_aborted env))) (\<lambda>a.
     if e = AbortError \<or> a then throw AbortError else throw (ApplicationError e)))"

definition dispatchFrame :: "'s client_env \<Rightarrow> consumer \<Rightarrow> ('s, consumer) client" where
  "dispatchFrame env c = seq (lift_result (parseAgentEvent (cn_frame c))) (\<lambda>parsed.
     let c = c\<lparr>cn_frame := empty_frame\<rparr>
     in case parsed of
          None \<Rightarrow> ret c
        | Some (ev, i) \<Rightarrow>
            if (case cn_accepted c of Some n \<Rightarrow> ce_sequence ev \<le> n | None \<Rightarrow> False) then ret c
            else seq (client_dispatch env ev) (\<lambda>_.
                 seq (change (\<lambda>p. p\<lparr>pg_lastEventId := Some i, pg_lastSequence := Some (ce_sequence ev)\<rparr>)) (\<lambda>_.
                 seq (throwIfAborted env) (\<lambda>_.
                 ret (c\<lparr>cn_accepted := Some (ce_sequence ev), cn_id := Some i,
                   cn_terminal := (cn_terminal c \<or> ce_type ev \<in> set TERMINAL_EVENT_TYPES)\<rparr>)))))"

function processBufferedLines :: "'s client_env \<Rightarrow> bool \<Rightarrow> string \<Rightarrow> consumer \<Rightarrow> ('s, string \<times> consumer) client" where
  "processBufferedLines env endOfStream buffer c = (case next_line endOfStream buffer of
     None \<Rightarrow> ret (buffer, c)
   | Some (line, rest) \<Rightarrow>
       seq (if line = [] then dispatchFrame env c else ret (c\<lparr>cn_frame := processLine (cn_frame c) line\<rparr>)) (\<lambda>c.
       if cn_terminal c then ret (rest, c) else processBufferedLines env endOfStream rest c))"
  by pat_completeness auto
termination
  by (relation "measure (\<lambda>(env, e, buffer, c). length buffer)") (auto dest: next_line_shorter)

fun consume_reads :: "'s client_env \<Rightarrow> ('s, client_error, string) comp list \<Rightarrow> ('s, client_error, unit) comp \<Rightarrow>
    string \<Rightarrow> consumer \<Rightarrow> ('s, consumer) client" where
  "consume_reads env [] done_read buffer c =
     seq (throwIfAborted env) (\<lambda>_.
     seq (call done_read) (\<lambda>_.
     seq (processBufferedLines env True buffer c) (\<lambda>(_, c). ret c)))"
| "consume_reads env (r # rs) done_read buffer c =
     seq (throwIfAborted env) (\<lambda>_.
     seq (call r) (\<lambda>piece.
     seq (processBufferedLines env False (buffer @ piece) c) (\<lambda>(buffer, c).
     if cn_terminal c then ret c else consume_reads env rs done_read buffer c)))"

definition consumeResponse :: "'s client_env \<Rightarrow> ('s, client_error, string) comp list \<times> ('s, client_error, unit) comp \<Rightarrow>
    int option \<Rightarrow> ('s, consumer) client" where
  "consumeResponse env body lastSequence = consume_reads env (fst body) (snd body) []
     \<lparr>cn_frame = empty_frame, cn_accepted = lastSequence, cn_id = None, cn_terminal = False\<rparr>"

section \<open>Reconnecting\<close>

definition normalizeReconnectAttempts :: "int option \<Rightarrow> nat" where
  "normalizeReconnectAttempts value = (case value of None \<Rightarrow> 3 | Some n \<Rightarrow> if n < 0 then 0 else nat n)"

definition retryDelay :: "nat \<Rightarrow> nat" where
  "retryDelay n = RETRY_DELAYS_MS ! min (n - 1) (length RETRY_DELAYS_MS - 1)"

definition response_error :: "'s stream_response \<Rightarrow> client_error" where
  "response_error r = (if 500 \<le> rs_status r
     then RetryableError (''Agent event stream request failed ('' @ show_int (rs_status r) @ '')'')
     else HttpError (rs_status r) (rs_statusText r))"

text \<open>One connection: the answer is the last event id of a stream that ended with its run.\<close>

definition client_attempt :: "'s client_env \<Rightarrow> ('s, int option) client" where
  "client_attempt env = seq (reads (pg_lastEventId \<circ> snd)) (\<lambda>lastEventId.
     seq (call (cl_fetch env lastEventId)) (\<lambda>response.
     if \<not> rs_ok response then throw (response_error response)
     else case rs_body response of
       None \<Rightarrow> throw (ProtocolError ''Agent event stream response has no body'')
     | Some body \<Rightarrow>
         if \<not> (case rs_contentType response of Some t \<Rightarrow> has_substring ''text/event-stream'' (lower t) | None \<Rightarrow> False)
         then throw (ProtocolError ''Agent event stream response is not text/event-stream'')
         else seq (catch (call (cl_onState env ''connected'')) (\<lambda>e. throw (ApplicationError e))) (\<lambda>_.
              seq (reads (pg_lastSequence \<circ> snd)) (\<lambda>lastSequence.
              seq (consumeResponse env body lastSequence) (\<lambda>c.
              seq (change (\<lambda>p. p\<lparr>pg_lastSequence := cn_accepted c,
                     pg_lastEventId := (case cn_id c of Some i \<Rightarrow> Some i | None \<Rightarrow> pg_lastEventId p)\<rparr>)) (\<lambda>_.
              seq (throwIfAborted env) (\<lambda>_.
              if cn_terminal c then reads (pg_lastEventId \<circ> snd)
              else throw (RetryableError ''Agent event stream ended before a terminal event''))))))))"

text \<open>What an error of a connection leads to: another error, or a retry.\<close>

definition client_failure :: "'s client_env \<Rightarrow> client_error \<Rightarrow> ('s, unit) client" where
  "client_failure env e = seq (call (reads (cl_aborted env))) (\<lambda>a.
     if e = AbortError \<or> a then throw AbortError
     else case e of
       ApplicationError original \<Rightarrow> throw original
     | HttpError _ _ \<Rightarrow> throw e
     | ProtocolError _ \<Rightarrow> throw e
     | _ \<Rightarrow> ret ())"

function client_loop :: "'s client_env \<Rightarrow> nat \<Rightarrow> nat \<Rightarrow> ('s, stream_outcome) client" where
  "client_loop env maximum reconnects =
     seq (throwIfAborted env) (\<lambda>_.
     seq (catch (seq (client_attempt env) (\<lambda>i. ret (Some i))) (\<lambda>e. seq (client_failure env e) (\<lambda>_. ret None))) (\<lambda>ended.
     case ended of
       Some i \<Rightarrow> ret (TerminalOutcome i)
     | None \<Rightarrow>
         if maximum \<le> reconnects then seq (reads (pg_lastEventId \<circ> snd)) (\<lambda>i. ret (Exhausted i))
         else seq (call (cl_onState env ''retrying'')) (\<lambda>_.
              seq (call (cl_sleep env (retryDelay (reconnects + 1)))) (\<lambda>_.
              client_loop env maximum (reconnects + 1)))))"
  by pat_completeness auto
termination
  by (relation "measure (\<lambda>(env, maximum, reconnects). maximum - reconnects)") auto

declare processBufferedLines.simps [simp del] client_loop.simps [simp del]

definition streamAgentEvents :: "'s client_env \<Rightarrow> int option \<Rightarrow> int option \<Rightarrow> ('s, client_error, stream_outcome) comp" where
  "streamAgentEvents env lastEventId maxReconnectAttempts = (\<lambda>s.
     case client_loop env (normalizeReconnectAttempts maxReconnectAttempts) 0
       (s, \<lparr>pg_lastEventId = lastEventId, pg_lastSequence = lastEventId\<rparr>) of (r, (s', _)) \<Rightarrow> (r, s'))"

section \<open>Waiting for a run (apps/web/src/services/agentRunMonitor.ts)\<close>

definition MAX_FALLBACK_ATTEMPTS :: nat where
  "MAX_FALLBACK_ATTEMPTS = 60"

definition FALLBACK_DELAY_MS :: nat where
  "FALLBACK_DELAY_MS = 500"

definition TERMINAL_RUN_STATUSES :: "agent_run_status list" where
  "TERMINAL_RUN_STATUSES = [Completed, Failed, Cancelled]"

text \<open>The stream, \<open>getRun\<close>, whose answer has the status of the run, and the delay.\<close>

record ('s, 'r) monitor_env =
  mo_aborted :: "'s \<Rightarrow> bool"
  mo_stream :: "('s, client_error, stream_outcome) comp"
  mo_getRun :: "('s, client_error, agent_run_status \<times> 'r) comp"
  mo_delay :: "nat \<Rightarrow> ('s, client_error, unit) comp"

definition monitor_check :: "('s, 'r) monitor_env \<Rightarrow> ('s, client_error, unit) comp" where
  "monitor_check env = seq (reads (mo_aborted env)) (\<lambda>a. if a then throw AbortError else ret ())"

fun fallback_poll :: "('s, 'r) monitor_env \<Rightarrow> nat \<Rightarrow> ('s, client_error, agent_run_status \<times> 'r) comp" where
  "fallback_poll env 0 = throw (OtherError ''Timed out waiting for agent run'')"
| "fallback_poll env (Suc remaining) =
     seq (monitor_check env) (\<lambda>_.
     seq (mo_getRun env) (\<lambda>response.
     seq (monitor_check env) (\<lambda>_.
     if fst response \<in> set TERMINAL_RUN_STATUSES then ret response
     else seq (if 0 < remaining then seq (mo_delay env FALLBACK_DELAY_MS) (\<lambda>_. monitor_check env) else ret ()) (\<lambda>_.
          fallback_poll env remaining))))"

definition monitorAgentRun :: "('s, 'r) monitor_env \<Rightarrow> ('s, client_error, agent_run_status \<times> 'r) comp" where
  "monitorAgentRun env =
     seq (monitor_check env) (\<lambda>_.
     seq (mo_stream env) (\<lambda>result.
     seq (monitor_check env) (\<lambda>_.
     case result of
       TerminalOutcome _ \<Rightarrow> seq (mo_getRun env) (\<lambda>response. seq (monitor_check env) (\<lambda>_. ret response))
     | Exhausted _ \<Rightarrow> fallback_poll env MAX_FALLBACK_ATTEMPTS)))"

text \<open>The statuses the monitor waits for leave out one that is terminal on the server.\<close>

lemma conflict_times_out:
  assumes "\<And>s. \<not> mo_aborted env s" "\<And>s. mo_stream env s = (Inr (Exhausted i), s)"
    and "\<And>s. mo_getRun env s = (Inr (CompletedWithConflict, d), s)" "\<And>ms s. mo_delay env ms s = (Inr (), s)"
  shows "isTerminalAgentRunStatus CompletedWithConflict \<and>
    fst (monitorAgentRun env s) = Inl (OtherError ''Timed out waiting for agent run'')"
proof -
  have check: "monitor_check env s = (Inr (), s)" for s
    using assms(1) by (simp add: monitor_check_def seq_def reads_def ret_def)
  have "fallback_poll env n s = (Inl (OtherError ''Timed out waiting for agent run''), s)" for n s
    by (induction n) (simp_all add: throw_def seq_def ret_def check assms(3,4) TERMINAL_RUN_STATUSES_def)
  then show ?thesis
    by (simp add: monitorAgentRun_def check assms(2) seq_def terminal_iff)
qed

section \<open>The pieces of the text do not matter\<close>

lemma seq_assoc: "seq (seq m f) g = seq m (\<lambda>a. seq (f a) g)"
  by (auto simp: seq_def split: prod.split sum.split)

lemma seq_ret [simp]: "seq (ret a) f = f a" "call (ret a) = ret a"
  by (auto simp: seq_def ret_def call_def)

lemma seq_if: "seq (if b then m else n) f = (if b then seq m f else seq n f)"
  by simp

lemma next_line_extend:
  assumes "next_line False buffer = Some (line, rest)"
  shows "next_line e (buffer @ t) = Some (line, rest @ t)"
proof -
  obtain d r where d: "dropWhile (\<lambda>c. \<not> is_break c) buffer = d # r"
    using assms by (auto simp: next_line_def split: list.splits)
  have "dropWhile (\<lambda>c. \<not> is_break c) (buffer @ t) = d # r @ t"
    "takeWhile (\<lambda>c. \<not> is_break c) (buffer @ t) = takeWhile (\<lambda>c. \<not> is_break c) buffer"
    using d by (induction buffer) (auto split: if_splits)
  then show ?thesis using assms d by (cases r) (auto simp: next_line_def split: if_splits)
qed

lemma process_extend:
  "\<not> cn_terminal c \<Longrightarrow>
   seq (processBufferedLines env False buffer c) (\<lambda>(rest, c).
     if cn_terminal c then ret c else seq (processBufferedLines env e (rest @ t) c) (\<lambda>(_, c). ret c)) =
   seq (processBufferedLines env e (buffer @ t) c) (\<lambda>(_, c). ret c)"
proof (induction "length buffer" arbitrary: buffer c rule: less_induct)
  case less
  show ?case
  proof (cases "next_line False buffer")
    case None
    then show ?thesis using less.prems by (subst processBufferedLines.simps) simp
  next
    case (Some x)
    obtain line rest where l: "next_line False buffer = Some (line, rest)" using Some by (cases x) auto
    have step: "(if cn_terminal c then ret c else seq (processBufferedLines env False rest c) (\<lambda>(rest, c).
        if cn_terminal c then ret c else seq (processBufferedLines env e (rest @ t) c) (\<lambda>(_, c). ret c))) =
      (if cn_terminal c then ret c else seq (processBufferedLines env e (rest @ t) c) (\<lambda>(_, c). ret c))" for c
      using less.hyps [OF next_line_shorter [OF l], of c] by simp
    note unfolded = processBufferedLines.simps [of env False buffer c] processBufferedLines.simps [of env e "buffer @ t" c]
    let ?m = "if line = [] then dispatchFrame env c else ret (c\<lparr>cn_frame := processLine (cn_frame c) line\<rparr>)"
    have "seq (processBufferedLines env False buffer c) (\<lambda>(rest, c).
        if cn_terminal c then ret c else seq (processBufferedLines env e (rest @ t) c) (\<lambda>(_, c). ret c)) =
      seq ?m (\<lambda>c. if cn_terminal c then ret c else seq (processBufferedLines env False rest c) (\<lambda>(rest, c).
        if cn_terminal c then ret c else seq (processBufferedLines env e (rest @ t) c) (\<lambda>(_, c). ret c)))"
      unfolding unfolded(1) l option.case prod.case seq_assoc by (rule arg_cong [of _ _ "seq ?m"]) (auto simp: seq_if)
    also have "\<dots> = seq ?m (\<lambda>c. if cn_terminal c then ret c else seq (processBufferedLines env e (rest @ t) c) (\<lambda>(_, c). ret c))"
      unfolding step ..
    also have "\<dots> = seq (processBufferedLines env e (buffer @ t) c) (\<lambda>(_, c). ret c)"
      unfolding unfolded(2) next_line_extend [OF l] option.case prod.case seq_assoc
      by (rule arg_cong [of _ _ "seq ?m"]) (auto simp: seq_if)
    finally show ?thesis .
  qed
qed

text \<open>An environment whose signal is never aborted.\<close>

lemma not_aborted: "(\<And>s. \<not> cl_aborted env s) \<Longrightarrow> throwIfAborted env = ret ()"
  by (rule ext) (auto simp: throwIfAborted_def call_def reads_def seq_def ret_def split: prod.split)

lemma consume_pieces:
  assumes "\<And>s. \<not> cl_aborted env s"
  shows "\<not> cn_terminal c \<Longrightarrow> consume_reads env (map ret ts) (ret ()) buffer c =
    seq (processBufferedLines env True (buffer @ concat ts) c) (\<lambda>(_, c). ret c)"
proof (induction ts arbitrary: buffer c)
  case Nil
  then show ?case by (simp add: not_aborted [OF assms])
next
  case (Cons t ts)
  have IH: "(if cn_terminal c then ret c else consume_reads env (map ret ts) (ret ()) rest c) =
      (if cn_terminal c then ret c else seq (processBufferedLines env True (rest @ concat ts) c) (\<lambda>(_, c). ret c))" for rest c
    using Cons.IH [of c rest] by simp
  show ?case
    using process_extend [OF Cons.prems, of env "buffer @ t" True "concat ts"]
    by (simp add: not_aborted [OF assms] IH)
qed

section \<open>What the server writes is what the client sees\<close>

lemma public_types: "PUBLIC_AGENT_EVENT_TYPES = publicAgentEventTypes"
  by (simp add: PUBLIC_AGENT_EVENT_TYPES_def publicAgentEventTypes_def agentEventTypes_def)

lemma next_line_text:
  "list_all (\<lambda>c. \<not> is_break c) line \<Longrightarrow> next_line e (line @ newline # rest) = Some (line, rest)"
proof -
  assume l: "list_all (\<lambda>c. \<not> is_break c) line"
  have "is_break newline" "newline \<noteq> carriage_return" by (simp_all add: is_break_def carriage_return_def)
  then show ?thesis using l by (auto simp: next_line_def list_all_iff dropWhile_append2 takeWhile_append2)
qed

lemma process_text:
  assumes "list_all (\<lambda>c. \<not> is_break c) line"
  shows "processBufferedLines env e (line @ newline # rest) c =
    seq (if line = [] then dispatchFrame env c else ret (c\<lparr>cn_frame := processLine (cn_frame c) line\<rparr>)) (\<lambda>c.
    if cn_terminal c then ret (rest, c) else processBufferedLines env e rest c)"
  by (subst processBufferedLines.simps) (simp add: next_line_text [OF assms])

lemma is_break_code: "is_break c \<longleftrightarrow> (of_char c :: nat) = 13 \<or> (of_char c :: nat) = 10"
  by (auto simp: is_break_def carriage_return_def code_eq [symmetric])

lemma plain_json_char: "list_all (\<lambda>c. \<not> is_break c) (json_char c)"
proof -
  have "\<not> is_break (hex_digit k)" if "k < 16" for k
    using hex_digit_value [OF that] by (auto simp: hex_value_def Let_def is_break_code split: if_splits)
  moreover have "(of_char c :: nat) < 256" by (rule code_less)
  ultimately show ?thesis by (auto simp: json_char_def Let_def is_break_code)
qed

lemma plain_show_int: "list_all (\<lambda>c. \<not> is_break c) (show_int i)"
proof -
  have "\<not> is_break c" if "is_digit c" for c
    using that by (auto simp: is_break_code is_digit_def Let_def)
  then have "list_all (\<lambda>c. \<not> is_break c) (show_nat n)" for n
    using show_nat_digits [of n] by (auto simp: list_all_iff)
  then show ?thesis by (simp add: show_int_def is_break_code)
qed

lemma plain_concat: "(\<And>x. x \<in> set xs \<Longrightarrow> list_all P x) \<Longrightarrow> list_all P (concat xs)"
  by (induction xs) auto

lemma plain_join: "(\<And>x. x \<in> set xs \<Longrightarrow> list_all P x) \<Longrightarrow> list_all P s \<Longrightarrow> list_all P (join_with s xs)"
proof (induction xs)
  case (Cons x xs)
  then show ?case by (cases xs) auto
qed simp

lemma plain_json_string: "list_all (\<lambda>c. \<not> is_break c) (json_string s)"
  unfolding json_string_def
  using plain_concat [of "map json_char s" "\<lambda>c. \<not> is_break c"] plain_json_char by (auto simp: quote_mark_def is_break_code)

text \<open>The text of a value is one line.\<close>

lemma plain_stringify: "printable j \<Longrightarrow> list_all (\<lambda>c. \<not> is_break c) (stringify j)"
proof (induction j rule: stringify.induct)
  case (6 xs)
  have "list_all (\<lambda>c. \<not> is_break c) (join_with '','' (map stringify xs))"
    using 6 by (intro plain_join) (auto simp: is_break_code)
  then show ?case by (simp add: is_break_code)
next
  case (7 ms)
  have "list_all (\<lambda>c. \<not> is_break c) (json_string k @ '':'' @ stringify v)" if "(k, v) \<in> set ms" for k v
    using 7 that plain_json_string [of k] by (fastforce simp: is_break_code)
  then have "list_all (\<lambda>c. \<not> is_break c) (join_with '','' (map (\<lambda>(k, v). json_string k @ '':'' @ stringify v) ms))"
    by (intro plain_join) (auto simp: is_break_code)
  then show ?case by (simp add: is_break_code)
qed (auto simp: plain_show_int plain_json_string, auto simp: is_break_code)

text \<open>What the client makes of an event, and the events whose text it accepts.\<close>

definition seen :: "stream_event \<Rightarrow> client_event" where
  "seen e = \<lparr>ce_sequence = se_sequence e, ce_type = se_type e,
     ce_message = (case json_member ''message'' (se_value e) of Some (JStr m) \<Rightarrow> m | _ \<Rightarrow> []),
     ce_payload = json_member ''payload'' (se_value e)\<rparr>"

definition sendable :: "object_id \<Rightarrow> stream_event \<Rightarrow> bool" where
  "sendable r e \<longleftrightarrow> public_event r (se_value e) = Some e \<and> printable (se_value e) \<and>
     (case json_member ''payload'' (se_value e) of None \<Rightarrow> True | Some (JObj _) \<Rightarrow> True | Some _ \<Rightarrow> False)"

lemma sendable_event:
  assumes "sendable r e"
  obtains ms where "se_value e = JObj ms" "client_event_of ms = Some (seen e)" "0 \<le> se_sequence e" "se_type e \<in> set publicAgentEventTypes"
proof -
  obtain ms where ms: "se_value e = JObj ms"
    using assms by (auto simp: sendable_def public_event_def json_member_def split: json.splits option.splits)
  have "map_of ms ''sequence'' = Some (JNum (se_sequence e))" "map_of ms ''type'' = Some (JStr (se_type e))"
    "is_string (map_of ms ''message'')" and e: "0 \<le> se_sequence e" "se_type e \<in> set publicAgentEventTypes"
    using assms ms by (auto simp: sendable_def public_event_def json_member_def split: json.splits option.splits if_splits)
  moreover obtain m where "map_of ms ''message'' = Some (JStr m)"
    using calculation(3) by (auto simp: is_string_def split: option.splits json.splits)
  moreover have "map_of ms ''payload'' = None \<or> (\<exists>p. map_of ms ''payload'' = Some (JObj p))"
    using assms ms by (cases "map_of ms ''payload''") (auto simp: sendable_def json_member_def split: json.splits)
  ultimately have "client_event_of ms = Some (seen e)"
    using e by (elim disjE exE) (simp_all add: client_event_of_def seen_def json_member_def ms public_types)
  then show thesis using that ms e by blast
qed

lemma digits_of_show: "0 \<le> i \<Longrightarrow> isNonNegativeInteger (show_int i) \<and> digits_value (show_int i) = i"
  using show_nat_digits [of "nat i"] digits_value_show [of "nat i"] by (simp add: isNonNegativeInteger_def show_int_def)

lemma parse_sent:
  assumes "sendable r e"
  shows "parseAgentEvent \<lparr>fr_id = Some (show_int (se_sequence e)), fr_event = Some (se_type e), fr_data = [stringify (se_value e)]\<rparr> =
    Inr (Some (seen e, se_sequence e))"
proof -
  obtain ms where ms: "se_value e = JObj ms" "client_event_of ms = Some (seen e)" "0 \<le> se_sequence e"
    using assms by (rule sendable_event)
  have "JSON_parse (stringify (se_value e)) = Some (JObj ms)"
    using parse_stringify [of "se_value e"] assms ms(1) by (simp add: sendable_def)
  then show ?thesis
    using ms(2) digits_of_show [OF ms(3)] by (simp add: parseAgentEvent_def seen_def)
qed

text \<open>A client that keeps what it is given.\<close>

definition recording :: "client_event list client_env" where
  "recording = \<lparr>cl_aborted = (\<lambda>_. False), cl_onEvent = (\<lambda>ev. modify (\<lambda>s. s @ [ev])), cl_onState = (\<lambda>_. ret ()),
     cl_fetch = (\<lambda>_. throw (OtherError [])), cl_sleep = (\<lambda>_. ret ())\<rparr>"

fun until_end :: "stream_event list \<Rightarrow> stream_event list" where
  "until_end [] = []"
| "until_end (e # es) = (if se_type e \<in> set TERMINAL_EVENT_TYPES then [e] else e # until_end es)"

definition sent_frame :: "stream_event \<Rightarrow> sse_frame" where
  "sent_frame e = \<lparr>fr_id = Some (show_int (se_sequence e)), fr_event = Some (se_type e), fr_data = [stringify (se_value e)]\<rparr>"

lemma dispatch_sent:
  assumes "sendable r e" "cn_frame c = sent_frame e" "cn_accepted c = Some n" "n < se_sequence e"
  shows "dispatchFrame recording c (s, p) =
    (Inr (c\<lparr>cn_frame := empty_frame, cn_accepted := Some (se_sequence e), cn_id := Some (se_sequence e),
       cn_terminal := (cn_terminal c \<or> se_type e \<in> set TERMINAL_EVENT_TYPES)\<rparr>),
     (s @ [seen e], p\<lparr>pg_lastEventId := Some (se_sequence e), pg_lastSequence := Some (se_sequence e)\<rparr>))"
proof -
  have "ce_sequence (seen e) = se_sequence e" "ce_type (seen e) = se_type e" by (simp_all add: seen_def)
  then show ?thesis
    using assms parse_sent [OF assms(1)] not_aborted [of recording]
    by (simp add: dispatchFrame_def sent_frame_def lift_result_def seq_def client_dispatch_def catch_def call_def recording_def
        modify_def change_def ret_def Let_def)
qed

lemma lines_read:
  "processLine f (''id: '' @ x) = f\<lparr>fr_id := Some x\<rparr>" "processLine f (''event: '' @ x) = f\<lparr>fr_event := Some x\<rparr>"
  "processLine f (''data: '' @ x) = f\<lparr>fr_data := fr_data f @ [x]\<rparr>" "processLine f '': heartbeat'' = f"
  by (simp_all add: processLine_def Let_def starts_with_def)

lemma plain_types: "t \<in> set publicAgentEventTypes \<Longrightarrow> list_all (\<lambda>c. \<not> is_break c) t"
  by (auto simp: publicAgentEventTypes_def agentEventTypes_def is_break_code)

lemma process_blank: "processBufferedLines env e (newline # rest) c = seq (dispatchFrame env c) (\<lambda>c.
    if cn_terminal c then ret (rest, c) else processBufferedLines env e rest c)"
  using process_text [of "[]" env e rest c] by simp

lemma process_event:
  assumes "sendable r e" "\<not> cn_terminal c" "cn_frame c = empty_frame"
  shows "processBufferedLines env True (toSseFrame e @ rest) c =
    seq (dispatchFrame env (c\<lparr>cn_frame := sent_frame e\<rparr>)) (\<lambda>c.
      if cn_terminal c then ret (rest, c) else processBufferedLines env True rest c)"
proof -
  obtain ms where "se_type e \<in> set publicAgentEventTypes" using assms(1) by (rule sendable_event)
  moreover have "printable (se_value e)" using assms(1) by (simp add: sendable_def)
  ultimately have plain: "list_all (\<lambda>c. \<not> is_break c) (''id: '' @ show_int (se_sequence e))"
    "list_all (\<lambda>c. \<not> is_break c) (''event: '' @ se_type e)" "list_all (\<lambda>c. \<not> is_break c) (''data: '' @ stringify (se_value e))"
    by (simp_all add: plain_show_int plain_types plain_stringify) (simp_all add: is_break_code)
  have shape: "toSseFrame e @ rest = (''id: '' @ show_int (se_sequence e)) @ newline # ((''event: '' @ se_type e) @ newline #
      ((''data: '' @ stringify (se_value e)) @ newline # ([] @ newline # rest)))"
    by (simp add: toSseFrame_def)
  have frame: "fr_data_update (\<lambda>_. fr_data (empty_frame\<lparr>fr_id := Some i, fr_event := Some t\<rparr>) @ [d])
      (empty_frame\<lparr>fr_id := Some i, fr_event := Some t\<rparr>) = \<lparr>fr_id = Some i, fr_event = Some t, fr_data = [d]\<rparr>" for i t d
    by (simp add: empty_frame_def)
  show ?thesis
    unfolding shape process_text [OF plain(1)] process_text [OF plain(2)] process_text [OF plain(3)]
    using assms(2,3) by (simp add: process_blank lines_read [simplified] sent_frame_def empty_frame_def)
qed

lemma process_heartbeat:
  assumes "\<not> cn_terminal c" "cn_frame c = empty_frame"
  shows "processBufferedLines env True (chunk_text HeartbeatChunk @ rest) c = processBufferedLines env True rest c"
proof -
  have plain: "list_all (\<lambda>c. \<not> is_break c) '': heartbeat''" by (simp add: is_break_code)
  have shape: "chunk_text HeartbeatChunk @ rest = '': heartbeat'' @ newline # ([] @ newline # rest)" by simp
  have "c\<lparr>cn_frame := empty_frame\<rparr> = c" using assms(2) by (cases c) simp
  moreover have "parseAgentEvent empty_frame = Inr None" by (simp add: parseAgentEvent_def empty_frame_def)
  ultimately have "dispatchFrame env c = ret c"
    using assms(2) by (cases c) (simp add: dispatchFrame_def lift_result_def ret_def seq_def Let_def)
  moreover have "c\<lparr>cn_frame := cn_frame c\<rparr> = c" by (cases c) simp
  ultimately show ?thesis
    unfolding shape process_text [OF plain]
    using assms(1) by (simp add: process_blank lines_read)
qed

lemma process_chunks:
  assumes "list_all (sendable r) (chunk_events cs)" "sorted_wrt (<) (n # map se_sequence (chunk_events cs))"
    and "\<not> cn_terminal c" "cn_frame c = empty_frame" "cn_accepted c = Some n"
  shows "\<exists>rest c' p'. processBufferedLines recording True (concat (map chunk_text cs)) c (s, p) =
    (Inr (rest, c'), (s @ map seen (until_end (chunk_events cs)), p')) \<and>
    (cn_terminal c' \<longleftrightarrow> list_ex (\<lambda>e. se_type e \<in> set TERMINAL_EVENT_TYPES) (chunk_events cs))"
  using assms
proof (induction cs arbitrary: c n s p rule: chunk_events.induct)
  case 1
  then show ?case by (subst processBufferedLines.simps) (simp add: next_line_def ret_def)
next
  case (2 e cs)
  let ?c = "c\<lparr>cn_frame := empty_frame, cn_accepted := Some (se_sequence e), cn_id := Some (se_sequence e),
       cn_terminal := (cn_terminal c \<or> se_type e \<in> set TERMINAL_EVENT_TYPES)\<rparr>"
  let ?p = "p\<lparr>pg_lastEventId := Some (se_sequence e), pg_lastSequence := Some (se_sequence e)\<rparr>"
  have e: "sendable r e" "n < se_sequence e" using 2(2,3) by simp_all
  have d: "dispatchFrame recording (c\<lparr>cn_frame := sent_frame e\<rparr>) (s, p) = (Inr ?c, (s @ [seen e], ?p))"
    using dispatch_sent [OF e(1) _ _ e(2), of "c\<lparr>cn_frame := sent_frame e\<rparr>" s p] 2(6) by simp
  have run: "processBufferedLines recording True (concat (map chunk_text (EventChunk e # cs))) c (s, p) =
      (if cn_terminal ?c then ret (concat (map chunk_text cs), ?c) else processBufferedLines recording True (concat (map chunk_text cs)) ?c)
        (s @ [seen e], ?p)"
    using process_event [OF e(1) 2(4,5), of recording "concat (map chunk_text cs)"] d by (simp add: seq_def)
  show ?case
  proof (cases "se_type e \<in> set TERMINAL_EVENT_TYPES")
    case True
    then show ?thesis using run by (simp add: ret_def)
  next
    case False
    then show ?thesis
      using run 2(1) [of "se_sequence e" ?c "s @ [seen e]" ?p] 2(2-4) by simp
  qed
next
  case (3 cs)
  then show ?case
    using process_heartbeat [OF 3(4,5), of recording "concat (map chunk_text cs)"] 3(1) [of n c s p] by simp
qed

section \<open>Property\<close>

text \<open>C37: However the network cuts the text of a stream into pieces (inside a frame, or between a
  carriage return and a newline), a client that is not aborted is given exactly the events the server wrote, in
  their order, each once, up to the first that ends the run, and it reports the end of the run
  exactly when there is one; heartbeats are ignored.\<close>

theorem client_sees_written:
  assumes "concat pieces = concat (map chunk_text chunks)"
    and "list_all (sendable r) (chunk_events chunks)" "sorted_wrt (<) (l # map se_sequence (chunk_events chunks))"
  shows "\<exists>c p'. consumeResponse recording (map ret pieces, ret ()) (Some l) ([], p) =
    (Inr c, (map seen (until_end (chunk_events chunks)), p')) \<and>
    (cn_terminal c \<longleftrightarrow> list_ex (\<lambda>e. se_type e \<in> set TERMINAL_EVENT_TYPES) (chunk_events chunks))"
proof -
  let ?c = "\<lparr>cn_frame = empty_frame, cn_accepted = Some l, cn_id = None, cn_terminal = False\<rparr>"
  have "consumeResponse recording (map ret pieces, ret ()) (Some l) =
      seq (processBufferedLines recording True (concat (map chunk_text chunks)) ?c) (\<lambda>(_, c). ret c)"
    using consume_pieces [of recording ?c pieces "[]"] assms(1) by (simp add: consumeResponse_def recording_def)
  then show ?thesis
    using process_chunks [OF assms(2,3), of ?c "[]" p] by (auto simp: seq_def ret_def)
qed

text \<open>A connection cut in the middle of frames.\<close>

lemma demo_sendable: "sendable ''r'' (demo_event n)"
  by (simp add: sendable_def demo_event_def demo_value_def public_event_def json_member_def is_string_def
      publicAgentEventTypes_def agentEventTypes_def)

theorem client_sees_written_witness:
  "\<exists>c p'. consumeResponse recording (map ret (map (\<lambda>x. [x]) (concat (map chunk_text
      [EventChunk (demo_event 2), HeartbeatChunk, EventChunk (demo_event 3)]))), ret ()) (Some 1)
      ([], \<lparr>pg_lastEventId = Some 1, pg_lastSequence = Some 1\<rparr>) =
    (Inr c, ([seen (demo_event 2), seen (demo_event 3)], p')) \<and> \<not> cn_terminal c"
proof -
  let ?chunks = "[EventChunk (demo_event 2), HeartbeatChunk, EventChunk (demo_event 3)]"
  have pieces: "concat (map (\<lambda>x. [x]) t) = t" for t :: string by (induction t) auto
  have seqs: "sorted_wrt (<) ((1 :: int) # map se_sequence (chunk_events ?chunks))" by (simp add: demo_event_def)
  have sent: "list_all (sendable ''r'') (chunk_events ?chunks)" by (simp add: demo_sendable)
  have "se_type (demo_event n) \<notin> set TERMINAL_EVENT_TYPES" for n by (simp add: demo_event_def TERMINAL_EVENT_TYPES_def)
  then show ?thesis
    using client_sees_written [OF pieces sent seqs, of "\<lparr>pg_lastEventId = Some 1, pg_lastSequence = Some 1\<rparr>"] by auto
qed

end
