(* ===== verification/AgentRoutes.thy ===== *)
theory AgentRoutes
  imports Branches EventBus Triples
begin

text \<open>
  The handlers of \<open>routes/agent.ts\<close> that change runs: creating a run, retrying a validation and
  cancelling, with the project access of \<open>workspaces/projectAccess.ts\<close> and the model catalog
  (\<open>services/modelCatalog.ts\<close>) they consult. The request body is given as the schema parses it; the
  queue is an argument; a thrown error goes to the error handler.
\<close>

section \<open>Model catalog\<close>

record model_definition =
  md_id :: string
  md_label :: string
  md_provider :: string
  md_model :: string
  md_baseURL :: string
  md_apiKeyEnv :: string
  md_description :: "string option"

record model_catalog =
  mc_defaultModelId :: string
  mc_models :: "model_definition list"

definition findModelDefinition :: "model_catalog \<Rightarrow> string \<Rightarrow> model_definition option" where
  "findModelDefinition catalog i = List.find (\<lambda>m. md_id m = i) (mc_models catalog)"

definition requireModelDefinition :: "model_catalog \<Rightarrow> string \<Rightarrow> js_error + model_definition" where
  "requireModelDefinition catalog i = (case findModelDefinition catalog i of
     Some m \<Rightarrow> Inr m
   | None \<Rightarrow> Inl ((coded_error ''MODEL_NOT_AVAILABLE'' (''Model is not enabled: '' @ i))\<lparr>err_number := Some 400\<rparr>))"

definition resolveModelClientConfig :: "model_catalog \<Rightarrow> string \<Rightarrow> (string \<rightharpoonup> string) \<Rightarrow> js_error + string \<times> string \<times> string" where
  "resolveModelClientConfig catalog i env = and_then (requireModelDefinition catalog i) (\<lambda>m.
     case env (md_apiKeyEnv m) of
       Some k \<Rightarrow> if k = [] then Inl (coded_error ''MODEL_CONFIGURATION_ERROR'' (''Model credential is not configured: '' @ i))
                 else Inr (k, md_baseURL m, md_model m)
     | None \<Rightarrow> Inl (coded_error ''MODEL_CONFIGURATION_ERROR'' (''Model credential is not configured: '' @ i)))"

text \<open>The first id that has occurred before.\<close>

fun first_repeat :: "string list \<Rightarrow> string list \<Rightarrow> string option" where
  "first_repeat seen [] = None"
| "first_repeat seen (i # is) = (if i \<in> set seen then Some i else first_repeat (i # seen) is)"

text \<open>What \<open>getModelCatalog\<close> checks of the models the schema accepts.\<close>

definition catalog_of_models :: "(string \<rightharpoonup> string) \<Rightarrow> model_definition list \<Rightarrow> js_error + model_catalog" where
  "catalog_of_models env models =
     (case first_repeat [] (map md_id models) of
        Some i \<Rightarrow> Inl (coded_error ''MODEL_CATALOG_CONFIGURATION_ERROR'' (''AGENT_MODELS_JSON contains duplicate id: '' @ i))
      | None \<Rightarrow>
          let chosen = (case env ''AGENT_DEFAULT_MODEL_ID'' of Some i \<Rightarrow> if i = [] then md_id (hd models) else i | None \<Rightarrow> md_id (hd models))
          in if chosen \<notin> set (map md_id models)
             then Inl (coded_error ''MODEL_CATALOG_CONFIGURATION_ERROR''
               (''AGENT_DEFAULT_MODEL_ID does not match an enabled model: '' @ chosen))
             else Inr \<lparr>mc_defaultModelId = chosen, mc_models = models\<rparr>)"

text \<open>What the client is told of a model: an empty description is left out, the place of its key too.\<close>

record public_model =
  pm_id :: string
  pm_label :: string
  pm_provider :: string
  pm_model :: string
  pm_description :: "string option"

definition publicModelCatalog :: "model_catalog \<Rightarrow> string \<times> public_model list" where
  "publicModelCatalog catalog = (mc_defaultModelId catalog, map (\<lambda>m. \<lparr>pm_id = md_id m, pm_label = md_label m,
     pm_provider = md_provider m, pm_model = md_model m,
     pm_description = (if md_description m = Some [] then None else md_description m)\<rparr>) (mc_models catalog))"

section \<open>Access\<close>

definition findOwnedWorkspaceProject :: "object_id \<Rightarrow> object_id \<Rightarrow> (('z) world_scheme, js_error, project option) comp" where
  "findOwnedWorkspaceProject p u =
     seq (find_doc (\<lambda>w. case w_projects w p of Some d \<Rightarrow> if pr_userId d = u then Some d else None | None \<Rightarrow> None)) (\<lambda>project.
     case project of
       None \<Rightarrow> ret None
     | Some d \<Rightarrow> (case pr_workspaceId d of
         None \<Rightarrow> ret None
       | Some ws \<Rightarrow> seq (find_doc (\<lambda>w. (ws, u) \<in> set (w_members w))) (\<lambda>membership.
           ret (if membership then Some d else None))))"

definition findOwnedWorkspaceChat :: "object_id \<Rightarrow> object_id \<Rightarrow> (('z) world_scheme, js_error, chat option) comp" where
  "findOwnedWorkspaceChat c u =
     seq (find_doc (\<lambda>w. case w_chats w c of Some d \<Rightarrow> if ct_userId d = u then Some d else None | None \<Rightarrow> None)) (\<lambda>chat.
     case chat of
       None \<Rightarrow> ret None
     | Some d \<Rightarrow> (case ct_projectId d of
         None \<Rightarrow> ret (Some d)
       | Some p \<Rightarrow> seq (findOwnedWorkspaceProject p u) (\<lambda>project.
           ret (if project = None then None else Some d))))"

definition canAccessRunProject :: "agent_run \<Rightarrow> object_id \<Rightarrow> (('z) world_scheme, js_error, bool) comp" where
  "canAccessRunProject run u = seq (findOwnedWorkspaceProject (ar_projectId run) u) (\<lambda>project. ret (project \<noteq> None))"


section \<open>Responses and documents\<close>









section \<open>POST /runs\<close>








section \<open>POST /runs/:runId/retry-validation\<close>


definition own_run :: "object_id \<Rightarrow> object_id \<Rightarrow> (agent_run \<Rightarrow> bool) \<Rightarrow> ('z) world_scheme \<Rightarrow> agent_run option" where
  "own_run r u p w = (case w_runs w r of Some d \<Rightarrow> if ar_userId d = u \<and> p d then Some d else None | None \<Rightarrow> None)"





section \<open>POST /runs/:runId/cancel\<close>




section \<open>Runs move forward\<close>

text \<open>
  The relation behind the cancellation: a run stays, with its owner; from \<open>Persisting\<close> or a terminal
  status it only gets to a terminal one, and a terminal status is kept.
\<close>

definition closing :: "agent_run_status \<Rightarrow> bool" where
  "closing s \<longleftrightarrow> s = Persisting \<or> isTerminalAgentRunStatus s"

definition run_forward :: "agent_run \<Rightarrow> agent_run \<Rightarrow> bool" where
  "run_forward d d' \<longleftrightarrow> ar_userId d' = ar_userId d \<and> (closing (ar_status d) \<longrightarrow> closing (ar_status d')) \<and>
     (isTerminalAgentRunStatus (ar_status d) \<longrightarrow> ar_status d' = ar_status d)"

definition run_order :: "('z) world_scheme \<Rightarrow> ('z) world_scheme \<Rightarrow> bool" where
  "run_order w w' \<longleftrightarrow> (\<forall>r d. w_runs w r = Some d \<longrightarrow> (\<exists>d'. w_runs w' r = Some d' \<and> run_forward d d'))"

lemma run_forward_refl [simp]: "run_forward d d"
  by (simp add: run_forward_def)



lemma run_order_same [simp]: "w_runs w' = w_runs w \<Longrightarrow> run_order w w'"
  by (auto simp: run_order_def)




text \<open>The relation behind the retries: the index on active retries holds.\<close>

definition retries_ok :: "('z) world_scheme \<Rightarrow> bool" where
  "retries_ok w \<longleftrightarrow> dom (w_runs w) = set (w_runIds w) \<and> (\<forall>i j a b. w_runs w i = Some a \<longrightarrow> w_runs w j = Some b \<longrightarrow>
     active_run a \<longrightarrow> active_run b \<longrightarrow> ar_retryOfRunId a \<noteq> None \<longrightarrow> ar_retryOfRunId a = ar_retryOfRunId b \<longrightarrow> i = j)"

definition retry_order :: "('z) world_scheme \<Rightarrow> ('z) world_scheme \<Rightarrow> bool" where
  "retry_order w w' \<longleftrightarrow> (retries_ok w \<longrightarrow> retries_ok w')"

lemma retry_order_same [simp]: "w_runs w' = w_runs w \<Longrightarrow> w_runIds w' = w_runIds w \<Longrightarrow> retry_order w w'"
  unfolding retry_order_def retries_ok_def by (erule ssubst, erule ssubst, rule impI, assumption)





section \<open>The handlers keep both relations\<close>








section \<open>A reported cancellation is final\<close>



definition seen :: "object_id \<Rightarrow> object_id \<Rightarrow> agent_run \<Rightarrow> ('z) world_scheme \<Rightarrow> bool" where
  "seen r u d w \<longleftrightarrow> ar_userId d = u \<and> (\<exists>d'. w_runs w r = Some d' \<and> run_forward d d')"












section \<open>Properties\<close>












section \<open>Concrete requests\<close>

definition queued_run :: agent_run where
  "queued_run = \<lparr>ar_userId = ''u'', ar_workspaceId = Some ''ws'', ar_projectId = ''p'', ar_branchId = Some ''b'',
     ar_chatId = None, ar_prompt = ''page'', ar_attachments = None, ar_status = Queued, ar_mode = CreateMode,
     ar_baseSnapshotId = None, ar_baseSnapshotRevision = 0, ar_baseHeadVersion = Some 0, ar_resultSnapshotId = None,
     ar_retryOfRunId = None, ar_validationCandidateId = None, ar_retryable = False, ar_attempt = 0,
     ar_maxRepairAttempts = 2, ar_modelId = None, ar_modelProvider = None, ar_model = ''m'', ar_error = None, ar_usage = None,
     ar_startedAt = None, ar_completedAt = None\<rparr>"

definition request_project :: project where
  "request_project = \<lparr>pr_userId = ''u'', pr_workspaceId = Some ''ws'', pr_name = ''x'', pr_description = None, pr_chatIds = [],
     pr_activeSnapshotId = None, pr_activeSnapshotRevision = 0, pr_maxConcurrentBuilds = 1, pr_maxRunningPreviews = 1,
     pr_framework = ''react'', pr_styling = ''tailwind'', pr_uiLibrary = [], pr_agentModelId = None\<rparr>"

definition request_world :: "agent_run \<Rightarrow> slot list \<Rightarrow> world" where
  "request_world d sched = empty_world\<lparr>w_runs := [''r'' \<mapsto> d], w_runIds := [''r''], w_projects := [''p'' \<mapsto> request_project],
     w_members := [(''ws'', ''u'')], w_sched := sched\<rparr>"

lemma request_read [simp]:
  "find_doc f (request_world d (([], NoFault) # sl)) = (Inr (f (request_world d sl)), request_world d sl)"
  by (simp add: find_doc_def db_op_def reads_def request_world_def empty_world_def Let_def)

lemma request_own [simp]: "own_run r u p (request_world d sl) = (if r = ''r'' \<and> ar_userId d = u \<and> p d then Some d else None)"
  by (simp add: own_run_def request_world_def)

lemma request_access [simp]:
  "canAccessRunProject queued_run ''u'' (request_world d (([], NoFault) # ([], NoFault) # sl)) = (Inr True, request_world d sl)"
proof -
  have "w_projects (request_world d sl) ''p'' = Some request_project" "(''ws'', ''u'') \<in> set (w_members (request_world d sl))" for sl
    by (simp_all add: request_world_def)
  then show ?thesis
    by (simp add: canAccessRunProject_def findOwnedWorkspaceProject_def queued_run_def request_project_def seq_def ret_def)
qed









end
