(* ===== verification/ChatTimeline.thy ===== *)
theory ChatTimeline
  imports PreviewBundle World "HOL-Library.Multiset" "HOL-Library.Product_Lexorder" "HOL-Library.List_Lexorder" "HOL-Library.Char_ord"
begin

text \<open>
  The timeline of a chat: \<open>agent/chatTimeline.ts\<close>, which turns a run with its events into a turn and a
  position into a cursor, and the page of turns that \<open>routes/chat.ts\<close> answers. The texts of dates
  (\<open>toISOString\<close>, \<open>new Date\<close>) are an argument. Following the cursors visits every run of the chat once.
\<close>

section \<open>Plans as the schema accepts them\<close>

definition nonblank :: "string \<Rightarrow> string option" where
  "nonblank s = (if trim s = [] then None else Some (trim s))"

definition drive_path :: "string \<Rightarrow> bool" where
  "drive_path s = (case s of c # d # e # _ \<Rightarrow> is_alpha c \<and> d = CHR '':'' \<and> e = CHR ''/'' | _ \<Rightarrow> False)"

definition safeProjectPathSchema :: "string \<Rightarrow> string option" where
  "safeProjectPathSchema raw = Option.bind (nonblank raw) (\<lambda>value.
     let normalized = replace_char backslash CHR ''/'' value
     in if \<not> starts_with ''/'' normalized \<and> \<not> drive_path normalized \<and> normalized \<noteq> ''..'' \<and>
           \<not> starts_with ''../'' normalized \<and> \<not> has_substring ''/../'' normalized \<and>
           list_ex (\<lambda>x. ends_with x normalized)
             [''.ts'', ''.tsx'', ''.js'', ''.cjs'', ''.mjs'', ''.css'', ''.json'', ''.html'', ''.md'']
        then Some value else None)"

definition plan_step_schema :: "plan_step \<Rightarrow> plan_step option" where
  "plan_step_schema s = Option.bind (nonblank (ps_title s)) (\<lambda>t. Option.bind (nonblank (ps_intent s)) (\<lambda>i.
     map_option (\<lambda>fs. \<lparr>ps_title = t, ps_intent = i, ps_filesLikelyTouched = fs\<rparr>)
       (those (map safeProjectPathSchema (ps_filesLikelyTouched s)))))"

definition agentPlanSchema :: "payload option \<Rightarrow> agent_plan option" where
  "agentPlanSchema pl = (case pl of
     Some (PlanPayload p) \<Rightarrow> Option.bind (nonblank (plan_summary p)) (\<lambda>s.
       if plan_steps p = [] then None
       else Option.bind (those (map plan_step_schema (plan_steps p))) (\<lambda>steps.
         map_option (\<lambda>as. \<lparr>plan_summary = s, plan_steps = steps, plan_assumptions = as\<rparr>)
           (those (map nonblank (plan_assumptions p)))))
   | _ \<Rightarrow> None)"

section \<open>Turns\<close>

record date_lib =
  toISOString :: "time \<Rightarrow> string"
  date_parse :: "string \<Rightarrow> time option"

text \<open>A run with the fields the timeline reads beside those of \<open>agent_run\<close>.\<close>

record run_row =
  rr_id :: object_id
  rr_createdAt :: time
  rr_run :: agent_run

record timeline_event =
  te_type :: agent_event_type
  te_sequence :: nat
  te_message :: string
  te_payload :: "payload option"
  te_createdAt :: string

record timeline_attachment =
  ta_id :: string
  ta_name :: string
  ta_mediaType :: string
  ta_size :: nat

record timeline_turn =
  tt_runId :: object_id
  tt_retryOfRunId :: "object_id option"
  tt_content :: string
  tt_createdAt :: string
  tt_attachments :: "timeline_attachment list option"
  tt_status :: agent_run_status
  tt_modelId :: "string option"
  tt_modelProvider :: "string option"
  tt_model :: string
  tt_startedAt :: "string option"
  tt_completedAt :: "string option"
  tt_durationMs :: "int option"
  tt_planningDurationMs :: "int option"
  tt_summary :: "string option"
  tt_plan :: "agent_plan option"
  tt_events :: "timeline_event list"
  tt_error :: "public_error option"
  tt_retryable :: bool
  tt_snapshot :: "(object_id \<times> string \<times> string list) option"

definition nonNegativeDuration :: "time option \<Rightarrow> time option \<Rightarrow> int option" where
  "nonNegativeDuration start stop = (case (start, stop) of (Some s, Some e) \<Rightarrow> Some (max 0 (e - s)) | _ \<Rightarrow> None)"

fun planFromEvents :: "agent_event list \<Rightarrow> (agent_plan \<times> agent_event) option" where
  "planFromEvents [] = None"
| "planFromEvents (e # es) =
     (if ev_type e \<noteq> AgentPlanEvent then planFromEvents es
      else case agentPlanSchema (ev_payload e) of Some p \<Rightarrow> Some (p, e) | None \<Rightarrow> planFromEvents es)"

definition changed_path :: "agent_event \<Rightarrow> string option" where
  "changed_path e = (if ev_type e \<noteq> FileChanged then None
     else case ev_payload e of
       Some (FilePayload _ p _) \<Rightarrow> if trim p = [] then None else Some p
     | _ \<Rightarrow> None)"

text \<open>The iteration order of a \<open>Set\<close>: first insertions.\<close>

definition set_add :: "string \<Rightarrow> string list \<Rightarrow> string list" where
  "set_add p paths = (if p \<in> set paths then paths else paths @ [p])"

definition changedFilesFromEvents :: "agent_event list \<Rightarrow> string list" where
  "changedFilesFromEvents es = fold set_add (List.map_filter changed_path es) []"

definition present :: "string option \<Rightarrow> string option" where
  "present s = (if s = Some [] then None else s)"

definition attachment_view :: "agent_attachment \<Rightarrow> timeline_attachment" where
  "attachment_view a = \<lparr>ta_id = at_id a, ta_name = at_name a, ta_mediaType = at_mediaType a, ta_size = at_size a\<rparr>"

definition event_view :: "date_lib \<Rightarrow> agent_event \<Rightarrow> timeline_event" where
  "event_view lib e = \<lparr>te_type = ev_type e, te_sequence = ev_sequence e, te_message = ev_message e,
     te_payload = ev_payload e, te_createdAt = toISOString lib (ev_createdAt e)\<rparr>"

definition buildChatTimelineTurn :: "date_lib \<Rightarrow> run_row \<Rightarrow> agent_event list \<Rightarrow> (object_id \<times> project_snapshot) option \<Rightarrow>
    timeline_turn" where
  "buildChatTimelineTurn lib row input snapshot =
     (let run = rr_run row; es = sort_key ev_sequence input; planned = planFromEvents es in
      \<lparr>tt_runId = rr_id row,
       tt_retryOfRunId = present (ar_retryOfRunId run),
       tt_content = ar_prompt run,
       tt_createdAt = toISOString lib (rr_createdAt row),
       tt_attachments = (case ar_attachments run of
          Some (a # as) \<Rightarrow> Some (map attachment_view (a # as)) | _ \<Rightarrow> None),
       tt_status = ar_status run,
       tt_modelId = present (ar_modelId run),
       tt_modelProvider = present (ar_modelProvider run),
       tt_model = ar_model run,
       tt_startedAt = map_option (toISOString lib) (ar_startedAt run),
       tt_completedAt = map_option (toISOString lib) (ar_completedAt run),
       tt_durationMs = nonNegativeDuration (ar_startedAt run) (ar_completedAt run),
       tt_planningDurationMs = nonNegativeDuration (ar_startedAt run) (map_option (ev_createdAt \<circ> snd) planned),
       tt_summary = (case present (map_option (sn_summary \<circ> snd) snapshot) of
          Some s \<Rightarrow> Some s | None \<Rightarrow> present (map_option (plan_summary \<circ> fst) planned)),
       tt_plan = map_option fst planned,
       tt_events = map (event_view lib) es,
       tt_error = ar_error run,
       tt_retryable = ar_retryable run,
       tt_snapshot = map_option (\<lambda>(i, d). (i, sn_summary d, changedFilesFromEvents es)) snapshot\<rparr>)"

section \<open>Cursors\<close>

type_synonym boundary = "time \<times> object_id"

definition url_char :: "char \<Rightarrow> char" where
  "url_char c = (if c = CHR ''+'' then CHR ''-'' else if c = CHR ''/'' then CHR ''_'' else c)"

definition b64url_encode :: "bytes \<Rightarrow> string" where
  "b64url_encode bs = map url_char (takeWhile (\<lambda>c. c \<noteq> CHR ''='') (b64_encode bs))"

definition encodeTimelineCursor :: "date_lib \<Rightarrow> boundary \<Rightarrow> string" where
  "encodeTimelineCursor lib b = b64url_encode (utf8_encode (stringify
     (JObj [(''createdAt'', JStr (toISOString lib (fst b))), (''id'', JStr (snd b))])))"

definition invalidCursor :: js_error where
  "invalidCursor = coded_error ''INVALID_TIMELINE_CURSOR'' ''Invalid timeline cursor''"

text \<open>\<open>String(value)\<close>; elements of an array that are null are empty.\<close>

fun js_String :: "json \<Rightarrow> string" where
  "js_String (JStr s) = s"
| "js_String (JArr xs) = join_with '','' (map (\<lambda>x. if x = JNull then [] else js_String x) xs)"
| "js_String (JObj _) = ''[object Object]''"
| "js_String j = stringify j"

definition cursor_date :: "date_lib \<Rightarrow> json \<Rightarrow> time option" where
  "cursor_date lib parsed = date_parse lib (case json_member ''createdAt'' parsed of
     Some v \<Rightarrow> js_String v | None \<Rightarrow> ''undefined'')"

definition hex_id :: "string \<Rightarrow> bool" where
  "hex_id s \<longleftrightarrow> length s = 24 \<and> list_all (\<lambda>c. hex_value c \<noteq> None) s"

definition decodeTimelineCursor :: "date_lib \<Rightarrow> string \<Rightarrow> js_error + boundary" where
  "decodeTimelineCursor lib cursor = (case Option.bind (utf8_decode (b64_decode cursor)) JSON_parse of
     None \<Rightarrow> Inl invalidCursor
   | Some parsed \<Rightarrow> (case (cursor_date lib parsed, json_member ''id'' parsed) of
       (Some t, Some (JStr i)) \<Rightarrow> if hex_id i then Inr (t, i) else Inl invalidCursor
     | _ \<Rightarrow> Inl invalidCursor))"

section \<open>GET /:id/timeline\<close>

text \<open>The documents of the three collections that the page is read from.\<close>

record timeline_store =
  ts_runs :: "run_row list"
  ts_events :: "agent_event list"
  ts_snapshots :: "(object_id \<times> project_snapshot) list"

record timeline_page =
  tp_turns :: "timeline_turn list"
  tp_hasMore :: bool
  tp_nextBefore :: "string option"

definition row_key :: "run_row \<Rightarrow> time \<times> object_id" where
  "row_key r = (rr_createdAt r, rr_id r)"

definition before_boundary :: "boundary option \<Rightarrow> run_row \<Rightarrow> bool" where
  "before_boundary b r = (case b of
     None \<Rightarrow> True
   | Some (t, i) \<Rightarrow> rr_createdAt r < t \<or> rr_createdAt r = t \<and> rr_id r < to_lower i)"

definition own_row :: "object_id \<Rightarrow> object_id \<Rightarrow> run_row \<Rightarrow> bool" where
  "own_row u c r \<longleftrightarrow> ar_userId (rr_run r) = u \<and> ar_chatId (rr_run r) = Some c"

definition timeline_runs :: "timeline_store \<Rightarrow> object_id \<Rightarrow> object_id \<Rightarrow> boundary option \<Rightarrow> run_row list" where
  "timeline_runs store u c b = rev (sort_key row_key (filter (\<lambda>r. own_row u c r \<and> before_boundary b r) (ts_runs store)))"

definition timeline_events :: "timeline_store \<Rightarrow> object_id \<Rightarrow> object_id list \<Rightarrow> agent_event list" where
  "timeline_events store u ids = sort_key (\<lambda>e. (ev_runId e, ev_sequence e))
     (filter (\<lambda>e. ev_userId e = u \<and> ev_runId e \<in> set ids) (ts_events store))"

definition timeline_snapshots :: "timeline_store \<Rightarrow> object_id \<Rightarrow> object_id option \<Rightarrow> object_id list \<Rightarrow>
    (object_id \<times> project_snapshot) list" where
  "timeline_snapshots store u p ids = (if ids = [] then [] else
     filter (\<lambda>(i, d). sn_userId d = u \<and> Some (sn_projectId d) = p \<and> i \<in> set ids) (ts_snapshots store))"

definition snapshot_of_run :: "(object_id \<times> project_snapshot) list \<Rightarrow> object_id \<Rightarrow> (object_id \<times> project_snapshot) option" where
  "snapshot_of_run snapshots r = map_of (rev (map (\<lambda>s. (sn_sourceRunId (snd s), s)) snapshots)) r"

definition timeline_turns :: "date_lib \<Rightarrow> timeline_store \<Rightarrow> object_id \<Rightarrow> object_id option \<Rightarrow> run_row list \<Rightarrow> timeline_turn list" where
  "timeline_turns lib store u p selected =
     (let es = timeline_events store u (map rr_id selected);
          snapshots = timeline_snapshots store u p (List.map_filter (\<lambda>r. ar_resultSnapshotId (rr_run r)) selected)
      in rev (map (\<lambda>r. buildChatTimelineTurn lib r (filter (\<lambda>e. ev_runId e = rr_id r) es)
           (snapshot_of_run snapshots (rr_id r))) selected))"

definition page_after :: "date_lib \<Rightarrow> timeline_store \<Rightarrow> object_id \<Rightarrow> object_id \<Rightarrow> chat \<Rightarrow> nat \<Rightarrow> boundary option \<Rightarrow> timeline_page" where
  "page_after lib store u c chat limit b =
     (let runs = take (limit + 1) (timeline_runs store u c b);
          hasMore = limit < length runs;
          selected = (if hasMore then take limit runs else runs)
      in \<lparr>tp_turns = timeline_turns lib store u (ct_projectId chat) selected, tp_hasMore = hasMore,
          tp_nextBefore = (if hasMore \<and> selected \<noteq> [] then Some (encodeTimelineCursor lib (row_key (last selected))) else None)\<rparr>)"

definition get_timeline :: "date_lib \<Rightarrow> timeline_store \<Rightarrow> object_id \<Rightarrow> object_id \<Rightarrow> chat option \<Rightarrow> nat \<Rightarrow> string option \<Rightarrow>
    (nat \<times> string) + timeline_page" where
  "get_timeline lib store u c found limit before = (case found of
     None \<Rightarrow> Inl (404, ''Chat not found'')
   | Some chat \<Rightarrow> (case before of
       None \<Rightarrow> Inr (page_after lib store u c chat limit None)
     | Some cursor \<Rightarrow> (case decodeTimelineCursor lib cursor of
         Inl _ \<Rightarrow> Inl (400, ''Invalid timeline cursor'')
       | Inr b \<Rightarrow> Inr (page_after lib store u c chat limit (Some b)))))"

text \<open>A client that follows the cursors from the newest page on, older turns first.\<close>

primrec browse :: "date_lib \<Rightarrow> timeline_store \<Rightarrow> object_id \<Rightarrow> object_id \<Rightarrow> chat \<Rightarrow> nat \<Rightarrow> nat \<Rightarrow> string option \<Rightarrow>
    timeline_turn list option" where
  "browse lib store u c chat limit 0 before = None"
| "browse lib store u c chat limit (Suc n) before = (case get_timeline lib store u c (Some chat) limit before of
     Inl _ \<Rightarrow> None
   | Inr page \<Rightarrow> (case tp_nextBefore page of
       None \<Rightarrow> Some (tp_turns page)
     | Some cursor \<Rightarrow> map_option (\<lambda>older. older @ tp_turns page) (browse lib store u c chat limit n (Some cursor))))"

section \<open>Cursors are read back\<close>

lemma url_char_value [simp]: "b64_value (url_char c) = b64_value c"
proof -
  have "b64_value CHR ''-'' = b64_value CHR ''+''" "b64_value CHR ''_'' = b64_value CHR ''/''" by code_simp+
  then show ?thesis by (simp add: url_char_def)
qed

lemma url_char_pad: "c \<noteq> CHR ''='' \<Longrightarrow> url_char c \<noteq> CHR ''=''"
  by (auto simp: url_char_def split: if_splits)

lemma b64url_roundtrip: "b64_decode (b64url_encode bs) = bs"
proof -
  let ?ys = "takeWhile (\<lambda>c. c \<noteq> CHR ''='') (b64_encode bs)"
  have pad: "takeWhile (\<lambda>c. c \<noteq> CHR ''='') (map url_char ?ys) = map url_char ?ys"
    by (rule takeWhile_eq_all_conv [THEN iffD2]) (auto dest!: set_takeWhileD simp: url_char_pad)
  have "List.map_filter b64_value (map url_char ys) = List.map_filter b64_value ys" for ys
    by (simp add: List.map_filter_def filter_map o_def)
  then have "b64_sextets (b64url_encode bs) = b64_sextets (b64_encode bs)"
    unfolding b64_sextets_def b64url_encode_def pad by simp
  then show ?thesis using b64_roundtrip [of bs] by (simp add: b64_decode_def)
qed

lemma cursor_roundtrip:
  assumes "date_parse lib (toISOString lib t) = Some t" "hex_id i"
  shows "decodeTimelineCursor lib (encodeTimelineCursor lib (t, i)) = Inr (t, i)"
proof -
  let ?j = "JObj [(''createdAt'', JStr (toISOString lib t)), (''id'', JStr i)]"
  have "JSON_parse (stringify ?j) = Some ?j" by (rule parse_stringify) simp
  then show ?thesis using assms
    by (simp add: decodeTimelineCursor_def encodeTimelineCursor_def b64url_roundtrip utf8_roundtrip cursor_date_def json_member_def)
qed

section \<open>Pages\<close>

abbreviation newer :: "run_row \<Rightarrow> run_row \<Rightarrow> bool" where
  "newer a b \<equiv> row_key b < row_key a"

lemma before_row: "to_lower (rr_id y) = rr_id y \<Longrightarrow> before_boundary (Some (row_key y)) r \<longleftrightarrow> newer y r"
  by (auto simp: before_boundary_def row_key_def less_prod_def)

lemma runs_before:
  "to_lower (rr_id y) = rr_id y \<Longrightarrow>
   timeline_runs store u c (Some (row_key y)) = filter (newer y) (timeline_runs store u c None)"
proof -
  assume "to_lower (rr_id y) = rr_id y"
  then have "filter (\<lambda>r. own_row u c r \<and> before_boundary (Some (row_key y)) r) (ts_runs store) =
      filter (newer y) (filter (\<lambda>r. own_row u c r \<and> before_boundary None r) (ts_runs store))"
    by (simp only: filter_filter before_row) (simp add: before_boundary_def conj_commute)
  then show ?thesis by (simp add: timeline_runs_def rev_filter [symmetric] filter_sort)
qed

lemma runs_descend:
  assumes "distinct (map rr_id (ts_runs store))"
  shows "sorted_wrt newer (timeline_runs store u c b)"
proof -
  let ?xs = "filter (\<lambda>r. own_row u c r \<and> before_boundary b r) (ts_runs store)"
  have "distinct (map row_key ?xs)"
    using assms by (auto simp: distinct_map row_key_def inj_on_def)
  then have "distinct (map row_key (sort_key row_key ?xs))"
    by (simp add: distinct_map)
  then have "sorted_wrt (<) (map row_key (sort_key row_key ?xs))"
    using strict_sorted_iff sorted_sort_key by blast
  then show ?thesis by (simp add: timeline_runs_def sorted_wrt_rev sorted_wrt_map)
qed

lemma older_part: "sorted_wrt newer (xs @ y # zs) \<Longrightarrow> filter (newer y) (xs @ y # zs) = zs"
  by (auto simp: sorted_wrt_append filter_empty_conv intro: filter_True dest: less_asym)

lemma turn_ids: "map tt_runId (timeline_turns lib store u p selected) = rev (map rr_id selected)"
  by (simp add: timeline_turns_def Let_def rev_map buildChatTimelineTurn_def o_def)

text \<open>The events a turn shows are those of its run, in the order of their numbers, which is unique.\<close>

definition shows_events :: "timeline_store \<Rightarrow> object_id \<Rightarrow> timeline_turn \<Rightarrow> bool" where
  "shows_events store u t \<longleftrightarrow> map te_sequence (tt_events t) = sort (map ev_sequence
     (filter (\<lambda>e. ev_userId e = u \<and> ev_runId e = tt_runId t) (ts_events store)))"

lemma turn_events: "list_all (shows_events store u) (timeline_turns lib store u p selected)"
  unfolding list_all_iff
proof
  fix t assume "t \<in> set (timeline_turns lib store u p selected)"
  then obtain r where r: "r \<in> set selected" "tt_runId t = rr_id r"
    "tt_events t = map (event_view lib) (sort_key ev_sequence (filter (\<lambda>e. ev_runId e = rr_id r)
       (timeline_events store u (map rr_id selected))))"
    by (auto simp: timeline_turns_def Let_def buildChatTimelineTurn_def)
  have "filter (\<lambda>e. ev_userId e = u \<and> ev_runId e \<in> rr_id ` set selected \<and> ev_runId e = rr_id r) (ts_events store) =
      filter (\<lambda>e. ev_userId e = u \<and> ev_runId e = rr_id r) (ts_events store)"
    using r(1) by (intro filter_cong) auto
  moreover have "map ev_sequence (sort_key ev_sequence es) = sort (map ev_sequence (es :: agent_event list))" for es
    by (rule properties_for_sort [symmetric]) simp_all
  moreover have "sort (map ev_sequence (sort_key (\<lambda>e. (ev_runId e, ev_sequence e)) es)) = sort (map ev_sequence (es :: agent_event list))" for es
    by (rule properties_for_sort) simp_all
  ultimately show "shows_events store u t"
    by (simp add: shows_events_def r(2,3) event_view_def o_def timeline_events_def filter_sort)
qed

lemma browse_rest:
  assumes "1 \<le> limit" and rows: "sorted_wrt newer (xs @ L)" "timeline_runs store u c None = xs @ L"
    and "\<And>r. r \<in> set L \<Longrightarrow> hex_id (rr_id r) \<and> to_lower (rr_id r) = rr_id r \<and>
        date_parse lib (toISOString lib (rr_createdAt r)) = Some (rr_createdAt r)"
    and "timeline_runs store u c b = L" "length L < n"
    and "case before of None \<Rightarrow> b = None | Some cursor \<Rightarrow> map_option Inr b = Some (decodeTimelineCursor lib cursor)"
  shows "\<exists>ts. browse lib store u c chat limit n before = Some ts \<and> map tt_runId ts = rev (map rr_id L) \<and>
    list_all (shows_events store u) ts"
  using assms
proof (induction n arbitrary: xs L b before)
  case (Suc n)
  have page: "get_timeline lib store u c (Some chat) limit before = Inr (page_after lib store u c chat limit b)"
    using Suc.prems(7) by (cases before) (auto simp: get_timeline_def dest!: sym [of "Inr _"])
  show ?case
  proof (cases "limit < length L")
    case False
    then show ?thesis
      using Suc.prems(5) page by (simp add: page_after_def turn_ids turn_events)
  next
    case True
    let ?y = "last (take limit L)"
    have ne: "take limit L \<noteq> []" using True Suc.prems(1) by auto
    have L: "take limit L = butlast (take limit L) @ [?y]" using append_butlast_last_id [OF ne] by simp
    have y_in: "?y \<in> set L" using last_in_set [OF ne] set_take_subset [of limit L] by blast
    then have D: "xs @ L = (xs @ butlast (take limit L)) @ ?y # drop limit L"
      using append_take_drop_id [of limit L] L by (metis append.assoc append_Cons append_Nil)
    have y: "hex_id (rr_id ?y)" "to_lower (rr_id ?y) = rr_id ?y"
      "date_parse lib (toISOString lib (rr_createdAt ?y)) = Some (rr_createdAt ?y)"
      using Suc.prems(4) [OF y_in] by auto
    have rest: "timeline_runs store u c (Some (row_key ?y)) = drop limit L"
      using runs_before [OF y(2)] Suc.prems(2,3) older_part [of "xs @ butlast (take limit L)" ?y "drop limit L"] D by metis
    have "\<exists>ts. browse lib store u c chat limit n (Some (encodeTimelineCursor lib (row_key ?y))) = Some ts \<and>
        map tt_runId ts = rev (map rr_id (drop limit L)) \<and> list_all (shows_events store u) ts"
    proof (rule Suc.IH [where xs = "xs @ take limit L" and b = "Some (row_key ?y)"])
      show "case Some (encodeTimelineCursor lib (row_key ?y)) of None \<Rightarrow> Some (row_key ?y) = None
          | Some cursor \<Rightarrow> map_option Inr (Some (row_key ?y)) = Some (decodeTimelineCursor lib cursor)"
        using cursor_roundtrip [OF y(3,1)] by (simp add: row_key_def)
    qed (use Suc.prems True rest in \<open>auto dest: in_set_dropD\<close>)
    then obtain ts where ts: "browse lib store u c chat limit n (Some (encodeTimelineCursor lib (row_key ?y))) = Some ts"
      "map tt_runId ts = rev (map rr_id (drop limit L))" "list_all (shows_events store u) ts" by blast
    have "rev (map rr_id (drop limit L)) @ rev (map rr_id (take limit L)) = rev (map rr_id L)"
      by (simp flip: rev_append map_append)
    then show ?thesis
      using page True Suc.prems(5) ts ne by (simp add: page_after_def Let_def turn_ids turn_events)
  qed
qed simp

section \<open>Properties\<close>

text \<open>C40: Following the cursors of the timeline from the newest page on ends after finitely many pages, and the pages together
  show every run of the chat that belongs to the user exactly once, in the order of creation, each with its own events in the order
  of their numbers, whatever the page size.\<close>

theorem timeline_complete:
  assumes "1 \<le> limit" "distinct (map rr_id (ts_runs store))"
    and "\<forall>r\<in>set (ts_runs store). hex_id (rr_id r) \<and> to_lower (rr_id r) = rr_id r \<and>
        date_parse lib (toISOString lib (rr_createdAt r)) = Some (rr_createdAt r)"
  shows "\<exists>turns. browse lib store u c chat limit (Suc (length (ts_runs store))) None = Some turns \<and>
    map tt_runId turns = map rr_id (sort_key row_key (filter (own_row u c) (ts_runs store))) \<and>
    list_all (shows_events store u) turns"
proof -
  let ?D = "timeline_runs store u c None"
  have D: "?D = rev (sort_key row_key (filter (own_row u c) (ts_runs store)))"
    by (simp add: timeline_runs_def before_boundary_def)
  have "\<exists>ts. browse lib store u c chat limit (Suc (length (ts_runs store))) None = Some ts \<and> map tt_runId ts = rev (map rr_id ?D) \<and>
      list_all (shows_events store u) ts"
  proof (rule browse_rest [where xs = "[]" and b = None])
    show "length ?D < Suc (length (ts_runs store))" using length_filter_le by (simp add: D less_Suc_eq_le)
  qed (use assms D runs_descend [OF assms(2), of u c None] in auto)
  then show ?thesis by (simp add: D rev_map)
qed

section \<open>A concrete chat\<close>

definition demo_lib :: date_lib where
  "demo_lib = \<lparr>toISOString = (\<lambda>t. if t = 1 then ''1'' else if t = 2 then ''2'' else ''3''),
     date_parse = (\<lambda>s. if s = ''1'' then Some 1 else if s = ''2'' then Some 2 else if s = ''3'' then Some 3 else None)\<rparr>"

definition demo_row :: "char \<Rightarrow> time \<Rightarrow> run_row" where
  "demo_row k t = \<lparr>rr_id = replicate 24 k, rr_createdAt = t, rr_run = \<lparr>ar_userId = ''u'', ar_workspaceId = Some ''ws'',
     ar_projectId = ''p'', ar_branchId = Some ''b'', ar_chatId = Some ''c'', ar_prompt = ''page'', ar_attachments = None,
     ar_status = Completed, ar_mode = CreateMode, ar_baseSnapshotId = None, ar_baseSnapshotRevision = 0,
     ar_baseHeadVersion = Some 0, ar_resultSnapshotId = None, ar_retryOfRunId = None, ar_validationCandidateId = None,
     ar_retryable = False, ar_attempt = 0, ar_maxRepairAttempts = 2, ar_modelId = None, ar_modelProvider = None,
     ar_model = ''m'', ar_error = None, ar_usage = None, ar_startedAt = None, ar_completedAt = None\<rparr>\<rparr>"

definition demo_store :: timeline_store where
  "demo_store = \<lparr>ts_runs = [demo_row CHR ''b'' 2, demo_row CHR ''a'' 1, demo_row CHR ''c'' 2], ts_events = [], ts_snapshots = []\<rparr>"

definition demo_chat :: chat where
  "demo_chat = \<lparr>ct_userId = ''u'', ct_projectId = Some ''p'', ct_branchId = None, ct_title = ''t'', ct_messages = []\<rparr>"

lemma timeline_complete_witness:
  "\<exists>turns. browse demo_lib demo_store ''u'' ''c'' demo_chat 1 4 None = Some turns \<and>
     map tt_runId turns = [replicate 24 CHR ''a'', replicate 24 CHR ''b'', replicate 24 CHR ''c'']"
proof -
  have ids: "distinct (map rr_id (ts_runs demo_store))"
    by (simp add: demo_store_def demo_row_def)
  have "hex_id (replicate 24 CHR ''a'') \<and> hex_id (replicate 24 CHR ''b'') \<and> hex_id (replicate 24 CHR ''c'')"
    "to_lower (replicate 24 CHR ''a'') = replicate 24 CHR ''a''" "to_lower (replicate 24 CHR ''b'') = replicate 24 CHR ''b''"
    "to_lower (replicate 24 CHR ''c'') = replicate 24 CHR ''c''"
    by code_simp+
  then have rows: "\<forall>r\<in>set (ts_runs demo_store). hex_id (rr_id r) \<and> to_lower (rr_id r) = rr_id r \<and>
      date_parse demo_lib (toISOString demo_lib (rr_createdAt r)) = Some (rr_createdAt r)"
    by (auto simp: demo_store_def demo_row_def demo_lib_def)
  have len: "Suc (length (ts_runs demo_store)) = 4" by (simp add: demo_store_def)
  have "map rr_id (sort_key row_key (filter (own_row ''u'' ''c'') (ts_runs demo_store))) =
      [replicate 24 CHR ''a'', replicate 24 CHR ''b'', replicate 24 CHR ''c'']"
    by code_simp
  then show ?thesis
    using timeline_complete [OF _ ids rows, of 1 "''u''" "''c''" demo_chat] unfolding len by auto
qed

end
