(* ===== verification/Spec2Isabelle.thy ===== *)
theory Spec2Isabelle
  imports Runtime ArtifactReconciler StreamClient AgentRoutes ChatTimeline
begin

text \<open>
  A model of the application builder: a server that turns a prompt into a validated web project.
  Paths below are relative to \<open>apps/server/src\<close> unless they start with \<open>apps\<close>.

  The program. A request of the browser creates a run, a document of the database, and a job in a queue
  (\<open>routes/agent.ts\<close>). A worker process takes the job, acquires the lease of the branch the run works on, asks
  a language model for file operations, validates the resulting project and lets the model repair it a bounded
  number of times, stores the result as an artifact with a snapshot that refers to it, and moves the head of
  the branch by compare-and-set. Each stage writes events, numbered per run and published on a Redis channel; the browser
  reads them as a stream that can be resumed. Validation runs npm in a sandbox: a lease in the database, reserved
  under a quota, that names a resource of a provider. Two reconcilers clean up what crashed processes leave.

  How code becomes definitions. An \<open>async\<close> function is a computation \<open>state \<Rightarrow> (error + value) \<times> state\<close>
  (\<open>Prelude\<close>); a thrown error is \<open>Inl\<close>, and \<open>try/catch/finally\<close> are \<open>catch\<close> and \<open>finally_do\<close>.
  Documents are records and collections are maps from ids (\<open>World\<close>). Each awaited call of the database, of Redis or of
  the file system is one atomic step. A schedule in the state says what other processes do before each
  step (\<open>env_step\<close>: another request cancels or creates a run, a head moves, a lease expires or is taken, a lock is
  renewed, time passes, a timer of the process itself fires) and whether the step fails before or after its effect;
  theorems hold for every schedule. What is not in the repository is an argument: the language model, gzip, SHA-256, \<open>localeCompare\<close>,
  the sandbox provider, the queue; what is assumed of it is a named hypothesis of the theorem.

  Foundations.
  \<^item> \<open>Prelude\<close>: the monad, strings, arrays and maps of JavaScript, \<open>effect_order\<close> (a two-state relation
    respected by every step), \<open>returns\<close> (what a computation can answer), rule collections.
  \<^item> \<open>World\<close>, \<open>Triples\<close>: the database with its schedule; \<open>store_order\<close>, the contract of a relation that the steps of
    other processes respect; pre- and postconditions with stability under those steps.
  \<^item> \<open>Json\<close>: \<open>JSON.stringify\<close> and \<open>JSON.parse\<close>, UTF-8 and base64, with their round trips.

  The agent runtime.
  \<^item> \<open>AgentTypes\<close> (\<open>agent/types.ts\<close>, \<open>agent/stateMachine.ts\<close>), \<open>FileOps\<close> (\<open>agent/fileOperations.ts\<close> with node's
    \<open>path\<close>), \<open>Packages\<close> (\<open>agent/dependencies.ts\<close>, \<open>agent/projectTemplate.ts\<close>), \<open>Validation\<close>
    (\<open>agent/validation\<close>), \<open>Styling\<close> (\<open>agent/styling\<close>), \<open>ContextBuilder\<close> (\<open>agent/contextBuilder.ts\<close>).
  \<^item> \<open>Generation\<close> and \<open>Orchestrator\<close> (\<open>agent/orchestrator.ts\<close>), \<open>EventBus\<close> (\<open>agent/eventBus.ts\<close>), \<open>Branches\<close>
    (\<open>branches\<close>), \<open>Worker\<close> (\<open>agent/createWorker.ts\<close>). The locales \<open>job_order\<close> and \<open>worker_order\<close> state what each service the
    job uses must respect; they are interpreted with the order of settled runs, the order of leases and the order of
    the event log, which gives the safety properties of a whole job.
  \<^item> \<open>EventStream\<close> (\<open>agent/sseStream.ts\<close>, a state machine over inputs), \<open>StreamClient\<close>
    (\<open>apps/web/src/services/agentEventStream.ts\<close>, \<open>agentRunMonitor.ts\<close>): server and browser ends of the stream, joined by the
    theorem that the browser is given what the server wrote.
  \<^item> \<open>AgentRoutes\<close>: the handlers that create, retry and cancel runs, the access check and the model catalog.
  \<^item> \<open>ChatTimeline\<close> (\<open>agent/chatTimeline.ts\<close> and the page of \<open>routes/chat.ts\<close>): turns, cursors, and that following
    the cursors shows every run once; the texts of dates are an argument.

  Artifacts.
  \<^item> \<open>Bundle\<close>, \<open>PreviewBundle\<close> (\<open>artifacts/bundle.ts\<close>, \<open>previewBundle.ts\<close>): canonical forms, round trips, error codes.
  \<^item> \<open>ArtifactStore\<close> (\<open>artifacts/SharedFilesystemArtifactStore.ts\<close>): publication by hard link refines writing a
    blob at once (locales \<open>disk_order\<close>, \<open>publication\<close>). \<open>ArtifactService\<close> (\<open>artifacts/artifactService.ts\<close>, locale \<open>artifact_order\<close>):
    idempotent writes and verified reads. \<open>ArtifactReconciler\<close> (\<open>artifacts/reconciler.ts\<close>): nothing a snapshot refers to is deleted.

  Sandboxes.
  \<^item> \<open>Config\<close> (\<open>artifacts/config.ts\<close>, \<open>sandbox/config.ts\<close>, \<open>agent/config.ts\<close>), \<open>SandboxTypes\<close>, \<open>SandboxPolicy\<close>.
  \<^item> \<open>SandboxQuota\<close> (\<open>sandbox/SandboxRepository.ts\<close>, \<open>WorkspaceQuotaLock.ts\<close>, \<open>QuotaScheduler.ts\<close>; locale
    \<open>lock_respecting\<close>), \<open>SandboxProvider\<close> (the interface as a record, and the in-memory provider), \<open>SandboxService\<close>
    (locales \<open>sandbox_host\<close>, \<open>fake_blind\<close>), \<open>SandboxReconciler\<close>, \<open>SandboxValidator\<close> (\<open>agent/sandboxValidator.ts\<close>).
  \<^item> \<open>Runtime\<close>: the worker process on the services it builds (\<open>sandbox/runtime.ts\<close>, \<open>worker.ts\<close>), with the views
    \<open>agent_view\<close> and \<open>infra_view\<close> that lift the relations of the parts to the process.

  Loops. The repair loop of the orchestrator is an unbounded \<open>for\<close> loop; the model gives it fuel, one more than
  \<open>maxRepairAttempts\<close>, and shows that more fuel never changes the outcome. The reconnection loop of the browser
  and the cutting of lines recurse with a measure (the attempts left, the length of the buffer). The wait for the quota lock recurses on the time to its
  deadline: each turn sleeps for at least a millisecond. \<open>JSON.parse\<close> recurses on fuel taken from the length of the text; the
  round trip shows that it is enough for what \<open>JSON.stringify\<close> prints.

  Bounds of the model. Characters have 8 bits (JavaScript's have 16); numbers are integers and rationals without the
  limit 2 to the 53; keys of objects keep their order of insertion, also those that look like array indices; \<open>Promise.all\<close> runs its
  parts one after the other, in list order; the file system maps absolute paths to nodes and has no permissions; regular expressions are
  matchers written by hand.

  Not modelled. The remaining routes, authentication, the listing handlers, migrations: database queries and
  responses with no protocol of their own. The schemas of the request bodies: a library; handlers take what a schema has parsed. The model client and
  the Daytona provider: calls of HTTP interfaces and an SDK outside the repository. The local validator and the local process
  provider: child processes and directory copies. Pages of the web client (React) and the reducers of their state. Timers: a
  tick of the cancellation monitor, of a heartbeat or of a lock renewal is a step of the schedule, so their loops are not definitions. The reconciler of artifacts
  checks references and deletes in separate steps: that nothing referred to is deleted holds for references that
  exist when the reconciler runs, and a snapshot stored between the two steps is not covered.
\<close>

end
